(* ===== verification/Rz_Prelude.thy ===== *)
theory Rz_Prelude
  imports Main "HOL-Library.Word"
begin

text \<open>
  Shared ground of the development: the machine integers of the Rust source as words, the
  byte-order conversions of the standard library (\<open>to_le_bytes\<close>, \<open>from_le_bytes\<close> and
  their big-endian twins), Rust strings as lists of UTF-8 bytes, and the two collections of
  rewrite rules the component theories fill.
\<close>

unbundle bit_operations_syntax

section \<open>Machine integers\<close>

type_synonym u8 = "8 word"
type_synonym u16 = "16 word"
type_synonym u32 = "32 word"
type_synonym u64 = "64 word"

text \<open>A signed integer has the same representation and is read with \<open>sint\<close>.\<close>

type_synonym i64 = "64 word"

text \<open>\<open>usize\<close> on a 64-bit target is a natural number with this bound.\<close>

abbreviation usize_max :: nat where
  "usize_max \<equiv> 18446744073709551615"

named_theorems wire_simps \<open>what a reader returns on the bytes a writer produced\<close>
named_theorems map_simps \<open>lookups after insertions and removals\<close>

section \<open>Byte order\<close>

text \<open>
  \<open>nat_le n x\<close> is the low \<open>n\<close> bytes of \<open>x\<close>, least significant first;
  \<open>le_nat bs\<close> reads such a list back.
\<close>

fun nat_le :: "nat \<Rightarrow> nat \<Rightarrow> u8 list" where
  "nat_le 0 x = []"
| "nat_le (Suc n) x = of_nat (x mod 256) # nat_le n (x div 256)"

fun le_nat :: "u8 list \<Rightarrow> nat" where
  "le_nat [] = 0"
| "le_nat (b # bs) = unat b + 256 * le_nat bs"

lemma length_nat_le [simp]: "length (nat_le n x) = n"
  by (induction n x rule: nat_le.induct) auto

lemma unat_byte_bound: "unat (b :: u8) < 256"
  using unsigned_less [of b] by simp

lemma unat_eqD: "unat (w :: 'a::len word) = n \<Longrightarrow> w = of_nat n"
  by auto

lemma unat_of_nat_byte [simp]: "unat (of_nat (x mod 256) :: u8) = x mod 256"
  by (simp add: unat_of_nat)

lemma le_nat_nat_le: "le_nat (nat_le n x) = x mod 256 ^ n"
proof (induction n x rule: nat_le.induct)
  case (1 x)
  then show ?case by simp
next
  case (2 n x)
  have "x mod (256 * 256 ^ n) = x mod 256 + 256 * (x div 256 mod 256 ^ n)"
    by (simp add: mod_mult2_eq)
  with 2 show ?case by simp
qed

lemma le_nat_bound: "le_nat bs < 256 ^ length bs"
proof (induction bs)
  case Nil
  then show ?case by simp
next
  case (Cons b bs)
  have "unat b + 256 * le_nat bs < 256 + 256 * le_nat bs"
    using unat_byte_bound [of b] by simp
  also have "\<dots> \<le> 256 * 256 ^ length bs"
    using Cons by simp
  finally show ?case by simp
qed

lemma byte_of_nat_mod [simp]: "of_nat ((unat (b :: u8) + 256 * k) mod 256) = b"
proof -
  have "(unat b + 256 * k) mod 256 = unat b"
    using unat_byte_bound [of b] by simp
  then show ?thesis by simp
qed

lemma nat_le_le_nat [simp]: "nat_le (length bs) (le_nat bs) = bs"
proof (induction bs)
  case Nil
  then show ?case by simp
next
  case (Cons b bs)
  have "(unat b + 256 * le_nat bs) div 256 = le_nat bs"
    using unat_byte_bound [of b] by simp
  with Cons show ?case by simp
qed

lemma le_nat_append: "le_nat (xs @ ys) = le_nat xs + 256 ^ length xs * le_nat ys"
  by (induction xs) (auto simp: algebra_simps)

text \<open>The standard library's conversions at the widths the code uses.\<close>

definition le_bytes :: "nat \<Rightarrow> 'a::len word \<Rightarrow> u8 list" where
  "le_bytes n w = nat_le n (unat w)"

definition be_bytes :: "nat \<Rightarrow> 'a::len word \<Rightarrow> u8 list" where
  "be_bytes n w = rev (nat_le n (unat w))"

definition from_le :: "u8 list \<Rightarrow> 'a::len word" where
  "from_le bs = of_nat (le_nat bs)"

definition from_be :: "u8 list \<Rightarrow> 'a::len word" where
  "from_be bs = of_nat (le_nat (rev bs))"

lemma length_le_bytes [simp]: "length (le_bytes n w) = n"
  by (simp add: le_bytes_def)

lemma length_be_bytes [simp]: "length (be_bytes n w) = n"
  by (simp add: be_bytes_def)

lemma le_bytes_2: "le_bytes 2 w = [of_nat (unat w mod 256), of_nat (unat w div 256 mod 256)]"
  by (simp add: le_bytes_def numeral_2_eq_2)

lemma pow256: "(256 :: nat) ^ n = 2 ^ (8 * n)"
  by (simp add: power_mult)

lemma from_le_le_bytes:
  fixes w :: "'a::len word"
  assumes "LENGTH('a) \<le> 8 * n"
  shows "from_le (le_bytes n w) = w"
proof -
  have "unat w < 2 ^ LENGTH('a)" by (rule unsigned_less)
  also have "\<dots> \<le> (2 :: nat) ^ (8 * n)" using assms by (simp add: power_increasing)
  finally have "unat w mod 256 ^ n = unat w" by (simp add: pow256)
  then show ?thesis by (simp add: from_le_def le_bytes_def le_nat_nat_le)
qed

lemma from_be_be_bytes:
  fixes w :: "'a::len word"
  assumes "LENGTH('a) \<le> 8 * n"
  shows "from_be (be_bytes n w) = w"
  using from_le_le_bytes [OF assms, of w]
  by (simp add: from_be_def be_bytes_def from_le_def le_bytes_def)

lemma unat_from_le:
  assumes "8 * length bs \<le> LENGTH('a::len)"
  shows "unat (from_le bs :: 'a word) = le_nat bs"
proof -
  have "le_nat bs < 2 ^ (8 * length bs)" using le_nat_bound [of bs] by (simp add: pow256)
  also have "\<dots> \<le> (2 :: nat) ^ LENGTH('a)" using assms by (simp add: power_increasing)
  finally show ?thesis by (simp add: from_le_def unat_of_nat)
qed

lemma le_bytes_from_le:
  assumes "8 * length bs \<le> LENGTH('a::len)"
  shows "le_bytes (length bs) (from_le bs :: 'a word) = bs"
  by (simp add: le_bytes_def unat_from_le [OF assms])

lemma be_bytes_from_be:
  assumes "8 * length bs \<le> LENGTH('a::len)"
  shows "be_bytes (length bs) (from_be bs :: 'a word) = bs"
proof -
  have "le_bytes (length (rev bs)) (from_le (rev bs) :: 'a word) = rev bs"
    by (rule le_bytes_from_le) (use assms in simp)
  then show ?thesis
    by (simp add: be_bytes_def from_be_def from_le_def le_bytes_def)
qed

section \<open>Strings\<close>

text \<open>
  A Rust \<open>String\<close> or \<open>&str\<close> is the list of its UTF-8 bytes, one HOL character per byte, so
  \<open>length\<close> is Rust's \<open>len\<close> and literals are written as usual.
\<close>

definition str_bytes :: "string \<Rightarrow> u8 list" where
  "str_bytes s = map (\<lambda>c. of_nat (of_char c)) s"

definition bytes_str :: "u8 list \<Rightarrow> string" where
  "bytes_str bs = map (\<lambda>b. char_of (unat b)) bs"

lemma of_char_bound: "(of_char c :: nat) < 256"
  by (metis char_of_mod_256 mod_less_divisor of_char_mod_256 zero_less_numeral)

lemma bytes_str_str_bytes [simp]: "bytes_str (str_bytes s) = s"
  by (simp add: bytes_str_def str_bytes_def comp_def unat_of_nat of_char_bound map_idI)

lemma str_bytes_bytes_str [simp]: "str_bytes (bytes_str bs) = bs"
  using unat_byte_bound
  by (simp add: bytes_str_def str_bytes_def comp_def map_idI)

lemma length_str_bytes [simp]: "length (str_bytes s) = length s"
  by (simp add: str_bytes_def)

lemma length_bytes_str [simp]: "length (bytes_str bs) = length bs"
  by (simp add: bytes_str_def)

text \<open>\<open>str::strip_prefix\<close>.\<close>

fun strip_prefix :: "'a list \<Rightarrow> 'a list \<Rightarrow> 'a list option" where
  "strip_prefix [] s = Some s"
| "strip_prefix (p # ps) [] = None"
| "strip_prefix (p # ps) (c # s) = (if p = c then strip_prefix ps s else None)"

lemma strip_prefix_eq_Some: "strip_prefix p s = Some r \<longleftrightarrow> s = p @ r"
  by (induction p s rule: strip_prefix.induct) auto

lemma strip_prefix_append [simp]: "strip_prefix p (p @ r) = Some r"
  by (simp add: strip_prefix_eq_Some)

section \<open>Results\<close>

text \<open>\<open>Result<T, E>\<close> is \<open>'e + 'a\<close>, with \<open>Inl\<close> for \<open>Err\<close>.\<close>

definition ok_or :: "'e \<Rightarrow> 'a option \<Rightarrow> 'e + 'a" where
  "ok_or e x = (case x of None \<Rightarrow> Inl e | Some a \<Rightarrow> Inr a)"

definition map_err :: "('e \<Rightarrow> 'f) \<Rightarrow> 'e + 'a \<Rightarrow> 'f + 'a" where
  "map_err f x = (case x of Inl e \<Rightarrow> Inl (f e) | Inr a \<Rightarrow> Inr a)"

definition result_bind :: "'e + 'a \<Rightarrow> ('a \<Rightarrow> 'e + 'b) \<Rightarrow> 'e + 'b" where
  "result_bind x f = (case x of Inl e \<Rightarrow> Inl e | Inr a \<Rightarrow> f a)"

lemma ok_or_simps [simp]:
  "ok_or e None = Inl e" "ok_or e (Some a) = Inr a"
  by (simp_all add: ok_or_def)

lemma map_err_simps [simp]:
  "map_err f (Inl e) = Inl (f e)" "map_err f (Inr a) = Inr a"
  by (simp_all add: map_err_def)

lemma result_bind_simps [simp]:
  "result_bind (Inl e) f = Inl e" "result_bind (Inr a) f = f a"
  by (simp_all add: result_bind_def)

lemma result_bind_eq_Inr:
  "result_bind x f = Inr b \<longleftrightarrow> (\<exists>a. x = Inr a \<and> f a = Inr b)"
  by (cases x) auto

lemma map_err_eq_Inr [simp]: "map_err f x = Inr b \<longleftrightarrow> x = Inr b"
  by (cases x) auto

lemma ok_or_eq_Inr [simp]: "ok_or e x = Inr b \<longleftrightarrow> x = Some b"
  by (cases x) auto

end
