(* ===== verification/Std_Maps.thy ===== *)
theory Std_Maps
  imports Rz_Prelude "HOL-Library.AList"
begin

text \<open>
  The standard library's two map types. A \<open>BTreeMap\<close> iterates in key order, so it is an
  association list kept strictly sorted by key; a \<open>HashMap\<close> has no useful order, so it is
  an association list with distinct keys. Both are executable, and both satisfy the
  interface \<open>key_map\<close>, whose laws the components above rely on.
\<close>

section \<open>The interface\<close>

locale key_map =
  fixes km_empty :: "'m"
    and km_get :: "'m \<Rightarrow> 'k \<Rightarrow> 'v option"
    and km_insert :: "'k \<Rightarrow> 'v \<Rightarrow> 'm \<Rightarrow> 'm"
    and km_remove :: "'k \<Rightarrow> 'm \<Rightarrow> 'm"
    and km_wf :: "'m \<Rightarrow> bool"
  assumes get_empty: "km_get km_empty k = None"
    and get_insert: "km_get (km_insert k v m) k' = (if k' = k then Some v else km_get m k')"
    and get_remove: "km_get (km_remove k m) k' = (if k' = k then None else km_get m k')"
    and wf_empty: "km_wf km_empty"
    and wf_insert: "km_wf m \<Longrightarrow> km_wf (km_insert k v m)"
    and wf_remove: "km_wf m \<Longrightarrow> km_wf (km_remove k m)"
begin

lemma get_insert_same: "km_get (km_insert k v m) k = Some v"
  by (simp add: get_insert)

lemma get_insert_other: "k' \<noteq> k \<Longrightarrow> km_get (km_insert k v m) k' = km_get m k'"
  by (simp add: get_insert)

lemma get_remove_same: "km_get (km_remove k m) k = None"
  by (simp add: get_remove)

lemma get_insert_overwrites:
  "km_get (km_insert k v (km_insert k u m)) = km_get (km_insert k v m)"
  by (auto simp: get_insert)

lemma get_remove_insert:
  "km_get (km_remove k (km_insert k v m)) = km_get (km_remove k m)"
  by (auto simp: get_insert get_remove)

text \<open>Inserting a list of entries, as a loop of inserts does: the last entry per key wins.\<close>

lemma get_fold_insert:
  "km_get (fold (\<lambda>(k, v). km_insert k v) kvs m) k
     = (case map_of (rev kvs) k of None \<Rightarrow> km_get m k | Some v \<Rightarrow> Some v)"
proof (induction kvs arbitrary: m)
  case Nil
  then show ?case by simp
next
  case (Cons kv kvs)
  obtain a b where kv: "kv = (a, b)" by (cases kv)
  have "km_get (fold (\<lambda>(k, v). km_insert k v) (kv # kvs) m) k
      = (case map_of (rev kvs) k of None \<Rightarrow> km_get (km_insert a b m) k | Some v \<Rightarrow> Some v)"
    using Cons [of "km_insert a b m"] by (simp add: kv)
  then show ?case
    by (simp add: kv get_insert map_add_def split: option.splits)
qed

lemma wf_fold_insert: "km_wf m \<Longrightarrow> km_wf (fold (\<lambda>(k, v). km_insert k v) kvs m)"
  by (induction kvs arbitrary: m) (auto intro: wf_insert)

end

section \<open>\<open>BTreeMap\<close>\<close>

type_synonym ('k, 'v) btree = "('k \<times> 'v) list"

abbreviation bt_get :: "('k, 'v) btree \<Rightarrow> 'k \<Rightarrow> 'v option" where
  "bt_get \<equiv> map_of"

fun bt_insert :: "'k::linorder \<Rightarrow> 'v \<Rightarrow> ('k, 'v) btree \<Rightarrow> ('k, 'v) btree" where
  "bt_insert k v [] = [(k, v)]"
| "bt_insert k v ((a, b) # m) =
     (if k < a then (k, v) # (a, b) # m
      else if k = a then (k, v) # m
      else (a, b) # bt_insert k v m)"

definition bt_remove :: "'k \<Rightarrow> ('k, 'v) btree \<Rightarrow> ('k, 'v) btree" where
  "bt_remove k m = filter (\<lambda>e. fst e \<noteq> k) m"

definition bt_wf :: "('k::linorder, 'v) btree \<Rightarrow> bool" where
  "bt_wf m \<longleftrightarrow> sorted_wrt (<) (map fst m)"

abbreviation bt_values :: "('k, 'v) btree \<Rightarrow> 'v list" where
  "bt_values m \<equiv> map snd m"

lemma bt_get_insert: "bt_get (bt_insert k v m) = (bt_get m)(k \<mapsto> v)"
  by (induction k v m rule: bt_insert.induct) auto

lemma bt_get_remove: "bt_get (bt_remove k m) = (bt_get m)(k := None)"
  by (induction m) (auto simp: bt_remove_def)

lemma fst_set_bt_insert: "fst ` set (bt_insert k v m) = insert k (fst ` set m)"
  by (induction k v m rule: bt_insert.induct) auto

lemma bt_wf_insert: "bt_wf m \<Longrightarrow> bt_wf (bt_insert k v m)"
proof (induction k v m rule: bt_insert.induct)
  case (2 k v a b m)
  have "\<forall>x \<in> fst ` set (bt_insert k v m). a < x" if "a < k"
    using 2 that by (auto simp: fst_set_bt_insert bt_wf_def)
  with 2 show ?case by (auto simp: bt_wf_def)
qed (simp add: bt_wf_def)

lemma bt_wf_remove: "bt_wf m \<Longrightarrow> bt_wf (bt_remove k m)"
  unfolding bt_wf_def bt_remove_def
  by (induction m) auto

lemma bt_wf_distinct: "bt_wf m \<Longrightarrow> distinct (map fst m)"
  by (simp add: bt_wf_def strict_sorted_iff)

lemma bt_set_insert: "bt_wf m \<Longrightarrow> set (bt_insert k v m) = insert (k, v) {e \<in> set m. fst e \<noteq> k}"
proof (induction k v m rule: bt_insert.induct)
  case (1 k v)
  then show ?case by simp
next
  case (2 k v a b m)
  have above: "\<forall>e \<in> set m. a < fst e" and wf: "bt_wf m"
    using 2 by (auto simp: bt_wf_def)
  consider "k < a" | "k = a" | "a < k" by fastforce
  then show ?case
  proof cases
    case 1
    then have "\<forall>e \<in> set m. fst e \<noteq> k" using above by fastforce
    with 1 show ?thesis by auto
  next
    case 2
    then have "\<forall>e \<in> set m. fst e \<noteq> k" using above by fastforce
    with 2 show ?thesis by auto
  next
    case 3
    then have "set (bt_insert k v m) = insert (k, v) {e \<in> set m. fst e \<noteq> k}"
      using 2 wf by simp
    with 3 show ?thesis by auto
  qed
qed

lemma bt_set_remove: "set (bt_remove k m) = {e \<in> set m. fst e \<noteq> k}"
  by (auto simp: bt_remove_def)

interpretation bt: key_map "[]" bt_get bt_insert bt_remove bt_wf
  by unfold_locales
    (simp_all add: bt_get_insert bt_get_remove bt_wf_insert bt_wf_remove, simp add: bt_wf_def)

section \<open>\<open>HashMap\<close>\<close>

type_synonym ('k, 'v) hashmap = "('k \<times> 'v) list"

abbreviation hm_get :: "('k, 'v) hashmap \<Rightarrow> 'k \<Rightarrow> 'v option" where
  "hm_get \<equiv> map_of"

definition hm_insert :: "'k \<Rightarrow> 'v \<Rightarrow> ('k, 'v) hashmap \<Rightarrow> ('k, 'v) hashmap" where
  "hm_insert = AList.update"

definition hm_remove :: "'k \<Rightarrow> ('k, 'v) hashmap \<Rightarrow> ('k, 'v) hashmap" where
  "hm_remove = AList.delete"

definition hm_wf :: "('k, 'v) hashmap \<Rightarrow> bool" where
  "hm_wf m \<longleftrightarrow> distinct (map fst m)"

lemma hm_get_insert: "hm_get (hm_insert k v m) = (hm_get m)(k \<mapsto> v)"
  by (simp add: hm_insert_def update_conv')

lemma hm_get_remove: "hm_get (hm_remove k m) = (hm_get m)(k := None)"
  by (simp add: hm_remove_def delete_conv')

lemma hm_wf_insert: "hm_wf m \<Longrightarrow> hm_wf (hm_insert k v m)"
  by (simp add: hm_wf_def hm_insert_def distinct_update)

lemma hm_wf_remove: "hm_wf m \<Longrightarrow> hm_wf (hm_remove k m)"
  by (simp add: hm_wf_def hm_remove_def distinct_delete)

interpretation hm: key_map "[]" hm_get hm_insert hm_remove hm_wf
  by unfold_locales
    (simp_all add: hm_get_insert hm_get_remove hm_wf_insert hm_wf_remove, simp add: hm_wf_def)

lemmas map_access [map_simps] =
  bt_get_insert bt_get_remove hm_get_insert hm_get_remove

lemma hm_remove_absent: "hm_get m k = None \<Longrightarrow> hm_remove k m = m"
  by (induction m) (auto simp: hm_remove_def split: if_splits)

lemma length_hm_insert:
  "length (hm_insert k v m) = (if hm_get m k = None then Suc (length m) else length m)"
  by (induction m) (auto simp: hm_insert_def split: if_splits)

lemma length_hm_remove:
  "hm_wf m \<Longrightarrow> length (hm_remove k m) = (if hm_get m k = None then length m else length m - 1)"
proof (induction m)
  case Nil
  then show ?case by (simp add: hm_remove_def)
next
  case (Cons e m)
  obtain a b where e: "e = (a, b)" by (cases e)
  show ?case
  proof (cases "a = k")
    case True
    with Cons.prems have "hm_get m k = None"
      by (auto simp: e hm_wf_def map_of_eq_None_iff)
    then have "hm_remove k m = m" by (rule hm_remove_absent)
    with True show ?thesis by (simp add: e hm_remove_def)
  next
    case False
    with Cons have "length (hm_remove k m) = (if hm_get m k = None then length m else length m - 1)"
      by (simp add: e hm_wf_def)
    moreover have "hm_get m k \<noteq> None \<Longrightarrow> 0 < length m" by (cases m) auto
    ultimately show ?thesis using False by (auto simp: e hm_remove_def)
  qed
qed

section \<open>Looking an entry up by a property of its value\<close>

text \<open>\<open>map.values().find(p)\<close>: the first value in iteration order that satisfies \<open>p\<close>.\<close>

definition find_value :: "('v \<Rightarrow> bool) \<Rightarrow> ('k \<times> 'v) list \<Rightarrow> 'v option" where
  "find_value p m = find p (map snd m)"

lemma find_value_Some:
  "find_value p m = Some v \<Longrightarrow> p v \<and> v \<in> snd ` set m"
  by (auto simp: find_value_def find_Some_iff set_conv_nth)

lemma find_value_None: "find_value p m = None \<longleftrightarrow> (\<forall>v \<in> snd ` set m. \<not> p v)"
  by (auto simp: find_value_def find_None_iff)

end
