(* ===== verification/Utf8.thy ===== *)
theory Utf8
  imports Rz_Prelude
begin

text \<open>
  What the code uses of Rust's text handling: \<open>core::str::from_utf8\<close>,
  \<open>String::from_utf8_lossy\<close>, \<open>str::chars\<close>, \<open>char::is_control\<close> and \<open>str::trim\<close>.
  A \<open>char\<close> is a Unicode scalar value, here a natural number; decoding accepts exactly the
  well-formed sequences (no overlong forms, no surrogates, nothing above U+10FFFF).
\<close>

section \<open>Scalar values and their encoding\<close>

definition is_scalar :: "nat \<Rightarrow> bool" where
  "is_scalar c \<longleftrightarrow> c < 0xD800 \<or> (0xE000 \<le> c \<and> c < 0x110000)"

definition byte :: "nat \<Rightarrow> u8" where
  "byte x = of_nat x"

lemma unat_byte [simp]: "x < 256 \<Longrightarrow> unat (byte x) = x"
  by (simp add: byte_def unat_of_nat)

lemma byte_unat [simp]: "byte (unat b) = b"
  by (simp add: byte_def)

definition utf8_enc :: "nat \<Rightarrow> u8 list" where
  "utf8_enc c =
     (if c < 0x80 then [byte c]
      else if c < 0x800 then [byte (0xC0 + c div 64), byte (0x80 + c mod 64)]
      else if c < 0x10000 then
        [byte (0xE0 + c div 4096), byte (0x80 + c div 64 mod 64), byte (0x80 + c mod 64)]
      else
        [byte (0xF0 + c div 262144), byte (0x80 + c div 4096 mod 64),
         byte (0x80 + c div 64 mod 64), byte (0x80 + c mod 64)])"

definition utf8_encode :: "nat list \<Rightarrow> u8 list" where
  "utf8_encode cs = concat (map utf8_enc cs)"

definition is_cont :: "u8 \<Rightarrow> bool" where
  "is_cont b \<longleftrightarrow> 0x80 \<le> unat b \<and> unat b < 0xC0"

text \<open>One scalar value off the front of a byte sequence, when there is a well-formed one.\<close>

fun utf8_step :: "u8 list \<Rightarrow> (nat \<times> u8 list) option" where
  "utf8_step [] = None"
| "utf8_step (b0 # r) =
     (let x = unat b0 in
      if x < 0x80 then Some (x, r)
      else if x < 0xC2 then None
      else if x < 0xE0 then
        (case r of
           b1 # r' \<Rightarrow> if is_cont b1 then Some ((x - 0xC0) * 64 + (unat b1 - 0x80), r') else None
         | [] \<Rightarrow> None)
      else if x < 0xF0 then
        (case r of
           b1 # b2 # r' \<Rightarrow>
             (let c = (x - 0xE0) * 4096 + (unat b1 - 0x80) * 64 + (unat b2 - 0x80) in
              if is_cont b1 \<and> is_cont b2 \<and> 0x800 \<le> c \<and> is_scalar c then Some (c, r') else None)
         | _ \<Rightarrow> None)
      else if x < 0xF5 then
        (case r of
           b1 # b2 # b3 # r' \<Rightarrow>
             (let c = (x - 0xF0) * 262144 + (unat b1 - 0x80) * 4096
                      + (unat b2 - 0x80) * 64 + (unat b3 - 0x80) in
              if is_cont b1 \<and> is_cont b2 \<and> is_cont b3 \<and> 0x10000 \<le> c \<and> is_scalar c
              then Some (c, r') else None)
         | _ \<Rightarrow> None)
      else None)"

lemma utf8_step_shorter: "utf8_step bs = Some (c, r) \<Longrightarrow> length r < length bs"
  by (cases bs) (auto simp: Let_def split: if_splits list.splits)

function utf8_decode :: "u8 list \<Rightarrow> nat list option" where
  "utf8_decode bs =
     (if bs = [] then Some []
      else case utf8_step bs of
        None \<Rightarrow> None
      | Some (c, r) \<Rightarrow> map_option (Cons c) (utf8_decode r))"
  by pat_completeness auto
termination
  by (relation "measure length") (auto simp: utf8_step_shorter)

declare utf8_decode.simps [simp del]

lemma utf8_decode_Nil [simp]: "utf8_decode [] = Some []"
  by (simp add: utf8_decode.simps)

section \<open>The two round trips\<close>

lemma base64_split:
  fixes y z :: nat
  assumes "z < 64"
  shows "(y * 64 + z) div 64 = y" "(y * 64 + z) mod 64 = z"
  using assms by simp_all

lemma base64_join3: "c div 4096 * 4096 + c div 64 mod 64 * 64 + c mod 64 = (c :: nat)"
proof -
  have "c div 4096 = c div 64 div 64" by (simp flip: div_mult2_eq)
  then have "c div 4096 * 64 + c div 64 mod 64 = c div 64" by simp
  then have "(c div 4096 * 64 + c div 64 mod 64) * 64 + c mod 64 = c" by simp
  then show ?thesis by simp
qed

lemma base64_join4:
  "c div 262144 * 262144 + c div 4096 mod 64 * 4096 + c div 64 mod 64 * 64 + c mod 64 = (c :: nat)"
proof -
  have "c div 262144 = c div 4096 div 64" by (simp flip: div_mult2_eq)
  then have "c div 262144 * 64 + c div 4096 mod 64 = c div 4096" by simp
  then have "(c div 262144 * 64 + c div 4096 mod 64) * 4096 + c div 64 mod 64 * 64 + c mod 64 = c"
    using base64_join3 [of c] by simp
  then show ?thesis by simp
qed

lemma utf8_step_enc:
  assumes "is_scalar c"
  shows "utf8_step (utf8_enc c @ r) = Some (c, r)"
proof -
  consider "c < 0x80" | "0x80 \<le> c" "c < 0x800" | "0x800 \<le> c" "c < 0x10000"
    | "0x10000 \<le> c" "c < 0x110000"
    using assms by (fastforce simp: is_scalar_def)
  then show ?thesis
  proof cases
    case 1
    then show ?thesis by (simp add: utf8_enc_def)
  next
    case 2
    then have "c div 64 < 32" "2 \<le> c div 64" by auto
    with 2 show ?thesis by (simp add: utf8_enc_def is_cont_def)
  next
    case 3
    then have "c div 4096 < 16" by auto
    then show ?thesis using 3 assms base64_join3 [of c]
      by (simp add: utf8_enc_def is_cont_def)
  next
    case 4
    then have "c div 262144 < 5" by auto
    then show ?thesis using 4 assms base64_join4 [of c]
      by (simp add: utf8_enc_def is_cont_def)
  qed
qed

lemma utf8_enc_nonempty [simp]: "utf8_enc c \<noteq> []"
  by (simp add: utf8_enc_def)

lemma utf8_decode_encode:
  "\<forall>c \<in> set cs. is_scalar c \<Longrightarrow> utf8_decode (utf8_encode cs) = Some cs"
proof (induction cs)
  case Nil
  then show ?case by (simp add: utf8_encode_def)
next
  case (Cons c cs)
  then have "utf8_step (utf8_encode (c # cs)) = Some (c, utf8_encode cs)"
    using utf8_step_enc [of c "utf8_encode cs"] by (simp add: utf8_encode_def)
  moreover have "utf8_encode (c # cs) \<noteq> []" by (simp add: utf8_encode_def)
  ultimately show ?case using Cons by (simp add: utf8_decode.simps [of "utf8_encode (c # cs)"])
qed

lemma byte_eqI: "x = unat b \<Longrightarrow> byte x = b"
  by simp

lemma is_cont_bits:
  assumes "is_cont b"
  obtains y where "unat b = 128 + y" "y < 64"
  using assms by (auto simp: is_cont_def intro: that [of "unat b - 128"])

lemma utf8_step_Some:
  assumes "utf8_step bs = Some (c, r)"
  shows "is_scalar c \<and> bs = utf8_enc c @ r"
proof -
  from assms obtain b0 t where bs: "bs = b0 # t" by (cases bs) auto
  let ?x = "unat b0"
  consider "?x < 0x80" | "0xC2 \<le> ?x" "?x < 0xE0" | "0xE0 \<le> ?x" "?x < 0xF0" | "0xF0 \<le> ?x" "?x < 0xF5"
    using assms by (fastforce simp: bs Let_def split: if_splits)
  then show ?thesis
  proof cases
    case 1
    with assms show ?thesis by (auto simp: bs utf8_enc_def is_scalar_def)
  next
    case 2
    with assms obtain b1 where t: "t = b1 # r" "is_cont b1"
      and c: "c = (?x - 0xC0) * 64 + (unat b1 - 0x80)"
      by (auto simp: bs Let_def split: list.splits if_splits)
    obtain y where y: "unat b1 = 128 + y" "y < 64" using t(2) by (rule is_cont_bits)
    obtain x where x: "?x = 192 + x" "2 \<le> x" "x < 32"
      using 2 by (auto intro: that [of "?x - 192"])
    have "c = x * 64 + y" by (simp add: c x y)
    moreover from this y have "c div 64 = x" "c mod 64 = y" by (simp_all only: base64_split)
    moreover have "byte (192 + x) = b0" "byte (128 + y) = b1" using x y by (simp_all add: byte_eqI)
    ultimately show ?thesis using x y by (simp add: bs t utf8_enc_def is_scalar_def)
  next
    case 3
    with assms obtain b1 b2 where t: "t = b1 # b2 # r" "is_cont b1" "is_cont b2"
      and c: "c = (?x - 0xE0) * 4096 + (unat b1 - 0x80) * 64 + (unat b2 - 0x80)"
      and ok: "0x800 \<le> c" "is_scalar c"
      by (auto simp: bs Let_def split: list.splits if_splits)
    obtain y where y: "unat b1 = 128 + y" "y < 64" using t(2) by (rule is_cont_bits)
    obtain z where z: "unat b2 = 128 + z" "z < 64" using t(3) by (rule is_cont_bits)
    obtain x where x: "?x = 224 + x" "x < 16"
      using 3 by (auto intro: that [of "?x - 224"])
    have c': "c = (x * 64 + y) * 64 + z" by (simp add: c x y z)
    then have d: "c div 64 = x * 64 + y" "c mod 64 = z" using z by (simp_all only: base64_split)
    have "c div 4096 = c div 64 div 64" by (simp flip: div_mult2_eq)
    with d y have "c div 4096 = x" "c div 64 mod 64 = y" by (simp_all only: base64_split)
    moreover have "byte (224 + x) = b0" "byte (128 + y) = b1" "byte (128 + z) = b2"
      using x y z by (simp_all add: byte_eqI)
    moreover have "c < 0x10000" using x y z by (simp add: c')
    ultimately show ?thesis using ok d(2) by (simp add: bs t utf8_enc_def)
  next
    case 4
    with assms obtain b1 b2 b3 where t: "t = b1 # b2 # b3 # r" "is_cont b1" "is_cont b2" "is_cont b3"
      and c: "c = (?x - 0xF0) * 262144 + (unat b1 - 0x80) * 4096 + (unat b2 - 0x80) * 64
                  + (unat b3 - 0x80)"
      and ok: "0x10000 \<le> c" "is_scalar c"
      by (auto simp: bs Let_def split: list.splits if_splits)
    obtain w where w: "unat b1 = 128 + w" "w < 64" using t(2) by (rule is_cont_bits)
    obtain y where y: "unat b2 = 128 + y" "y < 64" using t(3) by (rule is_cont_bits)
    obtain z where z: "unat b3 = 128 + z" "z < 64" using t(4) by (rule is_cont_bits)
    obtain x where x: "?x = 240 + x" "x < 5"
      using 4 by (auto intro: that [of "?x - 240"])
    have c': "c = ((x * 64 + w) * 64 + y) * 64 + z" by (simp add: c x y z w)
    then have d: "c div 64 = (x * 64 + w) * 64 + y" "c mod 64 = z"
      using z by (simp_all only: base64_split)
    have "c div 4096 = c div 64 div 64" by (simp flip: div_mult2_eq)
    with d y have e: "c div 4096 = x * 64 + w" "c div 64 mod 64 = y" by (simp_all only: base64_split)
    have "c div 262144 = c div 4096 div 64" by (simp flip: div_mult2_eq)
    with e w have "c div 262144 = x" "c div 4096 mod 64 = w" by (simp_all only: base64_split)
    moreover have "byte (240 + x) = b0" "byte (128 + w) = b1" "byte (128 + y) = b2" "byte (128 + z) = b3"
      using x y z w by (simp_all add: byte_eqI)
    ultimately show ?thesis using ok d(2) e(2) by (simp add: bs t utf8_enc_def)
  qed
qed

lemma utf8_encode_decode:
  "utf8_decode bs = Some cs \<Longrightarrow> utf8_encode cs = bs \<and> (\<forall>c \<in> set cs. is_scalar c)"
proof (induction bs arbitrary: cs rule: utf8_decode.induct)
  case (1 bs)
  show ?case
  proof (cases "bs = []")
    case True
    with "1.prems" show ?thesis by (simp add: utf8_encode_def)
  next
    case False
    with "1.prems" obtain c r ds where
      st: "utf8_step bs = Some (c, r)" and d: "utf8_decode r = Some ds" and cs: "cs = c # ds"
      by (auto simp: utf8_decode.simps [of bs] split: option.splits)
    from "1.IH" [OF False st] d have "utf8_encode ds = r \<and> (\<forall>c \<in> set ds. is_scalar c)" by simp
    with utf8_step_Some [OF st] show ?thesis by (simp add: cs utf8_encode_def)
  qed
qed

section \<open>Strings\<close>

text \<open>\<open>core::str::from_utf8\<close>: the bytes unchanged when they are well-formed.\<close>

definition utf8_valid :: "u8 list \<Rightarrow> bool" where
  "utf8_valid bs \<longleftrightarrow> utf8_decode bs \<noteq> None"

definition from_utf8 :: "u8 list \<Rightarrow> string option" where
  "from_utf8 bs = (if utf8_valid bs then Some (bytes_str bs) else None)"

text \<open>
  The characters of a string, and the string of a list of characters. A Rust string is always
  well-formed, so \<open>chars\<close> never takes the fallback on one.
\<close>

definition str_valid :: "string \<Rightarrow> bool" where
  "str_valid s \<longleftrightarrow> utf8_valid (str_bytes s)"

definition chars :: "string \<Rightarrow> nat list" where
  "chars s = (case utf8_decode (str_bytes s) of Some cs \<Rightarrow> cs | None \<Rightarrow> [])"

definition str_of :: "nat list \<Rightarrow> string" where
  "str_of cs = bytes_str (utf8_encode cs)"

lemma str_of_chars: "str_valid s \<Longrightarrow> str_of (chars s) = s"
  using utf8_encode_decode [of "str_bytes s"]
  by (auto simp: str_valid_def utf8_valid_def chars_def str_of_def)

lemma chars_scalar: "c \<in> set (chars s) \<Longrightarrow> is_scalar c"
  using utf8_encode_decode [of "str_bytes s"]
  by (cases "utf8_decode (str_bytes s)") (auto simp: chars_def)

lemma chars_str_of: "\<forall>c \<in> set cs. is_scalar c \<Longrightarrow> chars (str_of cs) = cs"
  by (simp add: chars_def str_of_def utf8_decode_encode)

lemma str_valid_str_of: "\<forall>c \<in> set cs. is_scalar c \<Longrightarrow> str_valid (str_of cs)"
  by (simp add: str_valid_def utf8_valid_def str_of_def utf8_decode_encode)

lemma from_utf8_valid: "from_utf8 bs = Some s \<Longrightarrow> str_valid s \<and> str_bytes s = bs"
  by (auto simp: from_utf8_def str_valid_def split: if_splits)

lemma from_utf8_str_bytes: "str_valid s \<Longrightarrow> from_utf8 (str_bytes s) = Some s"
  by (simp add: from_utf8_def str_valid_def)

section \<open>Lossy decoding\<close>

text \<open>
  \<open>String::from_utf8_lossy\<close> replaces each maximal ill-formed prefix with U+FFFD.
  \<open>utf8_bad_len\<close> is the length of that prefix: the lead byte and the continuation bytes
  that could still have belonged to it.
\<close>

fun second_ok :: "nat \<Rightarrow> nat \<Rightarrow> bool" where
  "second_ok x y =
     (if x = 0xE0 then 0xA0 \<le> y \<and> y < 0xC0
      else if x = 0xED then 0x80 \<le> y \<and> y < 0xA0
      else if x = 0xF0 then 0x90 \<le> y \<and> y < 0xC0
      else if x = 0xF4 then 0x80 \<le> y \<and> y < 0x90
      else 0x80 \<le> y \<and> y < 0xC0)"

fun utf8_bad_len :: "u8 list \<Rightarrow> nat" where
  "utf8_bad_len (b0 # b1 # b2 # r) =
     (let x = unat b0 in
      if 0xE0 \<le> x \<and> x < 0xF0 then (if second_ok x (unat b1) then 2 else 1)
      else if 0xF0 \<le> x \<and> x < 0xF5 then
        (if second_ok x (unat b1) then (if is_cont b2 then 3 else 2) else 1)
      else 1)"
| "utf8_bad_len [b0, b1] =
     (let x = unat b0 in
      if 0xE0 \<le> x \<and> x < 0xF5 \<and> second_ok x (unat b1) then 2 else 1)"
| "utf8_bad_len bs = 1"

lemma utf8_bad_len_pos: "0 < utf8_bad_len bs"
  by (cases bs rule: utf8_bad_len.cases) (auto simp: Let_def)

function utf8_lossy :: "u8 list \<Rightarrow> nat list" where
  "utf8_lossy bs =
     (if bs = [] then []
      else case utf8_step bs of
        Some (c, r) \<Rightarrow> c # utf8_lossy r
      | None \<Rightarrow> 0xFFFD # utf8_lossy (drop (utf8_bad_len bs) bs))"
  by pat_completeness auto
termination
  by (relation "measure length") (auto simp: utf8_step_shorter utf8_bad_len_pos)

declare utf8_lossy.simps [simp del]

lemma utf8_lossy_Nil [simp]: "utf8_lossy [] = []"
  by (simp add: utf8_lossy.simps)

lemma utf8_lossy_valid: "utf8_decode bs = Some cs \<Longrightarrow> utf8_lossy bs = cs"
proof (induction bs arbitrary: cs rule: utf8_decode.induct)
  case (1 bs)
  show ?case
  proof (cases "bs = []")
    case True
    with "1.prems" show ?thesis by simp
  next
    case False
    with "1.prems" obtain c r ds where
      st: "utf8_step bs = Some (c, r)" and d: "utf8_decode r = Some ds" and cs: "cs = c # ds"
      by (auto simp: utf8_decode.simps [of bs] split: option.splits)
    from "1.IH" [OF False st] d have "utf8_lossy r = ds" by simp
    with st False cs show ?thesis by (simp add: utf8_lossy.simps [of bs])
  qed
qed

definition from_utf8_lossy :: "u8 list \<Rightarrow> string" where
  "from_utf8_lossy bs = str_of (utf8_lossy bs)"

lemma from_utf8_lossy_str_bytes: "str_valid s \<Longrightarrow> from_utf8_lossy (str_bytes s) = s"
  using str_of_chars [of s] utf8_lossy_valid [of "str_bytes s"]
  by (auto simp: from_utf8_lossy_def chars_def str_valid_def utf8_valid_def)

section \<open>Character classes\<close>

text \<open>\<open>char::is_control\<close> is the general category Cc; \<open>char::is_whitespace\<close> is White_Space.\<close>

definition is_control :: "nat \<Rightarrow> bool" where
  "is_control c \<longleftrightarrow> c < 0x20 \<or> (0x7F \<le> c \<and> c < 0xA0)"

definition is_whitespace :: "nat \<Rightarrow> bool" where
  "is_whitespace c \<longleftrightarrow>
     (9 \<le> c \<and> c \<le> 13) \<or> c = 0x20 \<or> c = 0x85 \<or> c = 0xA0 \<or> c = 0x1680
     \<or> (0x2000 \<le> c \<and> c \<le> 0x200A) \<or> c = 0x2028 \<or> c = 0x2029 \<or> c = 0x202F \<or> c = 0x205F
     \<or> c = 0x3000"

definition trim_chars :: "nat list \<Rightarrow> nat list" where
  "trim_chars cs = rev (dropWhile is_whitespace (rev (dropWhile is_whitespace cs)))"

definition str_trim :: "string \<Rightarrow> string" where
  "str_trim s = str_of (trim_chars (chars s))"

lemma set_trim_chars: "set (trim_chars cs) \<subseteq> set cs"
  by (auto simp: trim_chars_def dest!: set_dropWhileD)

lemma dropWhile_idem: "dropWhile p (dropWhile p xs) = dropWhile p xs"
  by (induction xs) auto

lemma chars_trim: "chars (str_trim s) = trim_chars (chars s)"
  unfolding str_trim_def
  by (rule chars_str_of) (use set_trim_chars chars_scalar in blast)

lemma str_valid_trim: "str_valid (str_trim s)"
  unfolding str_trim_def
  by (rule str_valid_str_of) (use set_trim_chars chars_scalar in blast)

text \<open>ASCII text is well-formed, character by character.\<close>

lemma utf8_decode_ascii:
  "\<forall>b \<in> set bs. unat b < 0x80 \<Longrightarrow> utf8_decode bs = Some (map unat bs)"
  by (induction bs) (auto simp: utf8_decode.simps [of "_ # _"])

lemma str_valid_ascii:
  assumes "\<forall>c \<in> set s. of_char c < (128 :: nat)"
  shows "str_valid s"
proof -
  have "\<forall>b \<in> set (str_bytes s). unat b < 0x80"
    using assms by (auto simp: str_bytes_def unat_of_nat)
  from utf8_decode_ascii [OF this] show ?thesis by (simp add: str_valid_def utf8_valid_def)
qed

end
