(* ===== verification/Ids.thy ===== *)
theory Ids
  imports Rz_Prelude
begin

text \<open>
  The address and identifier newtypes of \<open>rszigbee-spec/src/ids.rs\<close>: the 64-bit IEEE
  address with its text form (parsing, display and the two byte orders), the short network
  address, and the cluster, attribute, command, endpoint, group, profile and manufacturer
  identifiers. The IEEE and network addresses are map keys in the code, so they are linearly
  ordered by their raw value, as the derived \<open>Ord\<close> orders them.
\<close>

section \<open>The newtypes\<close>

datatype ieee = Ieee (ieee_raw: u64)
datatype nwk = Nwk (nwk_raw: u16)
datatype cluster_id = ClusterId (cluster_raw: u16)
datatype attr_id = AttrId (attr_raw: u16)
datatype command_id = CommandId (command_raw: u8)
datatype endpoint_id = EndpointId (endpoint_raw: u8)
datatype group_id = GroupId (group_raw: u16)
datatype profile_id = ProfileId (profile_raw: u16)
datatype manufacturer_code = ManufacturerCode (manufacturer_raw: u16)

instantiation ieee :: linorder
begin

definition less_eq_ieee :: "ieee \<Rightarrow> ieee \<Rightarrow> bool" where
  "less_eq_ieee a b \<longleftrightarrow> ieee_raw a \<le> ieee_raw b"

definition less_ieee :: "ieee \<Rightarrow> ieee \<Rightarrow> bool" where
  "less_ieee a b \<longleftrightarrow> ieee_raw a < ieee_raw b"

instance
  by standard (auto simp: less_eq_ieee_def less_ieee_def intro: ieee.expand)

end

instantiation nwk :: linorder
begin

definition less_eq_nwk :: "nwk \<Rightarrow> nwk \<Rightarrow> bool" where
  "less_eq_nwk a b \<longleftrightarrow> nwk_raw a \<le> nwk_raw b"

definition less_nwk :: "nwk \<Rightarrow> nwk \<Rightarrow> bool" where
  "less_nwk a b \<longleftrightarrow> nwk_raw a < nwk_raw b"

instance
  by standard (auto simp: less_eq_nwk_def less_nwk_def intro: nwk.expand)

end

definition ieee_ZERO :: ieee where
  "ieee_ZERO = Ieee 0"

definition nwk_COORDINATOR :: nwk where
  "nwk_COORDINATOR = Nwk 0"

definition nwk_is_broadcast :: "nwk \<Rightarrow> bool" where
  "nwk_is_broadcast n \<longleftrightarrow> 0xfff8 \<le> nwk_raw n"

definition endpoint_ZDO :: endpoint_id where
  "endpoint_ZDO = EndpointId 0"

definition endpoint_HA :: endpoint_id where
  "endpoint_HA = EndpointId 1"

definition endpoint_BROADCAST :: endpoint_id where
  "endpoint_BROADCAST = EndpointId 255"

definition profile_HA :: profile_id where
  "profile_HA = ProfileId 0x0104"

definition profile_ZDO :: profile_id where
  "profile_ZDO = ProfileId 0"

definition profile_GREEN_POWER :: profile_id where
  "profile_GREEN_POWER = ProfileId 0xa1e0"

section \<open>Byte forms of an IEEE address\<close>

definition ieee_to_be_bytes :: "ieee \<Rightarrow> u8 list" where
  "ieee_to_be_bytes a = be_bytes 8 (ieee_raw a)"

definition ieee_to_le_bytes :: "ieee \<Rightarrow> u8 list" where
  "ieee_to_le_bytes a = le_bytes 8 (ieee_raw a)"

definition ieee_from_be_bytes :: "u8 list \<Rightarrow> ieee" where
  "ieee_from_be_bytes b = Ieee (from_be b)"

definition ieee_from_le_bytes :: "u8 list \<Rightarrow> ieee" where
  "ieee_from_le_bytes b = Ieee (from_le b)"

section \<open>Hexadecimal text\<close>

definition hex_char :: "nat \<Rightarrow> char" where
  "hex_char d = (if d < 10 then char_of (48 + d) else char_of (87 + d))"

text \<open>\<open>char::to_digit(16)\<close>.\<close>

definition hex_val :: "char \<Rightarrow> nat option" where
  "hex_val c =
     (let x = of_char c :: nat in
      if 48 \<le> x \<and> x \<le> 57 then Some (x - 48)
      else if 97 \<le> x \<and> x \<le> 102 then Some (x - 87)
      else if 65 \<le> x \<and> x \<le> 70 then Some (x - 55)
      else None)"

text \<open>The formats \<open>{:016x}\<close> and \<open>{:04x}\<close>: exactly \<open>n\<close> lowercase digits.\<close>

fun hex_pad :: "nat \<Rightarrow> nat \<Rightarrow> string" where
  "hex_pad 0 x = []"
| "hex_pad (Suc n) x = hex_pad n (x div 16) @ [hex_char (x mod 16)]"

text \<open>The digit loop of \<open>u64::from_str_radix(_, 16)\<close>, with its checked arithmetic.\<close>

fun hex_digits :: "nat \<Rightarrow> string \<Rightarrow> nat option" where
  "hex_digits acc [] = Some acc"
| "hex_digits acc (c # cs) =
     (case hex_val c of
        None \<Rightarrow> None
      | Some d \<Rightarrow> if acc * 16 + d < 2 ^ 64 then hex_digits (acc * 16 + d) cs else None)"

text \<open>
  \<open>from_str_radix\<close> itself: an empty string and a lone sign are errors, and a leading plus
  sign is accepted.
\<close>

fun u64_from_str_radix_16 :: "string \<Rightarrow> u64 option" where
  "u64_from_str_radix_16 [] = None"
| "u64_from_str_radix_16 (c # cs) =
     (if cs = [] \<and> (c = CHR ''+'' \<or> c = CHR ''-'') then None
      else map_option of_nat (hex_digits 0 (if c = CHR ''+'' then cs else c # cs)))"

section \<open>Parsing and display\<close>

datatype parse_ieee_error = Length nat | NotHex

definition strip_0x :: "string \<Rightarrow> string" where
  "strip_0x s =
     (case strip_prefix ''0x'' s of
        Some r \<Rightarrow> r
      | None \<Rightarrow> (case strip_prefix ''0X'' s of Some r \<Rightarrow> r | None \<Rightarrow> s))"

definition ieee_parse :: "string \<Rightarrow> parse_ieee_error + ieee" where
  "ieee_parse s =
     (let body = strip_0x s in
      if length body \<noteq> 16 then Inl (Length (length body))
      else case u64_from_str_radix_16 body of
        Some x \<Rightarrow> Inr (Ieee x)
      | None \<Rightarrow> Inl NotHex)"

definition ieee_display :: "ieee \<Rightarrow> string" where
  "ieee_display a = ''0x'' @ hex_pad 16 (unat (ieee_raw a))"

definition nwk_display :: "nwk \<Rightarrow> string" where
  "nwk_display n = ''0x'' @ hex_pad 4 (unat (nwk_raw n))"

text \<open>The serialised form of a 64-bit value, \<open>hex_u64\<close>: no length check on the way in.\<close>

definition hex_u64_serialize :: "u64 \<Rightarrow> string" where
  "hex_u64_serialize v = ''0x'' @ hex_pad 16 (unat v)"

definition hex_u64_deserialize :: "string \<Rightarrow> u64 option" where
  "hex_u64_deserialize raw = u64_from_str_radix_16 (strip_0x raw)"

section \<open>Facts about the text form\<close>

lemma hex_val_char [simp]: "d < 16 \<Longrightarrow> hex_val (hex_char d) = Some d"
  by (auto simp: hex_val_def hex_char_def Let_def)

lemma hex_char_sign [simp]: "d < 16 \<Longrightarrow> hex_char d \<noteq> CHR ''+'' \<and> hex_char d \<noteq> CHR ''-''"
  using hex_val_char [of d] by (auto simp: hex_val_def)

lemma length_hex_pad [simp]: "length (hex_pad n x) = n"
  by (induction n x rule: hex_pad.induct) auto

lemma hex_char_no_slash: "d < 16 \<Longrightarrow> hex_char d \<noteq> CHR ''/''"
  using hex_val_char [of d] by (auto simp: hex_val_def)

lemma hex_pad_no_slash: "CHR ''/'' \<notin> set (hex_pad n x)"
  by (induction n x rule: hex_pad.induct) (auto simp: hex_char_no_slash eq_commute [of "CHR ''/''"])

lemma ieee_display_no_slash: "CHR ''/'' \<notin> set (ieee_display a)"
  by (simp add: ieee_display_def hex_pad_no_slash)

lemma ieee_display_nonempty: "ieee_display a \<noteq> []"
  by (simp add: ieee_display_def)

lemma hex_digits_append:
  "hex_digits a (xs @ ys) = (case hex_digits a xs of None \<Rightarrow> None | Some b \<Rightarrow> hex_digits b ys)"
  by (induction a xs rule: hex_digits.induct) (auto split: option.splits)

lemma hex_digits_pad: "x < 16 ^ n \<Longrightarrow> x < 2 ^ 64 \<Longrightarrow> hex_digits 0 (hex_pad n x) = Some x"
proof (induction n x rule: hex_pad.induct)
  case (1 x)
  then show ?case by simp
next
  case (2 n x)
  have "x div 16 < 16 ^ n" using "2.prems"(1) by (simp add: less_mult_imp_div_less mult.commute)
  moreover have "x div 16 < 2 ^ 64" using "2.prems"(2) by simp
  ultimately have "hex_digits 0 (hex_pad n (x div 16)) = Some (x div 16)" by (rule "2.IH")
  then show ?case using "2.prems"(2) by (simp add: hex_digits_append)
qed

lemma hex_pad_Suc_no_sign:
  "\<exists>c cs. hex_pad (Suc n) x = c # cs \<and> c \<noteq> CHR ''+'' \<and> c \<noteq> CHR ''-''"
proof (induction n arbitrary: x)
  case 0
  show ?case by simp
next
  case (Suc n)
  obtain c cs where "hex_pad (Suc n) (x div 16) = c # cs" "c \<noteq> CHR ''+''" "c \<noteq> CHR ''-''"
    using Suc [of "x div 16"] by blast
  then show ?case by (simp only: hex_pad.simps(2) [of "Suc n" x]) simp
qed

lemma from_str_radix_pad:
  assumes "x < 16 ^ Suc n" "x < 2 ^ 64"
  shows "u64_from_str_radix_16 (hex_pad (Suc n) x) = Some (of_nat x)"
proof -
  obtain c cs where "hex_pad (Suc n) x = c # cs" "c \<noteq> CHR ''+''" "c \<noteq> CHR ''-''"
    using hex_pad_Suc_no_sign by blast
  then show ?thesis using hex_digits_pad [OF assms] by simp
qed

lemma u64_from_str_radix_hex16 [simp]:
  "u64_from_str_radix_16 (hex_pad 16 (unat (w :: u64))) = Some w"
proof -
  have b: "unat w < 2 ^ 64" using unsigned_less [of w] by simp
  moreover from b have "unat w < 16 ^ Suc 15" by simp
  ultimately have "u64_from_str_radix_16 (hex_pad (Suc 15) (unat w)) = Some (of_nat (unat w))"
    by (intro from_str_radix_pad)
  moreover have "Suc 15 = (16 :: nat)" by simp
  ultimately show ?thesis by (simp only: of_nat_unat ucast_id)
qed

lemma strip_0x_lower [simp]: "strip_0x (''0x'' @ r) = r"
  by (simp add: strip_0x_def)

text \<open>What a body of sixteen characters is accepted as.\<close>

lemma from_str_radix_Some:
  "u64_from_str_radix_16 s = Some w \<longleftrightarrow>
     (\<exists>n. w = of_nat n \<and> s \<noteq> []
        \<and> (hex_digits 0 s = Some n \<or> (\<exists>ds. s = CHR ''+'' # ds \<and> ds \<noteq> [] \<and> hex_digits 0 ds = Some n)))"
proof (cases s)
  case Nil
  then show ?thesis by simp
next
  case (Cons c cs)
  have p: "hex_val (CHR ''+'') = None" and m: "hex_val (CHR ''-'') = None"
    by (simp_all add: hex_val_def)
  show ?thesis by (cases "cs = []") (auto simp: Cons p m)
qed

definition is_hex :: "char \<Rightarrow> bool" where
  "is_hex c \<longleftrightarrow> hex_val c \<noteq> None"

lemma hex_val_bound: "hex_val c = Some d \<Longrightarrow> d < 16"
  by (auto simp: hex_val_def Let_def split: if_splits)

lemma hex_digits_all: "hex_digits acc ds = Some n \<Longrightarrow> list_all is_hex ds"
  by (induction acc ds rule: hex_digits.induct) (auto simp: is_hex_def split: option.splits if_splits)

lemma hex_digits_total:
  assumes "list_all is_hex ds" "acc < 16 ^ k" "k + length ds \<le> 16"
  shows "\<exists>n. hex_digits acc ds = Some n"
  using assms
proof (induction ds arbitrary: acc k)
  case (Cons c ds)
  then obtain d where d: "hex_val c = Some d" by (auto simp: is_hex_def)
  have "acc * 16 + d < 16 ^ Suc k" using hex_val_bound [OF d] Cons.prems(2) by simp
  moreover have "(16 :: nat) ^ Suc k \<le> 16 ^ 16" using Cons.prems(3) by (intro power_increasing) auto
  ultimately show ?case
    using Cons.IH [of "acc * 16 + d" "Suc k"] Cons.prems d by simp
qed simp

lemma ieee_parse_display: "ieee_parse (ieee_display a) = Inr a"
  by (simp add: ieee_parse_def ieee_display_def Let_def strip_0x_lower [simplified])

section \<open>Properties\<close>

text \<open>
  addresses survive their text and byte forms. Parsing the canonical text of an address gives
  the address, so do reading its bytes in either order and reading the string a 64-bit field is
  stored as.
\<close>

theorem address_roundtrips:
  "ieee_parse (ieee_display a) = Inr a \<and>
   ieee_from_be_bytes (ieee_to_be_bytes a) = a \<and>
   ieee_from_le_bytes (ieee_to_le_bytes a) = a \<and>
   hex_u64_deserialize (hex_u64_serialize v) = Some v"
  by (simp_all add: ieee_parse_def ieee_display_def hex_u64_deserialize_def hex_u64_serialize_def
      ieee_from_be_bytes_def ieee_to_be_bytes_def ieee_from_le_bytes_def ieee_to_le_bytes_def
      from_be_be_bytes from_le_le_bytes Let_def strip_0x_lower [simplified])

text \<open>
  exactly which texts are addresses. After an optional prefix there are sixteen characters,
  all of them hexadecimal digits, or a plus sign and fifteen digits, which the standard library's
  number parser admits; every other text is refused, with its length when that is what is wrong.
\<close>

theorem ieee_parse_accepts_iff:
  "(\<exists>a. ieee_parse s = Inr a) \<longleftrightarrow> length (strip_0x s) = 16 \<and>
     (list_all is_hex (strip_0x s)
      \<or> hd (strip_0x s) = CHR ''+'' \<and> list_all is_hex (tl (strip_0x s)))"
proof -
  have "(\<exists>x. u64_from_str_radix_16 b = Some x) \<longleftrightarrow>
      list_all is_hex b \<or> hd b = CHR ''+'' \<and> list_all is_hex (tl b)" if len: "length b = 16" for b
  proof -
    obtain c cs where b: "b = c # cs" using len by (cases b) auto
    have digits: "(\<exists>n. hex_digits 0 ds = Some n) \<longleftrightarrow> list_all is_hex ds" if "length ds \<le> 16" for ds
      using hex_digits_total [of ds 0 0] hex_digits_all that by auto
    have "(\<exists>x. u64_from_str_radix_16 b = Some x) \<longleftrightarrow> (\<exists>n. hex_digits 0 b = Some n)
        \<or> c = CHR ''+'' \<and> (\<exists>n. hex_digits 0 cs = Some n)"
      using len by (auto simp: from_str_radix_Some b simp del: hex_digits.simps u64_from_str_radix_16.simps)
    then show ?thesis using len by (simp add: digits b del: u64_from_str_radix_16.simps hex_digits.simps)
  qed
  moreover have "(\<exists>a. ieee_parse s = Inr a) \<longleftrightarrow>
      length (strip_0x s) = 16 \<and> (\<exists>x. u64_from_str_radix_16 (strip_0x s) = Some x)"
    by (auto simp: ieee_parse_def Let_def split: option.splits)
  ultimately show ?thesis by blast
qed

end
