(* ===== verification/Codec.thy ===== *)
theory Codec
  imports Rz_Prelude Utf8 Ids
begin

text \<open>
  The byte reader and writer of \<open>rszigbee-spec/src/codec.rs\<close>. A read takes the cursor and
  returns a result together with the cursor afterwards, so that code which looks at the cursor
  after a failed read sees what the program sees; \<open>?\<close> is \<open>rd_bind\<close>. The locale
  \<open>wire_field\<close> is the contract between a field's writer and its reader, interpreted for
  every fixed-width field; the frame codecs rest on it.
\<close>

section \<open>Errors, the cursor, and sequencing\<close>

datatype codec_error =
    Eof (wanted: nat) (eof_offset: nat) (eof_available: nat)
  | BadLength (claimed: nat) (bad_available: nat) (bad_offset: nat)
  | BadUtf8 (utf8_offset: nat)
  | OutputFull (full_wanted: nat)

record reader =
  rd_buf :: "u8 list"
  rd_pos :: nat

type_synonym ('e, 'a) rd = "reader \<Rightarrow> ('e + 'a) \<times> reader"

definition rd_return :: "'a \<Rightarrow> ('e, 'a) rd" where
  "rd_return a r = (Inr a, r)"

definition rd_fail :: "'e \<Rightarrow> ('e, 'a) rd" where
  "rd_fail e r = (Inl e, r)"

definition rd_bind :: "('e, 'a) rd \<Rightarrow> ('a \<Rightarrow> ('e, 'b) rd) \<Rightarrow> ('e, 'b) rd" where
  "rd_bind m f r = (case m r of (Inl e, r') \<Rightarrow> (Inl e, r') | (Inr a, r') \<Rightarrow> f a r')"

text \<open>The conversion \<open>?\<close> applies to the error, and \<open>map_err\<close> on a read.\<close>

definition rd_map_err :: "('e \<Rightarrow> reader \<Rightarrow> 'f) \<Rightarrow> ('e, 'a) rd \<Rightarrow> ('f, 'a) rd" where
  "rd_map_err g m r = (case m r of (Inl e, r') \<Rightarrow> (Inl (g e r'), r') | (Inr a, r') \<Rightarrow> (Inr a, r'))"

section \<open>\<open>Reader\<close>\<close>

definition reader_new :: "u8 list \<Rightarrow> reader" where
  "reader_new buf = \<lparr>rd_buf = buf, rd_pos = 0\<rparr>"

definition rd_position :: "reader \<Rightarrow> nat" where
  "rd_position r = rd_pos r"

definition rd_remaining :: "reader \<Rightarrow> nat" where
  "rd_remaining r = length (rd_buf r) - rd_pos r"

definition rd_is_empty :: "reader \<Rightarrow> bool" where
  "rd_is_empty r \<longleftrightarrow> rd_remaining r = 0"

definition rd_peek_rest :: "reader \<Rightarrow> u8 list" where
  "rd_peek_rest r = (if rd_pos r \<le> length (rd_buf r) then drop (rd_pos r) (rd_buf r) else [])"

definition rd_take :: "nat \<Rightarrow> (codec_error, u8 list) rd" where
  "rd_take n r =
     (let e = rd_pos r + n in
      if usize_max < e then (Inl (Eof n (rd_pos r) (rd_remaining r)), r)
      else if length (rd_buf r) < e then (Inl (Eof n (rd_pos r) (rd_remaining r)), r)
      else (Inr (take n (drop (rd_pos r) (rd_buf r))), r\<lparr>rd_pos := e\<rparr>))"

definition rd_bytes :: "nat \<Rightarrow> (codec_error, u8 list) rd" where
  "rd_bytes n = rd_take n"

definition rd_rest :: "reader \<Rightarrow> u8 list \<times> reader" where
  "rd_rest r = (rd_peek_rest r, r\<lparr>rd_pos := length (rd_buf r)\<rparr>)"

definition rd_skip :: "nat \<Rightarrow> (codec_error, unit) rd" where
  "rd_skip n = rd_bind (rd_take n) (\<lambda>_. rd_return ())"

definition rd_u8 :: "(codec_error, u8) rd" where
  "rd_u8 = rd_bind (rd_take 1)
     (\<lambda>b r. case b of x # _ \<Rightarrow> (Inr x, r) | [] \<Rightarrow> (Inl (Eof 1 (rd_pos r) 0), r))"

text \<open>An \<open>i8\<close> has the bits of the byte; \<open>sint\<close> reads it.\<close>

definition rd_i8 :: "(codec_error, int) rd" where
  "rd_i8 = rd_bind rd_u8 (\<lambda>b. rd_return (sint b))"

text \<open>A zero-initialised array of \<open>n\<close> bytes filled from a slice.\<close>

definition arr :: "nat \<Rightarrow> u8 list \<Rightarrow> u8 list" where
  "arr n b = map (\<lambda>i. if i < length b then b ! i else 0) [0..<n]"

definition rd_u16_le :: "(codec_error, u16) rd" where
  "rd_u16_le = rd_bind (rd_take 2) (\<lambda>b. rd_return (from_le (arr 2 b)))"

definition rd_u16_be :: "(codec_error, u16) rd" where
  "rd_u16_be = rd_bind (rd_take 2) (\<lambda>b. rd_return (from_be (arr 2 b)))"

definition rd_u24_le :: "(codec_error, u32) rd" where
  "rd_u24_le = rd_bind (rd_take 3) (\<lambda>b. rd_return (from_le (arr 3 b @ [0])))"

definition rd_u32_le :: "(codec_error, u32) rd" where
  "rd_u32_le = rd_bind (rd_take 4) (\<lambda>b. rd_return (from_le (arr 4 b)))"

definition rd_u32_be :: "(codec_error, u32) rd" where
  "rd_u32_be = rd_bind (rd_take 4) (\<lambda>b. rd_return (from_be (arr 4 b)))"

definition rd_u64_le :: "(codec_error, u64) rd" where
  "rd_u64_le = rd_bind (rd_take 8) (\<lambda>b. rd_return (from_le (arr 8 b)))"

definition rd_ieee_le :: "(codec_error, ieee) rd" where
  "rd_ieee_le = rd_bind rd_u64_le (\<lambda>x. rd_return (Ieee x))"

definition rd_octstr :: "(codec_error, u8 list option) rd" where
  "rd_octstr r0 =
     rd_bind rd_u8
       (\<lambda>len r.
          if len = 0xff then rd_return None r
          else if rd_remaining r < unat len
          then (Inl (BadLength (unat len) (rd_remaining r) (rd_pos r0)), r)
          else rd_bind (rd_take (unat len)) (\<lambda>b. rd_return (Some b)) r) r0"

definition rd_string :: "(codec_error, string option) rd" where
  "rd_string r0 =
     rd_bind rd_octstr
       (\<lambda>v. case v of
          None \<Rightarrow> rd_return None
        | Some raw \<Rightarrow>
            (case from_utf8 raw of
               Some s \<Rightarrow> rd_return (Some s)
             | None \<Rightarrow> rd_fail (BadUtf8 (rd_pos r0)))) r0"

section \<open>\<open>Writer\<close>\<close>

record writer =
  w_buf :: "u8 list"

definition writer_new :: writer where
  "writer_new = \<lparr>w_buf = []\<rparr>"

definition w_len :: "writer \<Rightarrow> nat" where
  "w_len w = length (w_buf w)"

definition w_is_empty :: "writer \<Rightarrow> bool" where
  "w_is_empty w \<longleftrightarrow> w_buf w = []"

definition w_bytes :: "u8 list \<Rightarrow> writer \<Rightarrow> writer" where
  "w_bytes v w = w\<lparr>w_buf := w_buf w @ v\<rparr>"

definition w_u8 :: "u8 \<Rightarrow> writer \<Rightarrow> writer" where
  "w_u8 v w = w\<lparr>w_buf := w_buf w @ [v]\<rparr>"

definition w_i8 :: "int \<Rightarrow> writer \<Rightarrow> writer" where
  "w_i8 v w = w\<lparr>w_buf := w_buf w @ [of_int v]\<rparr>"

definition w_u16_le :: "u16 \<Rightarrow> writer \<Rightarrow> writer" where
  "w_u16_le v w = w\<lparr>w_buf := w_buf w @ le_bytes 2 v\<rparr>"

definition w_u16_be :: "u16 \<Rightarrow> writer \<Rightarrow> writer" where
  "w_u16_be v w = w\<lparr>w_buf := w_buf w @ be_bytes 2 v\<rparr>"

definition w_u24_le :: "u32 \<Rightarrow> writer \<Rightarrow> writer" where
  "w_u24_le v w = w\<lparr>w_buf := w_buf w @ take 3 (le_bytes 4 v)\<rparr>"

definition w_u32_le :: "u32 \<Rightarrow> writer \<Rightarrow> writer" where
  "w_u32_le v w = w\<lparr>w_buf := w_buf w @ le_bytes 4 v\<rparr>"

definition w_u32_be :: "u32 \<Rightarrow> writer \<Rightarrow> writer" where
  "w_u32_be v w = w\<lparr>w_buf := w_buf w @ be_bytes 4 v\<rparr>"

definition w_u64_le :: "u64 \<Rightarrow> writer \<Rightarrow> writer" where
  "w_u64_le v w = w\<lparr>w_buf := w_buf w @ le_bytes 8 v\<rparr>"

definition w_ieee_le :: "ieee \<Rightarrow> writer \<Rightarrow> writer" where
  "w_ieee_le v w = w\<lparr>w_buf := w_buf w @ ieee_to_le_bytes v\<rparr>"

text \<open>A failed string write leaves the writer alone, so the result carries the new one.\<close>

definition w_octstr :: "u8 list option \<Rightarrow> writer \<Rightarrow> codec_error + writer" where
  "w_octstr v w =
     (case v of
        None \<Rightarrow> Inr (w\<lparr>w_buf := w_buf w @ [0xff]\<rparr>)
      | Some raw \<Rightarrow>
          if 255 < length raw then Inl (OutputFull (length raw))
          else let len = of_nat (length raw) :: u8 in
            if len = 0xff then Inl (OutputFull (length raw))
            else Inr (w\<lparr>w_buf := w_buf w @ len # raw\<rparr>))"

section \<open>The cursor in canonical form\<close>

text \<open>
  \<open>rd_at pre rest\<close> is a cursor that has consumed \<open>pre\<close> and has \<open>rest\<close> before it. Every
  cursor inside its buffer has this form, and every law below is stated on it. A slice never
  holds more than \<open>usize_max\<close> bytes, which \<open>rd_fits\<close> records.
\<close>

definition rd_at :: "u8 list \<Rightarrow> u8 list \<Rightarrow> reader" where
  "rd_at pre rest = \<lparr>rd_buf = pre @ rest, rd_pos = length pre\<rparr>"

definition rd_fits :: "u8 list \<Rightarrow> u8 list \<Rightarrow> bool" where
  "rd_fits pre rest \<longleftrightarrow> length pre + length rest \<le> usize_max"

definition rd_ok :: "reader \<Rightarrow> bool" where
  "rd_ok r \<longleftrightarrow> rd_pos r \<le> length (rd_buf r) \<and> length (rd_buf r) \<le> usize_max"

lemma reader_new_at [wire_simps]: "reader_new buf = rd_at [] buf"
  by (simp add: reader_new_def rd_at_def)

lemma rd_ok_at: "rd_ok (rd_at pre rest) \<longleftrightarrow> rd_fits pre rest"
  by (simp add: rd_ok_def rd_at_def rd_fits_def)

lemma rd_ok_cases:
  assumes "rd_ok r"
  obtains pre rest where "r = rd_at pre rest" "rd_fits pre rest"
proof
  show "r = rd_at (take (rd_pos r) (rd_buf r)) (drop (rd_pos r) (rd_buf r))"
    using assms by (cases r) (simp add: rd_at_def rd_ok_def)
  show "rd_fits (take (rd_pos r) (rd_buf r)) (drop (rd_pos r) (rd_buf r))"
    using assms by (simp add: rd_fits_def rd_ok_def)
qed

lemma rd_fits_move [simp]: "rd_fits (pre @ xs) rest \<longleftrightarrow> rd_fits pre (xs @ rest)"
  by (simp add: rd_fits_def add.assoc)

lemma rd_fits_append_leftD: "rd_fits pre (xs @ rest) \<Longrightarrow> rd_fits pre xs"
  by (simp add: rd_fits_def)

lemma rd_bind_Inr: "m r = (Inr a, r') \<Longrightarrow> rd_bind m f r = f a r'"
  by (simp add: rd_bind_def)

lemma rd_bind_Inl: "m r = (Inl e, r') \<Longrightarrow> rd_bind m f r = (Inl e, r')"
  by (simp add: rd_bind_def)

lemma rd_bind_eq_Inr:
  "rd_bind m f r = (Inr b, r') \<longleftrightarrow> (\<exists>a r1. m r = (Inr a, r1) \<and> f a r1 = (Inr b, r'))"
  by (auto simp: rd_bind_def split: prod.splits sum.splits)

lemma rd_return_simp [simp, wire_simps]: "rd_return a r = (Inr a, r)"
  by (simp add: rd_return_def)

lemma rd_fail_simp [simp, wire_simps]: "rd_fail e r = (Inl e, r)"
  by (simp add: rd_fail_def)

lemma rd_map_err_Inr: "m r = (Inr a, r') \<Longrightarrow> rd_map_err g m r = (Inr a, r')"
  by (simp add: rd_map_err_def)

lemma rd_map_err_Inl: "m r = (Inl e, r') \<Longrightarrow> rd_map_err g m r = (Inl (g e r'), r')"
  by (simp add: rd_map_err_def)

lemma rd_map_err_eq_Inr [simp]: "rd_map_err g m r = (Inr a, r') \<longleftrightarrow> m r = (Inr a, r')"
  by (auto simp: rd_map_err_def split: prod.splits sum.splits)

lemma rd_remaining_at [wire_simps]: "rd_remaining (rd_at pre rest) = length rest"
  by (simp add: rd_remaining_def rd_at_def)

lemma rd_is_empty_at [wire_simps]: "rd_is_empty (rd_at pre rest) \<longleftrightarrow> rest = []"
  by (simp add: rd_is_empty_def rd_remaining_at)

lemma rd_peek_rest_at [wire_simps]: "rd_peek_rest (rd_at pre rest) = rest"
  by (simp add: rd_peek_rest_def rd_at_def)

lemma rd_rest_at [wire_simps]: "rd_rest (rd_at pre rest) = (rest, rd_at (pre @ rest) [])"
  by (simp add: rd_rest_def rd_peek_rest_def rd_at_def)

lemma rd_pos_at [wire_simps]: "rd_pos (rd_at pre rest) = length pre"
  by (simp add: rd_at_def)

lemma rd_take_at:
  assumes "rd_fits pre rest"
  shows "rd_take n (rd_at pre rest) =
    (if n \<le> length rest then (Inr (take n rest), rd_at (pre @ take n rest) (drop n rest))
     else (Inl (Eof n (length pre) (length rest)), rd_at pre rest))"
  using assms by (auto simp: rd_take_def rd_at_def rd_fits_def rd_remaining_def Let_def)

lemma rd_take_append [wire_simps]:
  "rd_fits pre (xs @ rest) \<Longrightarrow> n = length xs \<Longrightarrow>
     rd_take n (rd_at pre (xs @ rest)) = (Inr xs, rd_at (pre @ xs) rest)"
  by (simp add: rd_take_at)

lemma arr_id [simp]: "n = length b \<Longrightarrow> arr n b = b"
  by (auto simp: arr_def intro!: nth_equalityI)

text \<open>The shape every fixed-width read has.\<close>

lemma rd_fixed_at:
  assumes "rd_fits pre rest"
  shows "rd_bind (rd_take n) (\<lambda>b. rd_return (f (arr n b))) (rd_at pre rest) =
    (if n \<le> length rest then (Inr (f (take n rest)), rd_at (pre @ take n rest) (drop n rest))
     else (Inl (Eof n (length pre) (length rest)), rd_at pre rest))"
  by (simp add: rd_bind_def rd_take_at [OF assms])

lemma rd_u8_at:
  assumes "rd_fits pre rest"
  shows "rd_u8 (rd_at pre rest) =
    (case rest of b # bs \<Rightarrow> (Inr b, rd_at (pre @ [b]) bs)
     | [] \<Rightarrow> (Inl (Eof 1 (length pre) 0), rd_at pre []))"
  using assms by (cases rest) (auto simp: rd_u8_def rd_bind_def rd_take_at)

lemma rd_u8_Cons [wire_simps]:
  "rd_fits pre (b # bs) \<Longrightarrow> rd_u8 (rd_at pre (b # bs)) = (Inr b, rd_at (pre @ [b]) bs)"
  by (simp add: rd_u8_at)

section \<open>The contract of a fixed-width field\<close>

text \<open>
  \<open>enc a\<close> is the field's wire form. The writer appends it; the reader, on a buffer that
  continues with it, returns the value and stops right after it; on a buffer too short it
  fails without moving; and on any other buffer it returns the value whose wire form is there.
\<close>

locale wire_field =
  fixes width :: nat
    and enc :: "'a \<Rightarrow> u8 list"
    and put :: "'a \<Rightarrow> writer \<Rightarrow> writer"
    and get :: "(codec_error, 'a) rd"
    and fits_field :: "'a \<Rightarrow> bool"
  assumes put_enc: "w_buf (put a w) = w_buf w @ enc a"
    and len_enc: "length (enc a) = width"
    and get_enc: "fits_field a \<Longrightarrow> rd_fits pre (enc a @ rest)
        \<Longrightarrow> get (rd_at pre (enc a @ rest)) = (Inr a, rd_at (pre @ enc a) rest)"
    and get_short: "length rest < width \<Longrightarrow> rd_fits pre rest
        \<Longrightarrow> get (rd_at pre rest) = (Inl (Eof width (length pre) (length rest)), rd_at pre rest)"
    and get_surj: "length bs = width \<Longrightarrow> \<exists>a. fits_field a \<and> enc a = bs"
begin

lemma put_eq: "put a w = w\<lparr>w_buf := w_buf w @ enc a\<rparr>"
  using put_enc [of a w] by (cases "put a w"; cases w) simp

lemma get_long:
  assumes "width \<le> length rest" "rd_fits pre rest"
  shows "\<exists>a. fits_field a \<and> enc a = take width rest
    \<and> get (rd_at pre rest) = (Inr a, rd_at (pre @ take width rest) (drop width rest))"
proof -
  from assms(1) obtain a where a: "fits_field a" "enc a = take width rest"
    using get_surj [of "take width rest"] by auto
  have "get (rd_at pre (enc a @ drop width rest)) = (Inr a, rd_at (pre @ enc a) (drop width rest))"
    by (rule get_enc) (use a assms(2) in \<open>simp_all add: a(2)\<close>)
  with a show ?thesis by auto
qed

text \<open>Reading succeeds exactly when the bytes are there, and moves exactly past them.\<close>

lemma get_Inr_iff:
  assumes "rd_fits pre rest"
  shows "get (rd_at pre rest) = (Inr a, r')
    \<longleftrightarrow> (\<exists>tail. rest = enc a @ tail \<and> r' = rd_at (pre @ enc a) tail \<and> fits_field a)"
    (is "?L \<longleftrightarrow> ?R")
proof
  assume L: ?L
  then have "width \<le> length rest" using get_short [of rest pre] assms by force
  from get_long [OF this assms] L show ?R
    by (auto intro!: exI [of _ "drop width rest"])
next
  assume ?R
  then show ?L using get_enc assms by auto
qed

lemma enc_inj:
  assumes "fits_field a" "fits_field b" "enc a = enc b" "width \<le> usize_max"
  shows "a = b"
proof -
  have "rd_fits [] (enc a @ [])" using assms(4) by (simp add: rd_fits_def len_enc)
  then have "get (rd_at [] (enc a @ [])) = (Inr a, rd_at ([] @ enc a) [])"
    and "get (rd_at [] (enc b @ [])) = (Inr b, rd_at ([] @ enc b) [])"
    using assms get_enc by (metis, metis)
  then show ?thesis using assms(3) by simp
qed

end

text \<open>Sequences of one field: a loop of writes against a counted loop of reads.\<close>

primrec rd_times :: "nat \<Rightarrow> ('e, 'a) rd \<Rightarrow> ('e, 'a list) rd" where
  "rd_times 0 m = rd_return []"
| "rd_times (Suc n) m = rd_bind m (\<lambda>a. rd_bind (rd_times n m) (\<lambda>as. rd_return (a # as)))"

context wire_field begin

lemma fold_put: "w_buf (fold put xs w) = w_buf w @ concat (map enc xs)"
  by (induction xs arbitrary: w) (auto simp: put_enc)

lemma rd_times_enc:
  "\<forall>a \<in> set xs. fits_field a \<Longrightarrow> rd_fits pre (concat (map enc xs) @ rest)
   \<Longrightarrow> rd_times (length xs) get (rd_at pre (concat (map enc xs) @ rest))
     = (Inr xs, rd_at (pre @ concat (map enc xs)) rest)"
  by (induction xs arbitrary: pre) (auto simp: rd_bind_def get_enc)

lemma rd_times_Inr_iff:
  assumes "rd_fits pre rest"
  shows "rd_times n get (rd_at pre rest) = (Inr xs, r')
    \<longleftrightarrow> length xs = n \<and> (\<forall>a \<in> set xs. fits_field a)
      \<and> (\<exists>tail. rest = concat (map enc xs) @ tail \<and> r' = rd_at (pre @ concat (map enc xs)) tail)"
  using assms
proof (induction n arbitrary: pre rest xs)
  case 0
  then show ?case by (auto simp: rd_at_def)
next
  case (Suc n)
  have "rd_times (Suc n) get (rd_at pre rest) = (Inr xs, r')
    \<longleftrightarrow> (\<exists>a as tail. xs = a # as \<and> fits_field a \<and> rest = enc a @ tail
      \<and> rd_times n get (rd_at (pre @ enc a) tail) = (Inr as, r'))"
    by (auto simp: rd_bind_eq_Inr get_Inr_iff [OF Suc.prems])
  also have "\<dots> \<longleftrightarrow> (\<exists>a as tail. xs = a # as \<and> fits_field a \<and> rest = enc a @ tail
      \<and> length as = n \<and> (\<forall>a \<in> set as. fits_field a)
      \<and> (\<exists>t. tail = concat (map enc as) @ t \<and> r' = rd_at ((pre @ enc a) @ concat (map enc as)) t))"
    using Suc by (metis rd_fits_move)
  also have "\<dots> \<longleftrightarrow> length xs = Suc n \<and> (\<forall>a \<in> set xs. fits_field a)
      \<and> (\<exists>tail. rest = concat (map enc xs) @ tail \<and> r' = rd_at (pre @ concat (map enc xs)) tail)"
    by (cases xs) auto
  finally show ?case .
qed

end

section \<open>The fields satisfy the contract\<close>

lemma word_field_le:
  fixes put :: "'a::len word \<Rightarrow> writer \<Rightarrow> writer"
  assumes put: "\<And>a w. w_buf (put a w) = w_buf w @ le_bytes n a"
    and get: "get = rd_bind (rd_take n) (\<lambda>b. rd_return (from_le (arr n b)))"
    and len: "LENGTH('a) = 8 * n"
  shows "wire_field n (le_bytes n) put get (\<lambda>_. True)"
proof
  fix bs :: "u8 list" assume "length bs = n"
  then have "le_bytes n (from_le bs :: 'a word) = bs"
    using le_bytes_from_le [where 'a = 'a, of bs] len by simp
  then show "\<exists>a :: 'a word. True \<and> le_bytes n a = bs" by blast
qed (simp_all add: put get rd_fixed_at from_le_le_bytes len)

lemma word_field_be:
  fixes put :: "'a::len word \<Rightarrow> writer \<Rightarrow> writer"
  assumes put: "\<And>a w. w_buf (put a w) = w_buf w @ be_bytes n a"
    and get: "get = rd_bind (rd_take n) (\<lambda>b. rd_return (from_be (arr n b)))"
    and len: "LENGTH('a) = 8 * n"
  shows "wire_field n (be_bytes n) put get (\<lambda>_. True)"
proof
  fix bs :: "u8 list" assume "length bs = n"
  then have "be_bytes n (from_be bs :: 'a word) = bs"
    using be_bytes_from_be [where 'a = 'a, of bs] len by simp
  then show "\<exists>a :: 'a word. True \<and> be_bytes n a = bs" by blast
qed (simp_all add: put get rd_fixed_at from_be_be_bytes len)

interpretation f_u8: wire_field 1 "\<lambda>b. [b]" w_u8 rd_u8 "\<lambda>_. True"
proof
  fix bs :: "u8 list" assume "length bs = 1"
  then show "\<exists>a. True \<and> [a] = bs" by (cases bs) auto
qed (simp_all add: w_u8_def rd_u8_at)

interpretation f_u16_le: wire_field 2 "le_bytes 2" w_u16_le rd_u16_le "\<lambda>_. True"
  by (rule word_field_le) (simp_all add: w_u16_le_def rd_u16_le_def)

interpretation f_u16_be: wire_field 2 "be_bytes 2" w_u16_be rd_u16_be "\<lambda>_. True"
  by (rule word_field_be) (simp_all add: w_u16_be_def rd_u16_be_def)

interpretation f_u32_le: wire_field 4 "le_bytes 4" w_u32_le rd_u32_le "\<lambda>_. True"
  by (rule word_field_le) (simp_all add: w_u32_le_def rd_u32_le_def)

interpretation f_u32_be: wire_field 4 "be_bytes 4" w_u32_be rd_u32_be "\<lambda>_. True"
  by (rule word_field_be) (simp_all add: w_u32_be_def rd_u32_be_def)

interpretation f_u64_le: wire_field 8 "le_bytes 8" w_u64_le rd_u64_le "\<lambda>_. True"
  by (rule word_field_le) (simp_all add: w_u64_le_def rd_u64_le_def)

interpretation f_ieee_le: wire_field 8 ieee_to_le_bytes w_ieee_le rd_ieee_le "\<lambda>_. True"
proof
  fix a :: ieee and pre rest
  assume "rd_fits pre (ieee_to_le_bytes a @ rest)"
  then show "rd_ieee_le (rd_at pre (ieee_to_le_bytes a @ rest))
      = (Inr a, rd_at (pre @ ieee_to_le_bytes a) rest)"
    using f_u64_le.get_enc [where a = "ieee_raw a" and pre = pre and rest = rest]
    by (simp add: rd_ieee_le_def rd_bind_def ieee_to_le_bytes_def)
next
  fix pre rest assume "length rest < 8" "rd_fits pre rest"
  then show "rd_ieee_le (rd_at pre rest)
      = (Inl (Eof 8 (length pre) (length rest)), rd_at pre rest)"
    using f_u64_le.get_short [where pre = pre and rest = rest] by (simp add: rd_ieee_le_def rd_bind_def)
next
  fix bs :: "u8 list" assume "length bs = 8"
  then obtain x where "le_bytes 8 (x :: u64) = bs" using f_u64_le.get_surj by blast
  then show "\<exists>a. True \<and> ieee_to_le_bytes a = bs"
    by (intro exI [of _ "Ieee x"]) (simp add: ieee_to_le_bytes_def)
qed (simp_all add: w_ieee_le_def ieee_to_le_bytes_def)

text \<open>
  A 24-bit field drops the top byte of its \<open>u32\<close>, so it carries values below \<open>2^24\<close>.
\<close>

definition fits_u24 :: "u32 \<Rightarrow> bool" where
  "fits_u24 v \<longleftrightarrow> unat v < 2 ^ 24"

lemma nat_le_4:
  "nat_le 4 x = [of_nat (x mod 256), of_nat (x div 256 mod 256), of_nat (x div 65536 mod 256),
     of_nat (x div 16777216 mod 256)]"
proof -
  have "nat_le (Suc (Suc (Suc (Suc 0)))) x =
    [of_nat (x mod 256), of_nat (x div 256 mod 256), of_nat (x div 65536 mod 256),
     of_nat (x div 16777216 mod 256)]"
    by (simp flip: div_mult2_eq)
  moreover have "Suc (Suc (Suc (Suc 0))) = 4" by simp
  ultimately show ?thesis by simp
qed

lemma le_bytes_u24: "fits_u24 v \<Longrightarrow> take 3 (le_bytes 4 v) @ [0] = le_bytes 4 v"
  by (simp add: fits_u24_def le_bytes_def nat_le_4)

lemma rd_u24_le_at:
  assumes "rd_fits pre rest"
  shows "rd_u24_le (rd_at pre rest) =
    (if 3 \<le> length rest
     then (Inr (from_le (take 3 rest @ [0])), rd_at (pre @ take 3 rest) (drop 3 rest))
     else (Inl (Eof 3 (length pre) (length rest)), rd_at pre rest))"
  by (simp add: rd_u24_le_def rd_bind_def rd_take_at [OF assms])

interpretation f_u24_le: wire_field 3 "\<lambda>v. take 3 (le_bytes 4 v)" w_u24_le rd_u24_le fits_u24
proof
  fix a :: u32 and pre rest
  assume "fits_u24 a" "rd_fits pre (take 3 (le_bytes 4 a) @ rest)"
  then show "rd_u24_le (rd_at pre (take 3 (le_bytes 4 a) @ rest))
      = (Inr a, rd_at (pre @ take 3 (le_bytes 4 a)) rest)"
    by (simp add: rd_u24_le_at le_bytes_u24 from_le_le_bytes)
next
  fix bs :: "u8 list" assume bs: "length bs = 3"
  define v :: u32 where "v = from_le (bs @ [0])"
  have "unat v = le_nat bs"
    using unat_from_le [where 'a = 32, of "bs @ [0]"] bs by (simp add: v_def le_nat_append)
  moreover have "le_nat bs < 2 ^ 24" using le_nat_bound [of bs] bs by simp
  moreover have "le_bytes 4 v = bs @ [0]"
    using le_bytes_from_le [where 'a = 32, of "bs @ [0]"] bs by (simp add: v_def)
  ultimately show "\<exists>a. fits_u24 a \<and> take 3 (le_bytes 4 a) = bs"
    using bs by (intro exI [of _ v]) (simp add: fits_u24_def)
qed (simp_all add: w_u24_le_def rd_u24_le_at)

lemmas field_reads [wire_simps] =
  f_u16_le.get_enc [OF TrueI] f_u16_be.get_enc [OF TrueI] f_u32_le.get_enc [OF TrueI]
  f_u32_be.get_enc [OF TrueI] f_u64_le.get_enc [OF TrueI] f_ieee_le.get_enc [OF TrueI]
  f_u24_le.get_enc

lemmas field_writes [wire_simps] =
  f_u8.put_enc f_u16_le.put_enc f_u16_be.put_enc f_u32_le.put_enc f_u32_be.put_enc
  f_u64_le.put_enc f_ieee_le.put_enc f_u24_le.put_enc

lemma w_bytes_buf [wire_simps]: "w_buf (w_bytes v w) = w_buf w @ v"
  by (simp add: w_bytes_def)

lemma writer_new_buf [wire_simps]: "w_buf writer_new = []"
  by (simp add: writer_new_def)

section \<open>Safety of reads\<close>

text \<open>
  A read is safe when, from a cursor inside its buffer, it leaves the buffer alone and the
  cursor inside it, never moving backwards, whatever the bytes are and whether it succeeds
  or fails. Sequencing keeps safety, so a decoder built of safe reads is safe.
\<close>

named_theorems safe_intros \<open>the reads that keep the cursor inside its buffer\<close>

definition rd_safe :: "('e, 'a) rd \<Rightarrow> bool" where
  "rd_safe m \<longleftrightarrow> (\<forall>r. rd_ok r \<longrightarrow>
     (let r' = snd (m r) in rd_ok r' \<and> rd_buf r' = rd_buf r \<and> rd_pos r \<le> rd_pos r'))"

lemma rd_safeI:
  assumes "\<And>r. rd_ok r \<Longrightarrow> rd_ok (snd (m r)) \<and> rd_buf (snd (m r)) = rd_buf r \<and> rd_pos r \<le> rd_pos (snd (m r))"
  shows "rd_safe m"
  using assms by (simp add: rd_safe_def Let_def)

lemma rd_safeD:
  assumes "rd_safe m" "rd_ok r"
  shows "rd_ok (snd (m r))" "rd_buf (snd (m r)) = rd_buf r" "rd_pos r \<le> rd_pos (snd (m r))"
  using assms by (auto simp: rd_safe_def Let_def)

lemma rd_safe_return [safe_intros]: "rd_safe (rd_return a)"
  by (simp add: rd_safe_def)

lemma rd_safe_fail [safe_intros]: "rd_safe (rd_fail e)"
  by (simp add: rd_safe_def)

lemma rd_safe_bind [safe_intros]:
  assumes "rd_safe m" "\<And>a. rd_safe (f a)"
  shows "rd_safe (rd_bind m f)"
proof (rule rd_safeI)
  fix r assume ok: "rd_ok r"
  note m = rd_safeD [OF assms(1) ok]
  show "rd_ok (snd (rd_bind m f r)) \<and> rd_buf (snd (rd_bind m f r)) = rd_buf r
      \<and> rd_pos r \<le> rd_pos (snd (rd_bind m f r))"
  proof (cases "m r")
    case (Pair v r1)
    with m have 1: "rd_ok r1" "rd_buf r1 = rd_buf r" "rd_pos r \<le> rd_pos r1" by simp_all
    show ?thesis
    proof (cases v)
      case (Inl e)
      with Pair 1 show ?thesis by (simp add: rd_bind_def)
    next
      case (Inr a)
      from rd_safeD [OF assms(2) 1(1), of a] Pair Inr 1 show ?thesis by (simp add: rd_bind_def)
    qed
  qed
qed

lemma snd_rd_map_err: "snd (rd_map_err g m r) = snd (m r)"
  by (simp add: rd_map_err_def split: prod.splits sum.splits)

lemma rd_safe_map_err [safe_intros]: "rd_safe m \<Longrightarrow> rd_safe (rd_map_err g m)"
  by (simp add: rd_safe_def snd_rd_map_err)

lemma rd_safe_take [safe_intros]: "rd_safe (rd_take n)"
  by (rule rd_safeI) (auto simp: rd_take_def rd_ok_def Let_def)

lemma rd_safe_times [safe_intros]: "rd_safe m \<Longrightarrow> rd_safe (rd_times n m)"
  by (induction n) (auto intro!: safe_intros)

lemma rd_safe_u8 [safe_intros]: "rd_safe rd_u8"
  unfolding rd_u8_def
  by (intro rd_safe_bind rd_safe_take) (simp add: rd_safe_def split: list.splits)

lemma rd_safe_fixed [safe_intros]:
  "rd_safe (rd_bytes n)" "rd_safe (rd_skip n)" "rd_safe rd_i8" "rd_safe rd_u16_le"
  "rd_safe rd_u16_be" "rd_safe rd_u24_le" "rd_safe rd_u32_le" "rd_safe rd_u32_be"
  "rd_safe rd_u64_le" "rd_safe rd_ieee_le"
  unfolding rd_bytes_def rd_skip_def rd_i8_def rd_u16_le_def rd_u16_be_def rd_u24_le_def
    rd_u32_le_def rd_u32_be_def rd_ieee_le_def rd_u64_le_def
  by (intro safe_intros)+

text \<open>A read that looks at the cursor it started from is safe when each of its starts is.\<close>

lemma rd_safe_at:
  "(\<And>r. m r = g r r) \<Longrightarrow> (\<And>r0. rd_safe (g r0)) \<Longrightarrow> rd_safe m"
  by (simp add: rd_safe_def)

lemma rd_safe_choice:
  "rd_safe (\<lambda>r. if p r then m r else n r)" if "rd_safe m" "rd_safe n"
  using that by (simp add: rd_safe_def)

lemma rd_safe_err_at: "rd_safe (\<lambda>r. (Inl (e r), r))"
  by (simp add: rd_safe_def)

lemma rd_safe_octstr [safe_intros]: "rd_safe rd_octstr"
proof (rule rd_safe_at [where g = "\<lambda>r0. rd_bind rd_u8
       (\<lambda>len r.
          if len = 0xff then rd_return None r
          else if rd_remaining r < unat len
          then (Inl (BadLength (unat len) (rd_remaining r) (rd_pos r0)), r)
          else rd_bind (rd_take (unat len)) (\<lambda>b. rd_return (Some b)) r)"])
qed (intro safe_intros rd_safe_choice rd_safe_err_at | rule rd_octstr_def)+

lemma rd_safe_string [safe_intros]: "rd_safe rd_string"
proof (rule rd_safe_at [where g = "\<lambda>r0. rd_bind rd_octstr
       (\<lambda>v. case v of
          None \<Rightarrow> rd_return None
        | Some raw \<Rightarrow>
            (case from_utf8 raw of
               Some s \<Rightarrow> rd_return (Some s)
             | None \<Rightarrow> rd_fail (BadUtf8 (rd_pos r0))))"])
qed (rule rd_string_def, auto intro!: safe_intros split: option.splits)

lemma rd_take_remaining: "rd_take n r = (Inr b, r') \<Longrightarrow> rd_remaining r' + n = rd_remaining r"
  by (auto simp: rd_take_def rd_remaining_def Let_def split: if_splits)

section \<open>Length-prefixed strings\<close>

lemma rd_octstr_None [wire_simps]:
  "rd_fits pre (0xff # rest) \<Longrightarrow>
     rd_octstr (rd_at pre (0xff # rest)) = (Inr None, rd_at (pre @ [0xff]) rest)"
  by (simp add: rd_octstr_def rd_bind_def wire_simps)

lemma rd_octstr_Some [wire_simps]:
  assumes "rd_fits pre (of_nat (length raw) # raw @ rest)" "length raw < 255"
  shows "rd_octstr (rd_at pre (of_nat (length raw) # raw @ rest))
    = (Inr (Some raw), rd_at (pre @ of_nat (length raw) # raw) rest)"
proof -
  have u: "unat (of_nat (length raw) :: u8) = length raw"
    using assms(2) by (simp add: unat_of_nat)
  moreover have "(of_nat (length raw) :: u8) \<noteq> 0xff"
  proof
    assume "(of_nat (length raw) :: u8) = 0xff"
    then have "unat (of_nat (length raw) :: u8) = 255" by simp
    with u assms(2) show False by simp
  qed
  ultimately show ?thesis using assms(1)
    by (simp add: rd_octstr_def rd_bind_def wire_simps)
qed

end
