(* ===== verification/Zcl_Types.thy ===== *)
theory Zcl_Types
  imports Codec
begin

text \<open>
  ZCL data types and dynamically typed values, \<open>rszigbee-spec/src/zcl/types.rs\<close>. A value of
  an \<open>i64\<close> is kept as its 64 bits (\<open>sint\<close> reads it) and an \<open>f32\<close> as its 32 bits, which is
  how the code moves them to and from the wire.
\<close>

section \<open>Types\<close>

datatype zcl_type =
    NoData
  | Data u8
  | TBool
  | TBitmap u8
  | TUint u8
  | TInt u8
  | Enum8
  | Enum16
  | TSingle
  | OctStr
  | CharStr
  | Time u8
  | TClusterId
  | TAttrId
  | TIeee
  | TKey128
  | Unk
  | Unknown u8

definition zt_from_u8 :: "u8 \<Rightarrow> zcl_type" where
  "zt_from_u8 b =
     (if b = 0x00 then NoData
      else if 0x08 \<le> b \<and> b \<le> 0x0f then Data (b - 0x08 + 1)
      else if b = 0x10 then TBool
      else if 0x18 \<le> b \<and> b \<le> 0x1f then TBitmap (b - 0x18 + 1)
      else if 0x20 \<le> b \<and> b \<le> 0x27 then TUint (b - 0x20 + 1)
      else if 0x28 \<le> b \<and> b \<le> 0x2f then TInt (b - 0x28 + 1)
      else if b = 0x30 then Enum8
      else if b = 0x31 then Enum16
      else if b = 0x39 then TSingle
      else if b = 0x41 then OctStr
      else if b = 0x42 then CharStr
      else if 0xe0 \<le> b \<and> b \<le> 0xe2 then Time (b - 0xe0)
      else if b = 0xe8 then TClusterId
      else if b = 0xe9 then TAttrId
      else if b = 0xf0 then TIeee
      else if b = 0xf1 then TKey128
      else if b = 0xff then Unk
      else Unknown b)"

primrec zt_to_u8 :: "zcl_type \<Rightarrow> u8" where
  "zt_to_u8 NoData = 0x00"
| "zt_to_u8 (Data n) = 0x08 + n - 1"
| "zt_to_u8 TBool = 0x10"
| "zt_to_u8 (TBitmap n) = 0x18 + n - 1"
| "zt_to_u8 (TUint n) = 0x20 + n - 1"
| "zt_to_u8 (TInt n) = 0x28 + n - 1"
| "zt_to_u8 Enum8 = 0x30"
| "zt_to_u8 Enum16 = 0x31"
| "zt_to_u8 TSingle = 0x39"
| "zt_to_u8 OctStr = 0x41"
| "zt_to_u8 CharStr = 0x42"
| "zt_to_u8 (Time n) = 0xe0 + n"
| "zt_to_u8 TClusterId = 0xe8"
| "zt_to_u8 TAttrId = 0xe9"
| "zt_to_u8 TIeee = 0xf0"
| "zt_to_u8 TKey128 = 0xf1"
| "zt_to_u8 Unk = 0xff"
| "zt_to_u8 (Unknown o') = o'"

primrec zt_fixed_size :: "zcl_type \<Rightarrow> nat option" where
  "zt_fixed_size NoData = Some 0"
| "zt_fixed_size Unk = Some 0"
| "zt_fixed_size TBool = Some 1"
| "zt_fixed_size Enum8 = Some 1"
| "zt_fixed_size Enum16 = Some 2"
| "zt_fixed_size TClusterId = Some 2"
| "zt_fixed_size TAttrId = Some 2"
| "zt_fixed_size TSingle = Some 4"
| "zt_fixed_size (Data n) = Some (unat n)"
| "zt_fixed_size (TBitmap n) = Some (unat n)"
| "zt_fixed_size (TUint n) = Some (unat n)"
| "zt_fixed_size (TInt n) = Some (unat n)"
| "zt_fixed_size (Time n) = (if n \<le> 2 then Some 4 else None)"
| "zt_fixed_size TIeee = Some 8"
| "zt_fixed_size TKey128 = Some 16"
| "zt_fixed_size OctStr = None"
| "zt_fixed_size CharStr = None"
| "zt_fixed_size (Unknown o') = None"

section \<open>Values\<close>

datatype zcl_value =
    VNone
  | VBool bool
  | VUint u64
  | VInt u64
  | VEnum u16
  | VBitmap u64
  | VSingle u32
  | VOctets "u8 list"
  | VStr string
  | VIeee ieee
  | VKey128 "u8 list"
  | VRaw u8 "u8 list"
  | VInvalid zcl_type

fun zv_as_uint :: "zcl_value \<Rightarrow> u64 option" where
  "zv_as_uint (VUint v) = Some v"
| "zv_as_uint (VBitmap v) = Some v"
| "zv_as_uint (VEnum v) = Some (ucast v)"
| "zv_as_uint (VBool b) = Some (if b then 1 else 0)"
| "zv_as_uint _ = None"

fun zv_as_int :: "zcl_value \<Rightarrow> int option" where
  "zv_as_int (VInt v) = Some (sint v)"
| "zv_as_int (VUint v) = Some (sint v)"
| "zv_as_int _ = None"

fun zv_is_invalid :: "zcl_value \<Rightarrow> bool" where
  "zv_is_invalid (VInvalid _) = True"
| "zv_is_invalid _ = False"

section \<open>Integers of one to eight octets\<close>

fun read_uint_loop :: "nat \<Rightarrow> u64 \<Rightarrow> u8 list \<Rightarrow> u64" where
  "read_uint_loop i acc [] = acc"
| "read_uint_loop i acc (b # bs) =
     read_uint_loop (Suc i) (if 8 * i < 64 then acc OR push_bit (8 * i) (ucast b) else acc) bs"

definition read_uint :: "u8 \<Rightarrow> (codec_error, u64) rd" where
  "read_uint n = rd_bind (rd_bytes (unat n)) (\<lambda>bytes. rd_return (read_uint_loop 0 0 bytes))"

definition write_uint_bytes :: "u64 \<Rightarrow> u8 \<Rightarrow> u8 list" where
  "write_uint_bytes v n =
     map (\<lambda>i. if 8 * i < 64 then ucast (drop_bit (8 * i) v AND 0xff) else 0) [0..<unat n]"

definition write_uint :: "u64 \<Rightarrow> u8 \<Rightarrow> writer \<Rightarrow> writer" where
  "write_uint v n w = w_bytes (write_uint_bytes v n) w"

definition write_invalid :: "zcl_type \<Rightarrow> writer \<Rightarrow> writer" where
  "write_invalid ty w =
     (case ty of
        TInt n \<Rightarrow> w_bytes (map (\<lambda>i. if i + 1 = unat n then 0x80 else 0x00) [0..<unat n]) w
      | TSingle \<Rightarrow> w_u32_le 0x7fc00000 w
      | OctStr \<Rightarrow> w_u8 0xff w
      | CharStr \<Rightarrow> w_u8 0xff w
      | other \<Rightarrow>
          w_bytes (replicate (case zt_fixed_size other of Some n \<Rightarrow> n | None \<Rightarrow> 1) 0xff) w)"

definition is_invalid_uint :: "u64 \<Rightarrow> u8 \<Rightarrow> bool" where
  "is_invalid_uint raw n \<longleftrightarrow>
     (if n = 1 then raw = 0xff
      else if n = 2 then raw = 0xffff
      else if n = 3 then raw = 0x00ffffff
      else if n = 4 then raw = 0xffffffff
      else False)"

definition is_invalid_int :: "u64 \<Rightarrow> u8 \<Rightarrow> bool" where
  "is_invalid_int raw n \<longleftrightarrow>
     (if n = 1 then raw = 0x80
      else if n = 2 then raw = 0x8000
      else if n = 4 then raw = 0x80000000
      else False)"

definition sign_extend :: "u64 \<Rightarrow> u8 \<Rightarrow> u64" where
  "sign_extend raw n =
     (let bits = unat n * 8 in
      if bits = 0 \<or> 64 \<le> bits then raw
      else let shift = 64 - bits in signed_drop_bit shift (push_bit shift raw))"

definition f32_is_nan :: "u32 \<Rightarrow> bool" where
  "f32_is_nan bits \<longleftrightarrow> 0x7f800000 < bits AND 0x7fffffff"

definition sanitise :: "string \<Rightarrow> string" where
  "sanitise s = str_of (filter (\<lambda>c. \<not> is_control c) (chars s))"

section \<open>Decoding and encoding one value\<close>

primrec decode_value :: "zcl_type \<Rightarrow> (codec_error, zcl_value) rd" where
  "decode_value NoData = rd_return VNone"
| "decode_value Unk = rd_return VNone"
| "decode_value TBool = rd_bind rd_u8 (\<lambda>b. rd_return
     (if b = 0x00 then VBool False else if b = 0xff then VInvalid TBool else VBool True))"
| "decode_value (TUint n) = rd_bind (read_uint n) (\<lambda>raw. rd_return
     (if zt_fixed_size (TUint n) \<noteq> None \<and> is_invalid_uint raw n then VInvalid (TUint n)
      else VUint raw))"
| "decode_value (TBitmap n) = rd_bind (read_uint n) (\<lambda>raw. rd_return (VBitmap raw))"
| "decode_value (TInt n) = rd_bind (read_uint n) (\<lambda>raw. rd_return
     (if is_invalid_int raw n then VInvalid (TInt n) else VInt (sign_extend raw n)))"
| "decode_value Enum8 = rd_bind rd_u8 (\<lambda>v. rd_return
     (if v = 0xff then VInvalid Enum8 else VEnum (ucast v)))"
| "decode_value Enum16 = rd_bind rd_u16_le (\<lambda>v. rd_return
     (if v = 0xffff then VInvalid Enum16 else VEnum v))"
| "decode_value TSingle = rd_bind rd_u32_le (\<lambda>bits. rd_return
     (if f32_is_nan bits then VInvalid TSingle else VSingle bits))"
| "decode_value OctStr = rd_bind rd_octstr (\<lambda>v. rd_return
     (case v of None \<Rightarrow> VInvalid OctStr | Some b \<Rightarrow> VOctets b))"
| "decode_value CharStr = rd_bind rd_string (\<lambda>v. rd_return
     (case v of None \<Rightarrow> VInvalid CharStr | Some s \<Rightarrow> VStr (sanitise s)))"
| "decode_value TClusterId = rd_bind rd_u16_le (\<lambda>v. rd_return (VUint (ucast v)))"
| "decode_value TAttrId = rd_bind rd_u16_le (\<lambda>v. rd_return (VUint (ucast v)))"
| "decode_value (Time n) = rd_bind rd_u32_le (\<lambda>v. rd_return (VUint (ucast v)))"
| "decode_value TIeee = rd_bind rd_ieee_le (\<lambda>a. rd_return (VIeee a))"
| "decode_value TKey128 = rd_bind (rd_bytes 16) (\<lambda>b. rd_return (VKey128 (arr 16 b)))"
| "decode_value (Data n) = rd_bind (rd_bytes (unat n))
     (\<lambda>b. rd_return (VRaw (zt_to_u8 (Data n)) b))"
| "decode_value (Unknown o') = (\<lambda>r. case rd_rest r of (b, r') \<Rightarrow> (Inr (VRaw o' b), r'))"

fun encode_value :: "zcl_value \<Rightarrow> zcl_type \<Rightarrow> writer \<Rightarrow> codec_error + writer" where
  "encode_value VNone _ w = Inr w"
| "encode_value (VBool b) _ w = Inr (w_u8 (if b then 1 else 0) w)"
| "encode_value (VUint x) (TUint n) w = Inr (write_uint x n w)"
| "encode_value (VUint x) (TBitmap n) w = Inr (write_uint x n w)"
| "encode_value (VBitmap x) (TUint n) w = Inr (write_uint x n w)"
| "encode_value (VBitmap x) (TBitmap n) w = Inr (write_uint x n w)"
| "encode_value (VInt x) (TInt n) w = Inr (write_uint x n w)"
| "encode_value (VEnum x) Enum8 w = Inr (w_u8 (if unat x < 256 then ucast x else 0xfe) w)"
| "encode_value (VEnum x) Enum16 w = Inr (w_u16_le x w)"
| "encode_value (VSingle f) _ w = Inr (w_u32_le f w)"
| "encode_value (VOctets b) _ w = w_octstr (Some b) w"
| "encode_value (VStr s) _ w = w_octstr (Some (str_bytes s)) w"
| "encode_value (VIeee a) _ w = Inr (w_ieee_le a w)"
| "encode_value (VKey128 k) _ w = Inr (w_bytes k w)"
| "encode_value (VRaw _ b) _ w = Inr (w_bytes b w)"
| "encode_value (VInvalid t) _ w = Inr (write_invalid t w)"
| "encode_value _ _ w = Inl (OutputFull 0)"

section \<open>The integer codec\<close>

lemma nth_nat_le: "i < n \<Longrightarrow> nat_le n x ! i = of_nat (x div 256 ^ i mod 256)"
proof (induction n x arbitrary: i rule: nat_le.induct)
  case (2 n x)
  then show ?case by (cases i) (auto simp: div_mult2_eq)
qed simp

lemma write_uint_bytes_le:
  assumes "unat n \<le> 8"
  shows "write_uint_bytes v n = le_bytes (unat n) v"
proof (rule nth_equalityI)
  fix i assume "i < length (write_uint_bytes v n)"
  then have i: "i < unat n" by (simp add: write_uint_bytes_def)
  have m: "(0xff :: u64) = mask 8" by (simp add: mask_eq_exp_minus_1)
  have "unat (drop_bit (8 * i) v AND 0xff) = take_bit 8 (unat (drop_bit (8 * i) v))"
    unfolding m take_bit_eq_mask [symmetric] by (simp only: unsigned_take_bit_eq)
  also have "\<dots> = unat v div 256 ^ i mod 256"
    unfolding unat_drop_bit_eq by (simp add: drop_bit_eq_div take_bit_eq_mod pow256)
  finally have "(ucast (drop_bit (8 * i) v AND 0xff) :: u8) = of_nat (unat v div 256 ^ i mod 256)"
    by (metis of_nat_unat)
  then show "write_uint_bytes v n ! i = le_bytes (unat n) v ! i"
    using i assms by (simp add: write_uint_bytes_def le_bytes_def nth_nat_le)
qed (simp add: write_uint_bytes_def)

lemma or_push_bit_nat: "x < 2 ^ n \<Longrightarrow> x OR push_bit n y = x + 2 ^ n * (y :: nat)"
proof -
  assume x: "x < 2 ^ n"
  then have "take_bit n x = x" by (simp add: take_bit_nat_eq_self_iff)
  then have "x AND push_bit n y = 0"
    by (metis (no_types, opaque_lifting) bit_and_iff bit_push_bit_iff bit_take_bit_iff bit_eqI
        bit_0_eq bot_apply not_le bot_bool_def)
  then have "x OR push_bit n y = x + push_bit n y" by (simp add: disjunctive_add_eq_or)
  then show ?thesis by (simp add: push_bit_eq_mult mult.commute)
qed

lemma read_uint_loop_le:
  assumes "i + length bs \<le> 8" "unat acc < 256 ^ i"
  shows "unat (read_uint_loop i acc bs) = unat acc + 256 ^ i * le_nat bs"
  using assms
proof (induction i acc bs rule: read_uint_loop.induct)
  case (1 i acc)
  then show ?case by simp
next
  case (2 i acc b bs)
  then have i: "8 * i < 64" "i \<le> 7" by simp_all
  have small: "256 ^ i * unat b < (2 :: nat) ^ 64"
  proof -
    have "256 ^ i * unat b < 256 ^ i * 256" using unat_byte_bound [of b] by simp
    also have "\<dots> = (256 :: nat) ^ Suc i" by simp
    also have "\<dots> \<le> 256 ^ 8" using i by (intro power_increasing) simp_all
    finally show ?thesis by simp
  qed
  have "unat (ucast b :: u64) = unat b"
    using unat_byte_bound [of b] by (simp add: unsigned_ucast_eq take_bit_nat_eq_self_iff)
  then have "unat (push_bit (8 * i) (ucast b) :: u64) = push_bit (8 * i) (unat b)"
    using small unfolding unsigned_push_bit_eq
    by (simp add: push_bit_eq_mult take_bit_nat_eq_self_iff pow256 mult.commute)
  then have acc: "unat (acc OR push_bit (8 * i) (ucast b)) = unat acc + 256 ^ i * unat b"
    using 2(3) by (simp add: unsigned_or_eq or_push_bit_nat pow256)
  have "unat acc + 256 ^ i * unat b < 256 ^ i + 256 ^ i * unat b"
    using 2(3) by simp
  also have "\<dots> \<le> 256 ^ i * 256"
    using unat_byte_bound [of b] mult_le_mono2 [of "Suc (unat b)" 256 "256 ^ i"] by simp
  finally have "unat acc + 256 ^ i * unat b < 256 ^ Suc i" by simp
  with 2 i acc show ?case by (simp add: algebra_simps)
qed

lemma read_uint_loop_from_le: "length bs \<le> 8 \<Longrightarrow> read_uint_loop 0 0 bs = from_le bs"
  using read_uint_loop_le [of 0 bs 0]
  by (metis add.left_neutral from_le_def le_nat_bound mult_1 of_nat_unat power_0 unsigned_0
      less_numeral_extra(1) ucast_id)

lemma rd_bytes_append [wire_simps]:
  "rd_fits pre (xs @ rest) \<Longrightarrow> n = length xs \<Longrightarrow>
     rd_bytes n (rd_at pre (xs @ rest)) = (Inr xs, rd_at (pre @ xs) rest)"
  by (simp add: rd_bytes_def rd_take_append)

lemma uint_field:
  assumes "unat n \<le> 8"
  shows "wire_field (unat n) (le_bytes (unat n)) (\<lambda>v. write_uint v n) (read_uint n)
    (\<lambda>v. unat v < 256 ^ unat n)"
proof
  fix a :: u64 and pre rest
  assume "unat a < 256 ^ unat n" "rd_fits pre (le_bytes (unat n) a @ rest)"
  then show "read_uint n (rd_at pre (le_bytes (unat n) a @ rest))
      = (Inr a, rd_at (pre @ le_bytes (unat n) a) rest)"
    using assms
    by (simp add: read_uint_def rd_bind_def rd_bytes_append read_uint_loop_from_le)
      (simp add: from_le_def le_bytes_def le_nat_nat_le)
next
  fix pre rest assume "length rest < unat n" "rd_fits pre rest"
  then show "read_uint n (rd_at pre rest)
      = (Inl (Eof (unat n) (length pre) (length rest)), rd_at pre rest)"
    by (simp add: read_uint_def rd_bind_def rd_bytes_def rd_take_at)
next
  fix bs :: "u8 list" assume bs: "length bs = unat n"
  then have u: "unat (from_le bs :: u64) = le_nat bs" "8 * length bs \<le> 64"
    using assms by (simp_all add: unat_from_le)
  then show "\<exists>a :: u64. unat a < 256 ^ unat n \<and> le_bytes (unat n) a = bs"
    using le_nat_bound [of bs] le_bytes_from_le [where 'a = 64, of bs] bs
    by (intro exI [of _ "from_le bs"]) simp
qed (simp_all add: assms write_uint_def write_uint_bytes_le wire_simps)

lemma read_uint_write:
  assumes "unat n \<le> 8" "rd_fits pre (le_bytes (unat n) v @ rest)"
  shows "read_uint n (rd_at pre (le_bytes (unat n) v @ rest))
    = (Inr (take_bit (8 * unat n) v), rd_at (pre @ le_bytes (unat n) v) rest)"
proof -
  have "unat (take_bit (8 * unat n) v) = unat v mod 256 ^ unat n"
    by (simp only: unsigned_take_bit_eq) (simp add: take_bit_eq_mod pow256)
  moreover have "nat_le m (x mod 256 ^ m) = nat_le m x" for m x
    by (metis le_nat_nat_le length_nat_le nat_le_le_nat)
  ultimately have "le_bytes (unat n) (take_bit (8 * unat n) v) = le_bytes (unat n) v"
    "unat (take_bit (8 * unat n) v) < 256 ^ unat n"
    by (simp_all add: le_bytes_def)
  with wire_field.get_enc [OF uint_field [OF assms(1)], of "take_bit (8 * unat n) v" pre rest] assms(2)
  show ?thesis by simp
qed

lemma shift_pair:
  assumes "0 < k" "k < 64"
  shows "signed_drop_bit (64 - k) (push_bit (64 - k) x) = signed_take_bit (k - 1) (x :: u64)"
proof (rule bit_word_eqI)
  fix m assume m: "m < LENGTH(64)"
  show "bit (signed_drop_bit (64 - k) (push_bit (64 - k) x)) m = bit (signed_take_bit (k - 1) x) m"
  proof (cases "m < k")
    case True
    then have "min (k - 1) m = m" "\<not> 64 - (64 - k) \<le> m" "64 - k + m - (64 - k) = m" "64 - k + m < 64"
      using assms by auto
    then show ?thesis by (simp add: bit_signed_drop_bit_iff bit_signed_take_bit_iff bit_push_bit_iff)
  next
    case False
    then have "min (k - 1) m = k - 1" "64 - (64 - k) \<le> m" "63 - (64 - k) = k - 1" "64 - k \<le> 63"
      using assms by auto
    then show ?thesis using m assms
      by (simp add: bit_signed_drop_bit_iff bit_signed_take_bit_iff bit_push_bit_iff)
  qed
qed

lemma sign_extend_signed_take_bit:
  assumes "0 < unat n" "unat n \<le> 8"
  shows "sign_extend raw n = signed_take_bit (8 * unat n - 1) raw"
proof (cases "unat n = 8")
  case True
  show ?thesis
  proof (rule bit_word_eqI)
    fix m assume "m < LENGTH(64)"
    then have "m < 63 \<or> m = 63" by auto
    with True show "bit (sign_extend raw n) m = bit (signed_take_bit (8 * unat n - 1) raw) m"
      by (auto simp: sign_extend_def bit_signed_take_bit_iff)
  qed
next
  case False
  then show ?thesis
    using assms shift_pair [of "8 * unat n" raw] by (simp add: sign_extend_def Let_def mult.commute)
qed

lemma sint_signed_take_bit:
  "k < 64 \<Longrightarrow> sint (signed_take_bit k (x :: u64)) = signed_take_bit k (sint x)"
  by (cases "k = 63") (rule bit_eqI, auto simp: bit_simps min_def)+

lemma signed_take_bit_self:
  assumes "k < 64" "- (2 ^ k) \<le> sint (x :: u64)" "sint x < 2 ^ k"
  shows "signed_take_bit k x = x"
proof -
  have "sint (signed_take_bit k x) = sint x"
    using assms by (simp add: sint_signed_take_bit signed_take_bit_int_eq_self)
  then show ?thesis by (metis of_int_sint scast_id)
qed

section \<open>Values that travel unchanged\<close>

text \<open>
  \<open>zv_canonical ty v\<close> holds of the values a \<open>ty\<close> field can carry: the integer is in range and
  is not the type's invalid marker, the string fits its length octet and has no control
  characters, and an invalid marker is of a type that has one.
\<close>

primrec zv_canonical :: "zcl_type \<Rightarrow> zcl_value \<Rightarrow> bool" where
  "zv_canonical NoData v \<longleftrightarrow> v = VNone"
| "zv_canonical Unk v \<longleftrightarrow> v = VNone"
| "zv_canonical TBool v \<longleftrightarrow> (case v of VBool _ \<Rightarrow> True | VInvalid t \<Rightarrow> t = TBool | _ \<Rightarrow> False)"
| "zv_canonical (Data n) v \<longleftrightarrow>
     (case v of VRaw t b \<Rightarrow> t = zt_to_u8 (Data n) \<and> length b = unat n | _ \<Rightarrow> False)"
| "zv_canonical (TBitmap n) v \<longleftrightarrow>
     unat n \<le> 8 \<and> (case v of VBitmap x \<Rightarrow> unat x < 256 ^ unat n | _ \<Rightarrow> False)"
| "zv_canonical (TUint n) v \<longleftrightarrow>
     unat n \<le> 8 \<and>
     (case v of VUint x \<Rightarrow> unat x < 256 ^ unat n \<and> \<not> is_invalid_uint x n
      | VInvalid t \<Rightarrow> t = TUint n \<and> n \<in> {1, 2, 3, 4} | _ \<Rightarrow> False)"
| "zv_canonical (TInt n) v \<longleftrightarrow>
     0 < unat n \<and> unat n \<le> 8 \<and>
     (case v of VInt x \<Rightarrow> - (2 ^ (8 * unat n - 1)) \<le> sint x \<and> sint x < 2 ^ (8 * unat n - 1)
          \<and> \<not> is_invalid_int (take_bit (8 * unat n) x) n
      | VInvalid t \<Rightarrow> t = TInt n \<and> n \<in> {1, 2, 4} | _ \<Rightarrow> False)"
| "zv_canonical Enum8 v \<longleftrightarrow>
     (case v of VEnum x \<Rightarrow> unat x < 255 | VInvalid t \<Rightarrow> t = Enum8 | _ \<Rightarrow> False)"
| "zv_canonical Enum16 v \<longleftrightarrow>
     (case v of VEnum x \<Rightarrow> x \<noteq> 0xffff | VInvalid t \<Rightarrow> t = Enum16 | _ \<Rightarrow> False)"
| "zv_canonical TSingle v \<longleftrightarrow>
     (case v of VSingle f \<Rightarrow> \<not> f32_is_nan f | VInvalid t \<Rightarrow> t = TSingle | _ \<Rightarrow> False)"
| "zv_canonical OctStr v \<longleftrightarrow>
     (case v of VOctets b \<Rightarrow> length b < 255 | VInvalid t \<Rightarrow> t = OctStr | _ \<Rightarrow> False)"
| "zv_canonical CharStr v \<longleftrightarrow>
     (case v of VStr s \<Rightarrow> length s < 255 \<and> str_valid s \<and> sanitise s = s
      | VInvalid t \<Rightarrow> t = CharStr | _ \<Rightarrow> False)"
| "zv_canonical (Time n) v \<longleftrightarrow> False"
| "zv_canonical TClusterId v \<longleftrightarrow> False"
| "zv_canonical TAttrId v \<longleftrightarrow> False"
| "zv_canonical TIeee v \<longleftrightarrow> (case v of VIeee _ \<Rightarrow> True | _ \<Rightarrow> False)"
| "zv_canonical TKey128 v \<longleftrightarrow> (case v of VKey128 k \<Rightarrow> length k = 16 | _ \<Rightarrow> False)"
| "zv_canonical (Unknown o') v \<longleftrightarrow> (case v of VRaw t _ \<Rightarrow> t = o' | _ \<Rightarrow> False)"

text \<open>A type whose octet the standard does not define reads to the end of the payload.\<close>

fun zt_takes_rest :: "zcl_type \<Rightarrow> bool" where
  "zt_takes_rest (Unknown _) = True"
| "zt_takes_rest _ = False"

text \<open>\<open>zv_wire ty v bs\<close>: the writer puts \<open>bs\<close>, and the reader takes \<open>bs\<close> back to \<open>v\<close>.\<close>

definition zv_wire :: "zcl_type \<Rightarrow> zcl_value \<Rightarrow> u8 list \<Rightarrow> bool" where
  "zv_wire ty v bs \<longleftrightarrow>
     (\<forall>w. encode_value v ty w = Inr (w\<lparr>w_buf := w_buf w @ bs\<rparr>)) \<and>
     (\<forall>pre rest. rd_fits pre (bs @ rest) \<longrightarrow> (zt_takes_rest ty \<longrightarrow> rest = []) \<longrightarrow>
        decode_value ty (rd_at pre (bs @ rest)) = (Inr v, rd_at (pre @ bs) rest))"

lemma zv_wireI:
  assumes "\<And>w. encode_value v ty w = Inr (w\<lparr>w_buf := w_buf w @ bs\<rparr>)"
    and "\<And>pre rest. rd_fits pre (bs @ rest) \<Longrightarrow> \<not> zt_takes_rest ty \<or> rest = [] \<Longrightarrow>
        decode_value ty (rd_at pre (bs @ rest)) = (Inr v, rd_at (pre @ bs) rest)"
  shows "zv_wire ty v bs"
  using assms by (simp add: zv_wire_def)

lemma write_uint_eq: "unat n \<le> 8 \<Longrightarrow> write_uint x n w = w\<lparr>w_buf := w_buf w @ le_bytes (unat n) x\<rparr>"
  by (simp add: write_uint_def write_uint_bytes_le w_bytes_def)

lemma read_uint_small:
  "unat n \<le> 8 \<Longrightarrow> unat x < 256 ^ unat n \<Longrightarrow> rd_fits pre (le_bytes (unat n) x @ rest) \<Longrightarrow>
   read_uint n (rd_at pre (le_bytes (unat n) x @ rest))
     = (Inr x, rd_at (pre @ le_bytes (unat n) x) rest)"
  using wire_field.get_enc [OF uint_field] by blast

lemma zv_wire_uint:
  assumes "unat n \<le> 8" "unat x < 256 ^ unat n"
  shows "\<not> is_invalid_uint x n \<Longrightarrow> zv_wire (TUint n) (VUint x) (le_bytes (unat n) x)"
    and "zv_wire (TBitmap n) (VBitmap x) (le_bytes (unat n) x)"
  using assms by (simp_all add: zv_wire_def write_uint_eq rd_bind_def read_uint_small)

lemma zv_wire_int:
  assumes "0 < unat n" "unat n \<le> 8"
    and "- (2 ^ (8 * unat n - 1)) \<le> sint x" "sint x < 2 ^ (8 * unat n - 1)"
    and "\<not> is_invalid_int (take_bit (8 * unat n) x) n"
  shows "zv_wire (TInt n) (VInt x) (le_bytes (unat n) x)"
proof -
  have "sign_extend (take_bit (8 * unat n) x) n = signed_take_bit (8 * unat n - 1) x"
    using assms(1,2)
    by (auto simp: sign_extend_signed_take_bit signed_take_bit_take_bit)
  then have "sign_extend (take_bit (8 * unat n) x) n = x"
    using assms by (simp add: signed_take_bit_self)
  with assms show ?thesis
    by (simp add: zv_wire_def write_uint_eq rd_bind_def read_uint_write)
qed

lemma le_bytesI:
  "from_le bs = (x :: 'a::len word) \<Longrightarrow> length bs = n \<Longrightarrow> 8 * n \<le> LENGTH('a) \<Longrightarrow> le_bytes n x = bs"
  using le_bytes_from_le [where 'a = 'a, of bs] by auto

lemma marker_bytes:
  "le_bytes (Suc 0) (0xff :: u64) = [0xff]" "le_bytes 2 (0xffff :: u64) = [0xff, 0xff]"
  "le_bytes 3 (0xffffff :: u64) = [0xff, 0xff, 0xff]"
  "le_bytes 4 (0xffffffff :: u64) = [0xff, 0xff, 0xff, 0xff]"
  "le_bytes (Suc 0) (0x80 :: u64) = [0x80]" "le_bytes 2 (0x8000 :: u64) = [0, 0x80]"
  "le_bytes 4 (0x80000000 :: u64) = [0, 0, 0, 0x80]"
  "le_bytes 2 (0xffff :: u16) = [0xff, 0xff]" "le_bytes 4 (0x7fc00000 :: u32) = [0, 0, 0xc0, 0x7f]"
  by (rule le_bytesI; simp add: from_le_def)+

lemma replicate_small:
  "replicate 2 x = [x, x]" "replicate 3 x = [x, x, x]" "replicate 4 x = [x, x, x, x]"
  by (simp_all add: eval_nat_numeral)

lemma upt_small: "[0..<2] = [0, 1]" "[0..<4] = [0, 1, 2, 3]"
  by (simp_all add: eval_nat_numeral)

lemma zv_wire_invalid_uint:
  "n \<in> {1, 2, 3, 4} \<Longrightarrow> zv_wire (TUint n) (VInvalid (TUint n)) (replicate (unat n) 0xff)"
  using read_uint_small [of 1 "0xff"] read_uint_small [of 2 "0xffff"]
    read_uint_small [of 3 "0xffffff"] read_uint_small [of 4 "0xffffffff"]
  by (elim insertE emptyE)
    (simp_all add: zv_wire_def write_invalid_def w_bytes_def rd_bind_def is_invalid_uint_def
      marker_bytes replicate_small)

lemma zv_wire_invalid_int:
  "n \<in> {1, 2, 4} \<Longrightarrow> \<exists>bs. zv_wire (TInt n) (VInvalid (TInt n)) bs"
  using read_uint_small [of 1 "0x80"] read_uint_small [of 2 "0x8000"]
    read_uint_small [of 4 "0x80000000"]
  by (intro exI [of _ "replicate (unat n - 1) 0 @ [0x80]"], elim insertE emptyE)
    (simp_all add: zv_wire_def write_invalid_def w_bytes_def rd_bind_def is_invalid_int_def
      marker_bytes replicate_small upt_small)

lemma byte_of_nat_not_ff: "n < 255 \<Longrightarrow> (of_nat n :: u8) \<noteq> 0xff"
proof
  assume "n < 255" "(of_nat n :: u8) = 0xff"
  then have "unat (of_nat n :: u8) = 255" by simp
  with \<open>n < 255\<close> show False by (simp add: unat_of_nat)
qed

lemma w_octstr_Some:
  "length raw < 255 \<Longrightarrow>
     w_octstr (Some raw) w = Inr (w\<lparr>w_buf := w_buf w @ of_nat (length raw) # raw\<rparr>)"
  by (simp add: w_octstr_def byte_of_nat_not_ff Let_def)

lemma w_octstr_too_long:
  "255 \<le> length raw \<Longrightarrow> w_octstr (Some raw) w = Inl (OutputFull (length raw))"
  by (cases "length raw = 255") (simp_all add: w_octstr_def)

lemma rd_string_Some:
  assumes "rd_fits pre (of_nat (length s) # str_bytes s @ rest)" "length s < 255" "str_valid s"
  shows "rd_string (rd_at pre (of_nat (length s) # str_bytes s @ rest))
    = (Inr (Some s), rd_at (pre @ of_nat (length s) # str_bytes s) rest)"
  using rd_octstr_Some [of pre "str_bytes s" rest] assms
  by (simp add: rd_string_def rd_bind_def from_utf8_str_bytes)

lemma rd_string_None:
  "rd_fits pre (0xff # rest) \<Longrightarrow>
     rd_string (rd_at pre (0xff # rest)) = (Inr None, rd_at (pre @ [0xff]) rest)"
  by (simp add: rd_string_def rd_bind_def rd_octstr_None)

lemma ucast_down_up: "unat x < 256 \<Longrightarrow> ucast (ucast (x :: u16) :: u8) = x"
  by (simp add: word_unat_eq_iff unsigned_ucast_eq unsigned_take_bit_eq take_bit_nat_eq_self_iff)

lemma zv_wire_single: "\<not> f32_is_nan f \<Longrightarrow> zv_wire TSingle (VSingle f) (le_bytes 4 f)"
  by (simp add: zv_wire_def w_u32_le_def rd_bind_def field_reads)

lemma zv_wire_invalid_single: "zv_wire TSingle (VInvalid TSingle) (le_bytes 4 (0x7fc00000 :: u32))"
  by (simp add: zv_wire_def write_invalid_def w_u32_le_def rd_bind_def field_reads f32_is_nan_def)

lemma zv_wire_enum8:
  assumes "unat x < 255"
  shows "zv_wire Enum8 (VEnum x) [ucast x]"
proof -
  have "unat (ucast x :: u8) = unat x"
    using assms by (simp add: unsigned_ucast_eq take_bit_nat_eq_self_iff)
  then have "(ucast x :: u8) \<noteq> 0xff" using assms by auto
  with assms show ?thesis
    by (simp add: zv_wire_def w_u8_def rd_bind_def rd_u8_Cons ucast_down_up)
qed

lemma zv_wire_string:
  assumes "length s < 255" "str_valid s" "sanitise s = s"
  shows "zv_wire CharStr (VStr s) (of_nat (length s) # str_bytes s)"
  using assms by (simp add: zv_wire_def w_octstr_Some rd_bind_def rd_string_Some)

lemma zv_wire_octets:
  "length b < 255 \<Longrightarrow> zv_wire OctStr (VOctets b) (of_nat (length b) # b)"
  by (simp add: zv_wire_def w_octstr_Some rd_bind_def rd_octstr_Some)

lemma zv_wire_plain:
  "zv_wire NoData VNone []" "zv_wire Unk VNone []"
  "zv_wire TBool (VBool b) [if b then 1 else 0]"
  "zv_wire TBool (VInvalid TBool) [0xff]" "zv_wire Enum8 (VInvalid Enum8) [0xff]"
  "zv_wire OctStr (VInvalid OctStr) [0xff]" "zv_wire CharStr (VInvalid CharStr) [0xff]"
  "x \<noteq> 0xffff \<Longrightarrow> zv_wire Enum16 (VEnum x) (le_bytes 2 x)"
  "zv_wire TIeee (VIeee a) (ieee_to_le_bytes a)"
  "length k = 16 \<Longrightarrow> zv_wire TKey128 (VKey128 k) k"
  "length d = unat n \<Longrightarrow> zv_wire (Data n) (VRaw (zt_to_u8 (Data n)) d) d"
  "zv_wire (Unknown t) (VRaw t d) d"
  by (simp_all add: zv_wire_def write_invalid_def w_bytes_def w_u8_def w_u16_le_def w_ieee_le_def
      rd_bind_def rd_u8_Cons field_reads rd_octstr_None rd_string_None rd_bytes_append
      marker_bytes replicate_small rd_rest_at)

lemma zv_wire_invalid_enum16: "zv_wire Enum16 (VInvalid Enum16) [0xff, 0xff]"
  using f_u16_le.get_enc [where a = "0xffff"]
  by (simp add: zv_wire_def write_invalid_def w_bytes_def rd_bind_def marker_bytes replicate_small)

lemma zv_canonical_wire:
  assumes "zv_canonical ty v"
  shows "\<exists>bs. zv_wire ty v bs"
  using assms
  by (cases ty; cases v)
    (auto intro: zv_wire_plain zv_wire_plain [simplified] zv_wire_uint zv_wire_int [simplified]
      zv_wire_invalid_enum16 zv_wire_invalid_int zv_wire_single
      zv_wire_invalid_single zv_wire_enum8 zv_wire_string zv_wire_octets
      zv_wire_invalid_uint [of 1] zv_wire_invalid_uint [of 2]
      zv_wire_invalid_uint [of 3] zv_wire_invalid_uint [of 4])

section \<open>Reading any bytes\<close>

lemma rd_safe_uint [safe_intros]: "rd_safe (read_uint n)"
  unfolding read_uint_def by (intro safe_intros)

lemma rd_safe_rest: "rd_safe (\<lambda>r. case rd_rest r of (b, r') \<Rightarrow> (Inr (f b), r'))"
  by (rule rd_safeI) (auto simp: rd_rest_def rd_ok_def)

lemma rd_safe_decode_value [safe_intros]: "rd_safe (decode_value ty)"
  by (cases ty) (auto intro!: safe_intros rd_safe_rest)

lemma read_uint_at:
  assumes "rd_fits pre rest"
  shows "read_uint n (rd_at pre rest) =
    (if unat n \<le> length rest
     then (Inr (read_uint_loop 0 0 (take (unat n) rest)),
           rd_at (pre @ take (unat n) rest) (drop (unat n) rest))
     else (Inl (Eof (unat n) (length pre) (length rest)), rd_at pre rest))"
  by (simp add: read_uint_def rd_bytes_def rd_bind_def rd_take_at [OF assms])

lemma rd_word_at:
  assumes "rd_fits pre rest"
  shows "rd_u16_le (rd_at pre rest) =
      (if 2 \<le> length rest then (Inr (from_le (take 2 rest)), rd_at (pre @ take 2 rest) (drop 2 rest))
       else (Inl (Eof 2 (length pre) (length rest)), rd_at pre rest))"
    and "rd_u32_le (rd_at pre rest) =
      (if 4 \<le> length rest then (Inr (from_le (take 4 rest)), rd_at (pre @ take 4 rest) (drop 4 rest))
       else (Inl (Eof 4 (length pre) (length rest)), rd_at pre rest))"
    and "rd_u64_le (rd_at pre rest) =
      (if 8 \<le> length rest then (Inr (from_le (take 8 rest)), rd_at (pre @ take 8 rest) (drop 8 rest))
       else (Inl (Eof 8 (length pre) (length rest)), rd_at pre rest))"
  using rd_fixed_at [OF assms] unfolding rd_u16_le_def rd_u32_le_def rd_u64_le_def by blast+

lemma rd_u8_at_take:
  assumes "rd_fits pre rest"
  shows "rd_u8 (rd_at pre rest) =
    (if 1 \<le> length rest then (Inr (hd rest), rd_at (pre @ take 1 rest) (drop 1 rest))
     else (Inl (Eof 1 (length pre) (length rest)), rd_at pre rest))"
  using assms by (cases rest) (simp_all add: rd_u8_at)

text \<open>
  A type of fixed width either fails, leaving the cursor where it was, or succeeds having moved
  exactly its width.
\<close>

lemma decode_fixed:
  assumes "zt_fixed_size ty = Some k" "rd_fits pre rest"
  shows "decode_value ty (rd_at pre rest) =
      (if k \<le> length rest
       then (fst (decode_value ty (rd_at pre rest)), rd_at (pre @ take k rest) (drop k rest))
       else (Inl (Eof k (length pre) (length rest)), rd_at pre rest))
    \<and> (k \<le> length rest \<longleftrightarrow> (\<exists>v. fst (decode_value ty (rd_at pre rest)) = Inr v))"
  using assms
  by (cases ty)
    (auto simp: rd_bind_def read_uint_at rd_word_at rd_u8_at_take rd_ieee_le_def rd_bytes_def
      rd_take_at split: if_splits)

section \<open>What the decoder returns can be sent again\<close>

lemma sanitise_props:
  assumes "str_valid s"
  shows "str_valid (sanitise s)" "sanitise (sanitise s) = sanitise s"
    "length (sanitise s) \<le> length s"
proof -
  let ?f = "filter (\<lambda>c. \<not> is_control c) (chars s)"
  have sc: "\<forall>c \<in> set ?f. is_scalar c" using chars_scalar by auto
  then show "str_valid (sanitise s)" by (simp add: sanitise_def str_valid_str_of)
  from sc have "chars (sanitise s) = ?f" by (simp add: sanitise_def chars_str_of)
  then show "sanitise (sanitise s) = sanitise s" by (simp add: sanitise_def)
  have "length (utf8_encode (filter p cs)) \<le> length (utf8_encode cs)" for p cs
    by (induction cs) (auto simp: utf8_encode_def)
  then have "length (sanitise s) \<le> length (str_of (chars s))"
    by (simp add: sanitise_def str_of_def)
  then show "length (sanitise s) \<le> length s" using assms by (simp add: str_of_chars)
qed

lemma read_uint_loop_bound:
  "length bs \<le> 8 \<Longrightarrow> unat (read_uint_loop 0 0 bs) < 256 ^ length bs"
  using read_uint_loop_le [of 0 bs 0] le_nat_bound [of bs] by simp

lemma sign_extend_range:
  assumes "0 < unat n" "unat n \<le> 8"
  shows "- (2 ^ (8 * unat n - 1)) \<le> sint (sign_extend raw n)"
    "sint (sign_extend raw n) < 2 ^ (8 * unat n - 1)"
    "unat raw < 256 ^ unat n \<Longrightarrow> take_bit (8 * unat n) (sign_extend raw n) = raw"
proof -
  have k: "8 * unat n - 1 < 64" using assms by simp
  show "- (2 ^ (8 * unat n - 1)) \<le> sint (sign_extend raw n)"
    "sint (sign_extend raw n) < 2 ^ (8 * unat n - 1)"
    unfolding sign_extend_signed_take_bit [OF assms] sint_signed_take_bit [OF k] by simp_all
  assume "unat raw < 256 ^ unat n"
  then have "unat (take_bit (8 * unat n) raw) = unat raw"
    by (simp only: unsigned_take_bit_eq) (simp add: take_bit_nat_eq_self_iff pow256)
  then have "take_bit (8 * unat n) raw = raw" by (simp only: word_unat_eq_iff)
  then show "take_bit (8 * unat n) (sign_extend raw n) = raw"
    unfolding sign_extend_signed_take_bit [OF assms] by (simp add: take_bit_signed_take_bit)
qed

lemma rd_octstr_Inr:
  assumes "rd_octstr (rd_at pre rest) = (Inr (Some b), r')" "rd_fits pre rest"
  shows "length b < 255"
proof (cases rest)
  case Nil
  with assms show ?thesis by (simp add: rd_octstr_def rd_bind_def rd_u8_at)
next
  case (Cons l bs)
  have l: "l \<noteq> 0xff \<Longrightarrow> unat l < 255"
    using unat_byte_bound [of l] 
    by (cases "unat l = 255") (metis of_nat_numeral of_nat_unat ucast_id, linarith)
  have "rd_octstr (rd_at pre rest) = (if l = 0xff then (Inr None, rd_at (pre @ [l]) bs)
     else if length bs < unat l
     then (Inl (BadLength (unat l) (length bs) (length pre)), rd_at (pre @ [l]) bs)
     else (Inr (Some (take (unat l) bs)), rd_at (pre @ l # take (unat l) bs) (drop (unat l) bs)))"
    using assms(2) Cons
    by (simp add: rd_octstr_def rd_bind_def rd_u8_Cons rd_remaining_at rd_take_at rd_pos_at)
  with assms(1) l show ?thesis by (auto split: if_splits)
qed

lemma rd_string_Inr:
  assumes "rd_string (rd_at pre rest) = (Inr (Some s), r')" "rd_fits pre rest"
  shows "length s < 255" "str_valid s"
proof -
  obtain raw where raw: "rd_octstr (rd_at pre rest) = (Inr (Some raw), r')" "from_utf8 raw = Some s"
    using assms(1) by (auto simp: rd_string_def rd_bind_eq_Inr split: option.splits)
  from raw(2) have "str_valid s" "str_bytes s = raw" by (auto dest: from_utf8_valid)
  with rd_octstr_Inr [OF raw(1) assms(2)] show "length s < 255" "str_valid s" by auto
qed

lemma zt_from_u8_width:
  "zt_from_u8 b = TUint n \<or> zt_from_u8 b = TInt n \<or> zt_from_u8 b = TBitmap n \<Longrightarrow>
     0 < unat n \<and> unat n \<le> 8"
  by (auto simp: zt_from_u8_def word_le_nat_alt unat_sub split: if_splits)

lemma decoded_uint_canonical:
  assumes "decode_value ty (rd_at pre rest) = (Inr v, r')" "rd_fits pre rest"
    and "ty = TUint n \<or> ty = TInt n \<or> ty = TBitmap n" "0 < unat n" "unat n \<le> 8"
  shows "zv_canonical ty v"
proof -
  have len: "unat n \<le> length rest"
    using assms(1,2,3) by (auto simp: rd_bind_eq_Inr read_uint_at split: if_splits)
  define raw where "raw = read_uint_loop 0 0 (take (unat n) rest)"
  have raw: "unat raw < 256 ^ unat n"
  proof -
    have "length (take (unat n) rest) = unat n" using len by simp
    with read_uint_loop_bound [of "take (unat n) rest"] assms(5) show ?thesis by (simp only: raw_def)
  qed
  have "n = 1 \<or> n = 2 \<or> n = 4" if "is_invalid_int raw n"
    using that by (auto simp: is_invalid_int_def split: if_splits)
  moreover have "n = 1 \<or> n = 2 \<or> n = 3 \<or> n = 4" if "is_invalid_uint raw n"
    using that by (auto simp: is_invalid_uint_def split: if_splits)
  ultimately show ?thesis
    using assms len raw sign_extend_range [OF assms(4,5), of raw]
    by (auto simp: rd_bind_def read_uint_at raw_def [symmetric] split: if_splits)
qed

lemma decoded_other_canonical:
  assumes "decode_value ty (rd_at pre rest) = (Inr v, r')" "rd_fits pre rest"
    and "ty \<notin> {TClusterId, TAttrId}" "\<And>n. ty \<noteq> Time n"
    and "\<And>n. ty \<noteq> TUint n" "\<And>n. ty \<noteq> TInt n" "\<And>n. ty \<noteq> TBitmap n"
  shows "zv_canonical ty v"
proof -
  have "unat b < 255" if "b \<noteq> (0xff :: u8)" for b
    using that unat_byte_bound [of b]
    by (cases "unat b = 255") (metis of_nat_numeral of_nat_unat ucast_id, linarith)
  moreover have "unat (ucast (b :: u8) :: u16) = unat b" for b
    using unat_byte_bound [of b] by (simp add: unsigned_ucast_eq take_bit_nat_eq_self_iff)
  ultimately show ?thesis
    using assms rd_octstr_Inr [OF _ assms(2)] rd_string_Inr [OF _ assms(2)] sanitise_props
      le_less_trans [OF sanitise_props(3)]
    by (cases ty)
      (auto simp: rd_bind_eq_Inr rd_bytes_def rd_take_at rd_rest_at
        split: if_splits option.splits)
qed

text \<open>Three types have a case in the decoder and none in the encoder.\<close>

lemma decoded_unsendable:
  assumes "decode_value ty r = (Inr v, r')" "(\<exists>n. ty = Time n) \<or> ty = TClusterId \<or> ty = TAttrId"
  shows "encode_value v ty w = Inl (OutputFull 0)"
proof -
  have "\<exists>x. v = VUint x" using assms
    by (elim disjE exE) (auto simp: rd_bind_def split: prod.splits sum.splits)
  then show ?thesis using assms(2) by auto
qed

section \<open>Properties\<close>

text \<open>
  the type octet of every attribute record survives parsing. Each of the 256 octets maps to
  a type whose octet is the one read, undefined octets included.
\<close>

theorem zt_octet_roundtrip: "zt_to_u8 (zt_from_u8 b) = b"
  by (auto simp: zt_from_u8_def)

text \<open>
  C4: every value a type can carry is written and read back unchanged. For a canonical value the
  encoder succeeds and appends some bytes, and the decoder, on those bytes followed by anything,
  returns the value and stops right after them (a type of undefined width takes the rest of the
  payload, so nothing may follow it).
\<close>

theorem zcl_value_roundtrip:
  assumes "zv_canonical ty v"
  shows "\<exists>bs. encode_value v ty w = Inr (w\<lparr>w_buf := w_buf w @ bs\<rparr>) \<and>
    (\<forall>pre rest. rd_fits pre (bs @ rest) \<longrightarrow> \<not> zt_takes_rest ty \<or> rest = [] \<longrightarrow>
       decode_value ty (rd_at pre (bs @ rest)) = (Inr v, rd_at (pre @ bs) rest))"
  using zv_canonical_wire [OF assms] by (auto simp: zv_wire_def)

theorem zcl_value_roundtrip_witness:
  "\<exists>bs. encode_value (VInt (- 5)) (TInt 2) writer_new
      = Inr (writer_new\<lparr>w_buf := w_buf writer_new @ bs\<rparr>) \<and>
    (\<forall>pre rest. rd_fits pre (bs @ rest) \<longrightarrow> \<not> zt_takes_rest (TInt 2) \<or> rest = [] \<longrightarrow>
       decode_value (TInt 2) (rd_at pre (bs @ rest)) = (Inr (VInt (- 5)), rd_at (pre @ bs) rest))"
  by (rule zcl_value_roundtrip) (simp add: is_invalid_int_def take_bit_eq_mod)

text \<open>
  a type of fixed width reads exactly that many bytes. With fewer bytes left it fails with
  the end-of-input error naming the width, the offset and what was left, and the cursor stays;
  with enough it always succeeds and the cursor is right after the value.
\<close>

theorem decode_value_fixed_width:
  assumes "zt_fixed_size ty = Some k" "rd_fits pre rest"
  shows "if k \<le> length rest
    then \<exists>v. decode_value ty (rd_at pre rest) = (Inr v, rd_at (pre @ take k rest) (drop k rest))
    else decode_value ty (rd_at pre rest) = (Inl (Eof k (length pre) (length rest)), rd_at pre rest)"
proof (cases "k \<le> length rest")
  case True
  with decode_fixed [OF assms] obtain v where "fst (decode_value ty (rd_at pre rest)) = Inr v"
    by blast
  with decode_fixed [OF assms] True show ?thesis by (intro if_P [THEN iffD2] exI [of _ v]) simp_all
next
  case False
  with decode_fixed [OF assms] show ?thesis by simp
qed

theorem decode_value_fixed_width_witness:
  "if 2 \<le> length [0x34 :: u8]
    then \<exists>v. decode_value (TUint 2) (rd_at [] [0x34])
        = (Inr v, rd_at ([] @ take 2 [0x34]) (drop 2 [0x34]))
    else decode_value (TUint 2) (rd_at [] [0x34])
        = (Inl (Eof 2 (length ([] :: u8 list)) (length [0x34 :: u8])), rd_at [] [0x34])"
  by (rule decode_value_fixed_width) (simp_all add: rd_fits_def)

text \<open>
  C27: whatever bytes arrive, the value the decoder makes of them is canonical for the type octet
  on the wire, so it can be sent again and arrives unchanged: integers are in range and never
  the invalid marker, strings are valid UTF-8 without control characters and fit their length
  octet. The exceptions are the five octets of times, cluster and attribute identifiers: what is
  decoded for those the encoder refuses, whatever it is.
\<close>

theorem decode_value_canonical:
  assumes "decode_value (zt_from_u8 t) (rd_at pre rest) = (Inr v, r')" "rd_fits pre rest"
  shows "if t \<in> {0xe0, 0xe1, 0xe2, 0xe8, 0xe9} then encode_value v (zt_from_u8 t) w = Inl (OutputFull 0)
    else zv_canonical (zt_from_u8 t) v"
proof (cases "t \<in> {0xe0, 0xe1, 0xe2, 0xe8, 0xe9}")
  case True
  then have "(\<exists>n. zt_from_u8 t = Time n) \<or> zt_from_u8 t = TClusterId \<or> zt_from_u8 t = TAttrId"
    by (elim insertE emptyE) (simp_all add: zt_from_u8_def)
  then have "encode_value v (zt_from_u8 t) w = Inl (OutputFull 0)"
    using decoded_unsendable [OF assms(1)] by blast
  with True show ?thesis by simp
next
  case other: False
  have "zv_canonical (zt_from_u8 t) v"
  proof (cases "\<exists>n. zt_from_u8 t = TUint n \<or> zt_from_u8 t = TInt n \<or> zt_from_u8 t = TBitmap n")
    case True
    then obtain n where "zt_from_u8 t = TUint n \<or> zt_from_u8 t = TInt n \<or> zt_from_u8 t = TBitmap n"
      by blast
    with zt_from_u8_width [OF this] assms(1,2) show ?thesis
      by (intro decoded_uint_canonical) auto
  next
    case False
    have "b = 0xe0 \<or> b = 0xe1 \<or> b = 0xe2" if "0xe0 \<le> b" "b \<le> (0xe2 :: u8)" for b
    proof -
      from that have "unat b = 0xe0 \<or> unat b = 0xe1 \<or> unat b = 0xe2"
        by (auto simp: word_le_nat_alt)
      then show ?thesis by (metis of_nat_numeral of_nat_unat ucast_id)
    qed
    then have "zt_from_u8 t \<notin> {TClusterId, TAttrId}" "\<And>n. zt_from_u8 t \<noteq> Time n"
      using other by (auto simp: zt_from_u8_def)
    with False assms(1,2) show ?thesis by (intro decoded_other_canonical) auto
  qed
  with other show ?thesis by simp
qed

theorem decode_value_canonical_witness:
  "zv_canonical (zt_from_u8 0x29) (VInt (- 2)) \<and> encode_value (VUint 5) (zt_from_u8 0xe8) writer_new = Inl (OutputFull 0)"
proof
  have "decode_value (zt_from_u8 0x29) (rd_at [] [0xfe, 0xff]) = (Inr (VInt (- 2)), rd_at [0xfe, 0xff] [])"
    by (simp add: zt_from_u8_def rd_bind_def read_uint_at rd_fits_def is_invalid_int_def
      sign_extend_signed_take_bit signed_take_bit_eq_take_bit_minus)
  from decode_value_canonical [OF this, of writer_new] show "zv_canonical (zt_from_u8 0x29) (VInt (- 2))"
    by (simp add: rd_fits_def)
  have "decode_value (zt_from_u8 0xe8) (rd_at [] [5, 0]) = (Inr (VUint 5), rd_at [5, 0] [])"
    by (simp add: zt_from_u8_def rd_bind_def rd_word_at rd_fits_def from_le_def)
  from decode_value_canonical [OF this, of writer_new]
  show "encode_value (VUint 5) (zt_from_u8 0xe8) writer_new = Inl (OutputFull 0)" by (simp add: rd_fits_def)
qed

end
