(* ===== verification/Zcl_Frame.thy ===== *)
theory Zcl_Frame
  imports Codec
begin

text \<open>
  The ZCL frame header and envelope, \<open>rszigbee-spec/src/zcl/frame.rs\<close>: the frame-control
  octet packed and unpacked bit by bit, the optional manufacturer code, and the payload left
  as bytes.
\<close>

section \<open>The header\<close>

datatype frame_type = Global | Specific | Reserved u8

definition ft_from_bits :: "u8 \<Rightarrow> frame_type" where
  "ft_from_bits b =
     (let o' = b AND 0b11 in if o' = 0 then Global else if o' = 1 then Specific else Reserved o')"

primrec ft_to_bits :: "frame_type \<Rightarrow> u8" where
  "ft_to_bits Global = 0"
| "ft_to_bits Specific = 1"
| "ft_to_bits (Reserved o') = o' AND 0b11"

datatype direction = ClientToServer | ServerToClient

record zcl_header =
  zh_frame_type :: frame_type
  zh_manufacturer :: "manufacturer_code option"
  zh_direction :: direction
  zh_disable_default_response :: bool
  zh_reserved :: u8
  zh_tsn :: u8
  zh_command :: command_id

definition zh_new_command :: "u8 \<Rightarrow> command_id \<Rightarrow> zcl_header" where
  "zh_new_command tsn command =
     \<lparr>zh_frame_type = Specific, zh_manufacturer = None, zh_direction = ClientToServer,
      zh_disable_default_response = False, zh_reserved = 0, zh_tsn = tsn, zh_command = command\<rparr>"

definition zh_new_global :: "u8 \<Rightarrow> command_id \<Rightarrow> zcl_header" where
  "zh_new_global tsn command =
     \<lparr>zh_frame_type = Global, zh_manufacturer = None, zh_direction = ClientToServer,
      zh_disable_default_response = False, zh_reserved = 0, zh_tsn = tsn, zh_command = command\<rparr>"

definition zh_with_manufacturer :: "manufacturer_code \<Rightarrow> zcl_header \<Rightarrow> zcl_header" where
  "zh_with_manufacturer code h = h\<lparr>zh_manufacturer := Some code\<rparr>"

definition zh_with_ddr :: "bool \<Rightarrow> zcl_header \<Rightarrow> zcl_header" where
  "zh_with_ddr v h = h\<lparr>zh_disable_default_response := v\<rparr>"

definition zh_with_direction :: "direction \<Rightarrow> zcl_header \<Rightarrow> zcl_header" where
  "zh_with_direction d h = h\<lparr>zh_direction := d\<rparr>"

definition zh_decode :: "(codec_error, zcl_header) rd" where
  "zh_decode =
     rd_bind rd_u8 (\<lambda>fc.
       let frame_type = ft_from_bits fc;
           manufacturer_specific = fc AND 0b100 \<noteq> 0;
           direction = (if fc AND 0b1000 = 0 then ClientToServer else ServerToClient);
           ddr = fc AND 0b10000 \<noteq> 0;
           reserved = drop_bit 5 fc AND 0b111 in
       rd_bind
         (if manufacturer_specific
          then rd_bind rd_u16_le (\<lambda>m. rd_return (Some (ManufacturerCode m)))
          else rd_return None)
         (\<lambda>manufacturer.
       rd_bind rd_u8 (\<lambda>tsn.
       rd_bind rd_u8 (\<lambda>command.
         rd_return \<lparr>zh_frame_type = frame_type, zh_manufacturer = manufacturer,
           zh_direction = direction, zh_disable_default_response = ddr,
           zh_reserved = reserved, zh_tsn = tsn, zh_command = CommandId command\<rparr>))))"

definition zh_control :: "zcl_header \<Rightarrow> u8" where
  "zh_control h =
     ft_to_bits (zh_frame_type h)
       OR (if zh_manufacturer h \<noteq> None then 0b100 else 0)
       OR (if zh_direction h = ServerToClient then 0b1000 else 0)
       OR (if zh_disable_default_response h then 0b10000 else 0)
       OR push_bit 5 (zh_reserved h AND 0b111)"

definition zh_encode :: "zcl_header \<Rightarrow> writer \<Rightarrow> writer" where
  "zh_encode h w =
     (let w = w_u8 (zh_control h) w;
          w = (case zh_manufacturer h of
                 Some code \<Rightarrow> w_u16_le (manufacturer_raw code) w | None \<Rightarrow> w);
          w = w_u8 (zh_tsn h) w in
      w_u8 (command_raw (zh_command h)) w)"

definition zh_encoded_len :: "zcl_header \<Rightarrow> nat" where
  "zh_encoded_len h = (if zh_manufacturer h \<noteq> None then 5 else 3)"

section \<open>The frame\<close>

record zcl_frame =
  zf_header :: zcl_header
  zf_payload :: "u8 list"

definition zf_decode :: "u8 list \<Rightarrow> codec_error + zcl_frame" where
  "zf_decode bytes =
     (case zh_decode (reader_new bytes) of
        (Inl e, _) \<Rightarrow> Inl e
      | (Inr header, r) \<Rightarrow> Inr \<lparr>zf_header = header, zf_payload = fst (rd_rest r)\<rparr>)"

definition zf_encode :: "zcl_frame \<Rightarrow> u8 list" where
  "zf_encode f = w_buf (w_bytes (zf_payload f) (zh_encode (zf_header f) writer_new))"

section \<open>The control octet\<close>

text \<open>A header the control octet can carry: two bits of frame type, three reserved bits.\<close>

definition zh_wf :: "zcl_header \<Rightarrow> bool" where
  "zh_wf h \<longleftrightarrow> unat (zh_reserved h) < 8 \<and>
     (\<forall>o'. zh_frame_type h = Reserved o' \<longrightarrow> o' = 2 \<or> o' = 3)"

lemma byte_bitI:
  assumes "\<And>n. n \<in> {0, 1, 2, 3, 4, 5, 6, 7} \<Longrightarrow> bit (a :: u8) n = bit b n"
  shows "a = b"
proof (rule bit_word_eqI)
  fix n assume "n < LENGTH(8)"
  then have "n \<in> {0, 1, 2, 3, 4, 5, 6, 7}" by auto
  then show "bit a n = bit b n" by (rule assms)
qed

lemma and_bits:
  "(fc :: u8) AND 4 = 0 \<longleftrightarrow> \<not> bit fc 2" "fc AND 8 = 0 \<longleftrightarrow> \<not> bit fc 3"
  "fc AND 16 = 0 \<longleftrightarrow> \<not> bit fc 4"
  using and_exp_eq_0_iff_not_bit [of fc 2] and_exp_eq_0_iff_not_bit [of fc 3]
    and_exp_eq_0_iff_not_bit [of fc 4] by simp_all

lemma mask_bits: "(0b11 :: u8) = mask 2" "(0b111 :: u8) = mask 3"
  by (simp_all add: mask_eq_exp_minus_1)

lemma ft_bit_high: "2 \<le> n \<Longrightarrow> \<not> bit (ft_to_bits ft) n"
  by (cases ft) (simp_all add: mask_bits bit_and_iff bit_mask_iff bit_1_iff)

lemma single_bits:
  "bit (4 :: u8) n \<longleftrightarrow> n = 2" "bit (8 :: u8) n \<longleftrightarrow> n = 3" "bit (16 :: u8) n \<longleftrightarrow> n = 4"
proof -
  have "(4 :: u8) = 2 ^ 2" "(8 :: u8) = 2 ^ 3" "(16 :: u8) = 2 ^ 4" by simp_all
  then show "bit (4 :: u8) n \<longleftrightarrow> n = 2" "bit (8 :: u8) n \<longleftrightarrow> n = 3" "bit (16 :: u8) n \<longleftrightarrow> n = 4"
    by (simp_all only: bit_exp_iff) auto
qed

lemma zh_control_bit:
  "bit (zh_control h) n \<longleftrightarrow> n < 8 \<and>
     (bit (ft_to_bits (zh_frame_type h)) n
      \<or> zh_manufacturer h \<noteq> None \<and> n = 2
      \<or> zh_direction h = ServerToClient \<and> n = 3
      \<or> zh_disable_default_response h \<and> n = 4
      \<or> 5 \<le> n \<and> bit (zh_reserved h) (n - 5))"
proof -
  have ifs: "bit (if b then 4 else 0 :: u8) n \<longleftrightarrow> b \<and> n = 2"
    "bit (if b then 8 else 0 :: u8) n \<longleftrightarrow> b \<and> n = 3"
    "bit (if b then 16 else 0 :: u8) n \<longleftrightarrow> b \<and> n = 4" for b
    using single_bits [of n] by auto
  have res: "bit (push_bit 5 (r AND 7) :: u8) n \<longleftrightarrow> n < 8 \<and> 5 \<le> n \<and> bit r (n - 5)" for r
    by (auto simp: bit_push_bit_iff bit_and_iff mask_bits bit_mask_iff)
  have "bit (ft_to_bits ft) n \<longleftrightarrow> n < 8 \<and> bit (ft_to_bits ft) n" for ft
    using bit_imp_le_length [of "ft_to_bits ft" n] by auto
  then show ?thesis unfolding zh_control_def bit_or_iff ifs res by auto
qed

lemma zh_control_flags:
  "zh_control h AND 4 = 0 \<longleftrightarrow> zh_manufacturer h = None"
  "zh_control h AND 8 = 0 \<longleftrightarrow> zh_direction h = ClientToServer"
  "zh_control h AND 16 = 0 \<longleftrightarrow> \<not> zh_disable_default_response h"
  by (auto simp: and_bits zh_control_bit ft_bit_high direction.split intro: direction.exhaust)

lemma zh_control_type:
  assumes "zh_wf h"
  shows "ft_from_bits (zh_control h) = zh_frame_type h"
proof -
  have "zh_control h AND 3 = ft_to_bits (zh_frame_type h)"
    by (rule bit_word_eqI) (auto simp: bit_and_iff mask_bits bit_mask_iff zh_control_bit
      dest: ft_bit_high [THEN notE, rotated] intro: not_le_imp_less)
  then show ?thesis using assms
    by (cases "zh_frame_type h") (auto simp: ft_from_bits_def zh_wf_def)
qed

lemma zh_control_reserved:
  assumes "zh_wf h"
  shows "drop_bit 5 (zh_control h) AND 7 = zh_reserved h"
proof (rule bit_word_eqI)
  fix n assume "n < LENGTH(8)"
  have "zh_reserved h = take_bit 3 (zh_reserved h)"
    using assms unfolding zh_wf_def word_unat_eq_iff unsigned_take_bit_eq
    by (simp add: take_bit_eq_mod)
  then have "bit (zh_reserved h) n \<Longrightarrow> n < 3" by (metis bit_take_bit_iff)
  then show "bit (drop_bit 5 (zh_control h) AND 7) n = bit (zh_reserved h) n"
    by (auto simp: bit_and_iff bit_drop_bit_eq mask_bits bit_mask_iff zh_control_bit ft_bit_high)
qed

section \<open>Headers on the wire\<close>

definition zh_wire :: "zcl_header \<Rightarrow> u8 list" where
  "zh_wire h = zh_control h # (case zh_manufacturer h of
     None \<Rightarrow> [] | Some c \<Rightarrow> le_bytes 2 (manufacturer_raw c)) @ [zh_tsn h, command_raw (zh_command h)]"

lemma zh_encode_wire [wire_simps]: "w_buf (zh_encode h w) = w_buf w @ zh_wire h"
  by (simp add: zh_encode_def zh_wire_def wire_simps split: option.split)

lemma zh_encode_len: "length (zh_wire h) = zh_encoded_len h"
  by (simp add: zh_wire_def zh_encoded_len_def split: option.split)

lemma zh_decode_wire:
  assumes "zh_wf h" "rd_fits pre (zh_wire h @ rest)"
  shows "zh_decode (rd_at pre (zh_wire h @ rest)) = (Inr h, rd_at (pre @ zh_wire h) rest)"
  using assms
  by (cases "zh_manufacturer h"; cases "zh_direction h")
    (simp_all add: zh_decode_def zh_wire_def rd_bind_def rd_u8_Cons field_reads Let_def
      zh_control_type zh_control_flags zh_control_reserved)

text \<open>The header the decoder builds from the control octet and the other fields.\<close>

definition zh_of :: "u8 \<Rightarrow> manufacturer_code option \<Rightarrow> u8 \<Rightarrow> u8 \<Rightarrow> zcl_header" where
  "zh_of fc m tsn command =
     \<lparr>zh_frame_type = ft_from_bits fc, zh_manufacturer = m,
      zh_direction = (if fc AND 8 = 0 then ClientToServer else ServerToClient),
      zh_disable_default_response = (fc AND 16 \<noteq> 0),
      zh_reserved = drop_bit 5 fc AND 7, zh_tsn = tsn, zh_command = CommandId command\<rparr>"

lemma zh_decode_of:
  "zh_decode = rd_bind rd_u8 (\<lambda>fc. rd_bind
     (if fc AND 4 \<noteq> 0 then rd_bind rd_u16_le (\<lambda>m. rd_return (Some (ManufacturerCode m)))
      else rd_return None)
     (\<lambda>m. rd_bind rd_u8 (\<lambda>tsn. rd_bind rd_u8 (\<lambda>c. rd_return (zh_of fc m tsn c)))))"
  by (simp add: zh_decode_def zh_of_def Let_def)

lemma zh_control_of:
  assumes "m \<noteq> None \<longleftrightarrow> fc AND 4 \<noteq> 0"
  shows "zh_control (zh_of fc m t c) = fc"
proof (rule bit_word_eqI)
  fix n assume n: "n < LENGTH(8)"
  have "ft_to_bits (ft_from_bits fc) = fc AND 3"
    by (simp add: ft_from_bits_def Let_def and.assoc)
  then have "bit (ft_to_bits (ft_from_bits fc)) n \<longleftrightarrow> bit fc n \<and> n < 2"
    by (auto simp: bit_and_iff mask_bits bit_mask_iff)
  moreover have "5 \<le> n \<and> bit (drop_bit 5 fc AND 7) (n - 5) \<longleftrightarrow> 5 \<le> n \<and> bit fc n"
    using n by (auto simp: bit_and_iff bit_drop_bit_eq mask_bits bit_mask_iff)
  moreover have "n < 2 \<or> n = 2 \<or> n = 3 \<or> n = 4 \<or> 5 \<le> n" by auto
  ultimately show "bit (zh_control (zh_of fc m t c)) n = bit fc n"
    using n assms by (auto simp: zh_control_bit and_bits zh_of_def)
qed

lemma zh_wf_of: "zh_wf (zh_of fc m t c)"
proof -
  have seven: "unat (x AND 7) < 8" for x :: u8
    unfolding mask_bits take_bit_eq_mask [symmetric] unsigned_take_bit_eq
    by (simp add: take_bit_eq_mod)
  have low: "x AND 3 = 0 \<or> x AND 3 = 1 \<or> x AND 3 = 2 \<or> x AND 3 = 3" for x :: u8
  proof -
    have "unat (x AND 3) < 4"
      unfolding mask_bits take_bit_eq_mask [symmetric] unsigned_take_bit_eq
      by (simp add: take_bit_eq_mod)
    then have "unat (x AND 3) = 0 \<or> unat (x AND 3) = 1 \<or> unat (x AND 3) = 2 \<or> unat (x AND 3) = 3"
      by auto
    then show ?thesis by (elim disjE) (drule unat_eqD, simp)+
  qed
  have "ft_from_bits fc = Reserved o' \<Longrightarrow> o' = 2 \<or> o' = 3" for o'
    unfolding ft_from_bits_def Let_def using low [of fc]
    by (metis frame_type.distinct(3,5) frame_type.inject)
  with seven show ?thesis unfolding zh_wf_def zh_of_def by simp
qed

lemma zh_decode_Inr:
  assumes "zh_decode (rd_at pre rest) = (Inr h, r')" "rd_fits pre rest"
  shows "zh_wf h \<and> (\<exists>tail. rest = zh_wire h @ tail \<and> r' = rd_at (pre @ zh_wire h) tail)"
proof -
  obtain fc bs where rest1: "rest = fc # bs" and fits: "rd_fits (pre @ [fc]) bs"
    and D: "rd_bind
     (if fc AND 4 \<noteq> 0 then rd_bind rd_u16_le (\<lambda>m. rd_return (Some (ManufacturerCode m)))
      else rd_return None)
     (\<lambda>m. rd_bind rd_u8 (\<lambda>tsn. rd_bind rd_u8 (\<lambda>c. rd_return (zh_of fc m tsn c))))
     (rd_at (pre @ [fc]) bs) = (Inr h, r')"
    using assms unfolding zh_decode_of
    by (subst (asm) rd_bind_eq_Inr) (auto simp: f_u8.get_Inr_iff)
  obtain m r1 where m: "m \<noteq> None \<longleftrightarrow> fc AND 4 \<noteq> 0"
    and M: "bs = (case m of None \<Rightarrow> [] | Some x \<Rightarrow> le_bytes 2 (manufacturer_raw x)) @ r1"
    and D2: "rd_bind rd_u8 (\<lambda>tsn. rd_bind rd_u8 (\<lambda>c. rd_return (zh_of fc m tsn c)))
       (rd_at (pre @ fc # (case m of None \<Rightarrow> [] | Some x \<Rightarrow> le_bytes 2 (manufacturer_raw x))) r1)
       = (Inr h, r')"
  proof (cases "fc AND 4 = 0")
    case True
    with D that [of None bs] show ?thesis by (simp add: rd_bind_def)
  next
    case False
    with D fits obtain x r1 where "bs = le_bytes 2 x @ r1"
      "rd_bind rd_u8 (\<lambda>tsn. rd_bind rd_u8 (\<lambda>c. rd_return
         (zh_of fc (Some (ManufacturerCode x)) tsn c)))
       (rd_at (pre @ fc # le_bytes 2 x) r1) = (Inr h, r')"
      by (simp only: if_True simp_thms) (auto simp: rd_bind_eq_Inr [of "rd_bind _ _"]
        rd_bind_eq_Inr [of rd_u16_le] f_u16_le.get_Inr_iff)
    with False that [of "Some (ManufacturerCode x)" r1] show ?thesis by simp
  qed
  from D2 fits M obtain t c tail where h: "h = zh_of fc m t c" and R: "r1 = t # c # tail"
    and r'1: "r' = rd_at (pre @ fc # (case m of None \<Rightarrow> []
      | Some x \<Rightarrow> le_bytes 2 (manufacturer_raw x)) @ [t, c]) tail"
    by (auto simp: rd_bind_eq_Inr f_u8.get_Inr_iff)
  have rest: "rest = fc # (case m of None \<Rightarrow> [] | Some x \<Rightarrow> le_bytes 2 (manufacturer_raw x)) @ t # c # tail"
    using rest1 M R by simp
  note r' = r'1
  have "zh_wire h = fc # (case m of None \<Rightarrow> [] | Some x \<Rightarrow> le_bytes 2 (manufacturer_raw x)) @ [t, c]"
    by (simp add: zh_wire_def h zh_control_of [OF m]) (simp add: zh_of_def)
  with h rest r' zh_wf_of show ?thesis by simp
qed

lemma rd_safe_zh_decode [safe_intros]: "rd_safe zh_decode"
  unfolding zh_decode_def Let_def by (intro safe_intros) (auto intro!: safe_intros)

lemma zf_decode_encode:
  assumes "zh_wf (zf_header f)" "length (zf_encode f) \<le> usize_max"
  shows "zf_decode (zf_encode f) = Inr f"
proof -
  have w: "zf_encode f = zh_wire (zf_header f) @ zf_payload f" by (simp add: zf_encode_def wire_simps)
  with zh_decode_wire [of "zf_header f" "[]" "zf_payload f"] assms show ?thesis
    by (simp add: zf_decode_def reader_new_at rd_fits_def rd_rest_at)
qed

section \<open>Properties\<close>

text \<open>
  C21: frame decoding and encoding are inverse to each other, reserved bits and reserved frame
  types included: decoding succeeds with a frame exactly when the bytes are that frame's
  encoding and its header is one the control octet can carry. So no accepted frame is rewritten
  on the way through, and two different buffers never decode to the same frame.
\<close>

theorem zcl_frame_decode_iff:
  assumes "length bytes \<le> usize_max"
  shows "zf_decode bytes = Inr f \<longleftrightarrow> zh_wf (zf_header f) \<and> bytes = zf_encode f"
proof
  assume "zf_decode bytes = Inr f"
  then obtain r where "zh_decode (rd_at [] bytes) = (Inr (zf_header f), r)" "zf_payload f = fst (rd_rest r)"
    by (auto simp: zf_decode_def reader_new_at split: prod.splits sum.splits)
  with zh_decode_Inr [OF this(1)] assms show "zh_wf (zf_header f) \<and> bytes = zf_encode f"
    by (auto simp: rd_fits_def zf_encode_def wire_simps)
next
  assume r: "zh_wf (zf_header f) \<and> bytes = zf_encode f"
  with zf_decode_encode [of f] assms show "zf_decode bytes = Inr f" by simp
qed

theorem zcl_frame_decode_iff_witness:
  "zf_decode [0x1c, 0x0b, 0x10, 7, 0x0a, 1, 2]
     = Inr \<lparr>zf_header = zh_with_manufacturer (ManufacturerCode 0x100b) (zh_with_ddr True
         (zh_with_direction ServerToClient (zh_new_global 7 (CommandId 0x0a)))),
         zf_payload = [1, 2]\<rparr> \<longleftrightarrow>
   zh_wf (zf_header \<lparr>zf_header = zh_with_manufacturer (ManufacturerCode 0x100b) (zh_with_ddr True
         (zh_with_direction ServerToClient (zh_new_global 7 (CommandId 0x0a)))),
         zf_payload = [1, 2]\<rparr>) \<and>
   [0x1c, 0x0b, 0x10, 7, 0x0a, 1, 2]
     = zf_encode \<lparr>zf_header = zh_with_manufacturer (ManufacturerCode 0x100b) (zh_with_ddr True
         (zh_with_direction ServerToClient (zh_new_global 7 (CommandId 0x0a)))),
         zf_payload = [1, 2]\<rparr>"
  by (rule zcl_frame_decode_iff) simp

end
