(* ===== verification/Zcl_Registry.thy ===== *)
theory Zcl_Registry
  imports Std_Maps Zcl_Types
begin

text \<open>
  The cluster registry, \<open>rszigbee-spec/src/zcl/registry.rs\<close>: cluster definitions with their
  attributes and commands, the builders, and the lookup that prefers a device's own definition
  of a cluster. The generated table of built-in clusters is an argument of
  \<open>cr_with_builtins\<close>.
\<close>

section \<open>Definitions of clusters\<close>

record attr_def =
  ad_id :: attr_id
  ad_name :: string
  ad_ty :: zcl_type
  ad_manufacturer :: "manufacturer_code option"

record param_def =
  pd_name :: string
  pd_ty :: zcl_type

record command_def =
  cmd_id :: command_id
  cmd_name :: string
  cmd_params :: "param_def list"
  cmd_untyped_parameters :: bool

record cluster_def =
  cd_id :: cluster_id
  cd_name :: string
  cd_manufacturer :: "manufacturer_code option"
  cd_attributes :: "(u16, attr_def) btree"
  cd_commands :: "(u8, command_def) btree"
  cd_responses :: "(u8, command_def) btree"

definition cd_new :: "u16 \<Rightarrow> string \<Rightarrow> cluster_def" where
  "cd_new i name =
     \<lparr>cd_id = ClusterId i, cd_name = name, cd_manufacturer = None, cd_attributes = [],
      cd_commands = [], cd_responses = []\<rparr>"

definition cd_attr :: "u16 \<Rightarrow> string \<Rightarrow> zcl_type \<Rightarrow> cluster_def \<Rightarrow> cluster_def" where
  "cd_attr i name ty c =
     c\<lparr>cd_attributes := bt_insert i
         \<lparr>ad_id = AttrId i, ad_name = name, ad_ty = ty, ad_manufacturer = None\<rparr> (cd_attributes c)\<rparr>"

definition cd_cmd_untyped :: "u8 \<Rightarrow> string \<Rightarrow> cluster_def \<Rightarrow> cluster_def" where
  "cd_cmd_untyped i name c =
     c\<lparr>cd_commands := bt_insert i
         \<lparr>cmd_id = CommandId i, cmd_name = name, cmd_params = [], cmd_untyped_parameters = True\<rparr>
         (cd_commands c)\<rparr>"

definition cd_rsp_untyped :: "u8 \<Rightarrow> string \<Rightarrow> cluster_def \<Rightarrow> cluster_def" where
  "cd_rsp_untyped i name c =
     c\<lparr>cd_responses := bt_insert i
         \<lparr>cmd_id = CommandId i, cmd_name = name, cmd_params = [], cmd_untyped_parameters = True\<rparr>
         (cd_responses c)\<rparr>"

definition cd_def :: "u8 \<Rightarrow> string \<Rightarrow> (string \<times> zcl_type) list \<Rightarrow> command_def" where
  "cd_def i name params =
     \<lparr>cmd_id = CommandId i, cmd_name = name,
      cmd_params = map (\<lambda>(n, t). \<lparr>pd_name = n, pd_ty = t\<rparr>) params,
      cmd_untyped_parameters = False\<rparr>"

definition cd_cmd :: "u8 \<Rightarrow> string \<Rightarrow> (string \<times> zcl_type) list \<Rightarrow> cluster_def \<Rightarrow> cluster_def" where
  "cd_cmd i name params c = c\<lparr>cd_commands := bt_insert i (cd_def i name params) (cd_commands c)\<rparr>"

definition cd_rsp :: "u8 \<Rightarrow> string \<Rightarrow> (string \<times> zcl_type) list \<Rightarrow> cluster_def \<Rightarrow> cluster_def" where
  "cd_rsp i name params c = c\<lparr>cd_responses := bt_insert i (cd_def i name params) (cd_responses c)\<rparr>"

definition cd_attr_by_name :: "string \<Rightarrow> cluster_def \<Rightarrow> attr_def option" where
  "cd_attr_by_name name c = find_value (\<lambda>a. ad_name a = name) (cd_attributes c)"

definition cd_cmd_by_name :: "string \<Rightarrow> cluster_def \<Rightarrow> command_def option" where
  "cd_cmd_by_name name c = find_value (\<lambda>d. cmd_name d = name) (cd_commands c)"

section \<open>The registry\<close>

record cluster_registry =
  cr_global :: "(u16, cluster_def) btree"
  cr_per_device :: "(ieee, (u16, cluster_def) btree) btree"

definition cr_new :: cluster_registry where
  "cr_new = \<lparr>cr_global = [], cr_per_device = []\<rparr>"

definition cr_insert_global :: "cluster_def \<Rightarrow> cluster_registry \<Rightarrow> cluster_registry" where
  "cr_insert_global d r = r\<lparr>cr_global := bt_insert (cluster_raw (cd_id d)) d (cr_global r)\<rparr>"

definition cr_with_builtins :: "cluster_def list \<Rightarrow> cluster_registry" where
  "cr_with_builtins clusters = fold cr_insert_global clusters cr_new"

definition cr_insert_for_device :: "ieee \<Rightarrow> cluster_def \<Rightarrow> cluster_registry \<Rightarrow> cluster_registry" where
  "cr_insert_for_device i d r =
     (let m = (case bt_get (cr_per_device r) i of Some m \<Rightarrow> m | None \<Rightarrow> []) in
      r\<lparr>cr_per_device := bt_insert i (bt_insert (cluster_raw (cd_id d)) d m) (cr_per_device r)\<rparr>)"

definition cr_clear_device :: "ieee \<Rightarrow> cluster_registry \<Rightarrow> cluster_registry" where
  "cr_clear_device i r = r\<lparr>cr_per_device := bt_remove i (cr_per_device r)\<rparr>"

definition cr_get :: "cluster_registry \<Rightarrow> ieee option \<Rightarrow> cluster_id \<Rightarrow> cluster_def option" where
  "cr_get r i c =
     (case Option.bind (Option.bind i (bt_get (cr_per_device r))) (\<lambda>m. bt_get m (cluster_raw c)) of
        Some d \<Rightarrow> Some d
      | None \<Rightarrow> bt_get (cr_global r) (cluster_raw c))"

definition cr_get_by_name :: "cluster_registry \<Rightarrow> ieee option \<Rightarrow> string \<Rightarrow> cluster_def option" where
  "cr_get_by_name r i name =
     (case Option.bind (Option.bind i (bt_get (cr_per_device r)))
             (find_value (\<lambda>c. cd_name c = name)) of
        Some d \<Rightarrow> Some d
      | None \<Rightarrow> find_value (\<lambda>c. cd_name c = name) (cr_global r))"

definition cr_attr :: "cluster_registry \<Rightarrow> ieee option \<Rightarrow> cluster_id \<Rightarrow> attr_id \<Rightarrow> attr_def option" where
  "cr_attr r i c a =
     Option.bind (cr_get r i c) (\<lambda>d. bt_get (cd_attributes d) (attr_raw a))"

definition cr_global_len :: "cluster_registry \<Rightarrow> nat" where
  "cr_global_len r = length (cr_global r)"

section \<open>Well-formed definitions and registries\<close>

text \<open>Every entry is filed under its own identifier, in maps sorted by key.\<close>

definition attrs_wf :: "(u16, attr_def) btree \<Rightarrow> bool" where
  "attrs_wf m \<longleftrightarrow> bt_wf m \<and> (\<forall>(k, a) \<in> set m. attr_raw (ad_id a) = k)"

definition cmds_wf :: "(u8, command_def) btree \<Rightarrow> bool" where
  "cmds_wf m \<longleftrightarrow> bt_wf m \<and>
     (\<forall>(k, c) \<in> set m. command_raw (cmd_id c) = k \<and> (cmd_untyped_parameters c \<longrightarrow> cmd_params c = []))"

definition cd_wf :: "cluster_def \<Rightarrow> bool" where
  "cd_wf c \<longleftrightarrow> attrs_wf (cd_attributes c) \<and> cmds_wf (cd_commands c) \<and> cmds_wf (cd_responses c)"

definition clusters_wf :: "(u16, cluster_def) btree \<Rightarrow> bool" where
  "clusters_wf m \<longleftrightarrow> bt_wf m \<and> (\<forall>(k, d) \<in> set m. cluster_raw (cd_id d) = k \<and> cd_wf d)"

definition cr_wf :: "cluster_registry \<Rightarrow> bool" where
  "cr_wf r \<longleftrightarrow> clusters_wf (cr_global r) \<and> bt_wf (cr_per_device r) \<and>
     (\<forall>m \<in> snd ` set (cr_per_device r). clusters_wf m)"

lemma bt_mem_insert: "e \<in> set (bt_insert k v m) \<Longrightarrow> e = (k, v) \<or> e \<in> set m"
  by (induction k v m rule: bt_insert.induct) (auto split: if_splits)

lemma bt_mem_remove: "e \<in> set (bt_remove k m) \<Longrightarrow> e \<in> set m"
  by (simp add: bt_remove_def)

lemma attrs_wf_insert:
  "attrs_wf m \<Longrightarrow> attr_raw (ad_id a) = k \<Longrightarrow> attrs_wf (bt_insert k a m)"
  by (auto simp: attrs_wf_def bt_wf_insert dest!: bt_mem_insert)

lemma cmds_wf_insert:
  "cmds_wf m \<Longrightarrow> command_raw (cmd_id c) = k \<Longrightarrow> (cmd_untyped_parameters c \<longrightarrow> cmd_params c = [])
   \<Longrightarrow> cmds_wf (bt_insert k c m)"
  by (auto simp: cmds_wf_def bt_wf_insert dest!: bt_mem_insert)

lemma clusters_wf_insert:
  "clusters_wf m \<Longrightarrow> cluster_raw (cd_id d) = k \<Longrightarrow> cd_wf d \<Longrightarrow> clusters_wf (bt_insert k d m)"
  by (auto simp: clusters_wf_def bt_wf_insert dest!: bt_mem_insert)

lemma clusters_wf_Nil: "clusters_wf []"
  by (simp add: clusters_wf_def bt_wf_def)

lemma clusters_wf_single: "cluster_raw (cd_id d) = k \<Longrightarrow> cd_wf d \<Longrightarrow> clusters_wf [(k, d)]"
  by (simp add: clusters_wf_def bt_wf_def)

lemma clusters_wf_get: "clusters_wf m \<Longrightarrow> bt_get m k = Some d \<Longrightarrow> cluster_raw (cd_id d) = k \<and> cd_wf d"
  by (auto simp: clusters_wf_def dest!: map_of_SomeD)

lemma clusters_wf_mem: "(k, d) \<in> set m \<Longrightarrow> clusters_wf m \<Longrightarrow> cluster_raw (cd_id d) = k \<and> cd_wf d"
  by (auto simp: clusters_wf_def)

lemma cd_wf_builders:
  "cd_wf (cd_new i name)"
  "cd_wf c \<Longrightarrow> cd_wf (cd_attr k name ty c)"
  "cd_wf c \<Longrightarrow> cd_wf (cd_cmd_untyped b name c)"
  "cd_wf c \<Longrightarrow> cd_wf (cd_rsp_untyped b name c)"
  "cd_wf c \<Longrightarrow> cd_wf (cd_cmd b name params c)"
  "cd_wf c \<Longrightarrow> cd_wf (cd_rsp b name params c)"
  by (auto simp: cd_wf_def cd_new_def cd_attr_def cd_cmd_untyped_def cd_rsp_untyped_def
      cd_cmd_def cd_rsp_def cd_def_def attrs_wf_insert cmds_wf_insert)
    (simp_all add: attrs_wf_def cmds_wf_def bt_wf_def)

lemma cr_wf_new: "cr_wf cr_new"
  by (simp add: cr_wf_def cr_new_def clusters_wf_Nil) (simp add: bt_wf_def)

lemma cr_wf_insert_global: "cr_wf r \<Longrightarrow> cd_wf d \<Longrightarrow> cr_wf (cr_insert_global d r)"
  by (simp add: cr_wf_def cr_insert_global_def clusters_wf_insert)

lemma cr_wf_insert_for_device: "cr_wf r \<Longrightarrow> cd_wf d \<Longrightarrow> cr_wf (cr_insert_for_device i d r)"
  by (auto simp: cr_wf_def cr_insert_for_device_def Let_def bt_wf_insert clusters_wf_insert
      clusters_wf_single dest!: bt_mem_insert map_of_SomeD split: option.splits)

lemma cr_wf_clear_device: "cr_wf r \<Longrightarrow> cr_wf (cr_clear_device i r)"
  by (auto simp: cr_wf_def cr_clear_device_def bt_wf_remove dest!: bt_mem_remove)

lemma cr_wf_with_builtins: "list_all cd_wf cs \<Longrightarrow> cr_wf (cr_with_builtins cs)"
proof -
  have "list_all cd_wf cs \<Longrightarrow> cr_wf r \<Longrightarrow> cr_wf (fold cr_insert_global cs r)" for r
    by (induction cs arbitrary: r) (auto intro: cr_wf_insert_global)
  then show "list_all cd_wf cs \<Longrightarrow> cr_wf (cr_with_builtins cs)"
    by (simp add: cr_with_builtins_def cr_wf_new)
qed

section \<open>What the registry promises\<close>

text \<open>
  The registry as a client sees it: a table per reader, where the reader is a device or nobody
  in particular. A device's own definitions are laid over the global ones.
\<close>

definition cr_view :: "cluster_registry \<Rightarrow> ieee option \<Rightarrow> u16 \<Rightarrow> cluster_def option" where
  "cr_view r i = (\<lambda>k. cr_get r i (ClusterId k))"

definition cr_own :: "cluster_registry \<Rightarrow> ieee \<Rightarrow> u16 \<Rightarrow> cluster_def option" where
  "cr_own r i = (case bt_get (cr_per_device r) i of Some m \<Rightarrow> bt_get m | None \<Rightarrow> Map.empty)"

lemma cr_view_layers:
  "cr_view r None = bt_get (cr_global r)"
  "cr_view r (Some i) = bt_get (cr_global r) ++ cr_own r i"
  by (auto simp: cr_view_def cr_get_def cr_own_def map_add_def split: option.splits)

lemma cr_own_insert_for_device:
  "cr_own (cr_insert_for_device i d r) j =
     (if j = i then (cr_own r i)(cluster_raw (cd_id d) \<mapsto> d) else cr_own r j)"
  by (auto simp: cr_own_def cr_insert_for_device_def Let_def map_simps split: option.splits)

lemma cr_own_clear_device:
  "cr_own (cr_clear_device i r) j = (if j = i then Map.empty else cr_own r j)"
  by (auto simp: cr_own_def cr_clear_device_def map_simps split: option.splits)

lemma cr_own_insert_global: "cr_own (cr_insert_global d r) j = cr_own r j"
  by (simp add: cr_own_def cr_insert_global_def)

lemma cr_global_ops:
  "cr_global (cr_insert_for_device i d r) = cr_global r"
  "cr_global (cr_clear_device i r) = cr_global r"
  "bt_get (cr_global (cr_insert_global d r)) = (bt_get (cr_global r))(cluster_raw (cd_id d) \<mapsto> d)"
  by (simp_all add: cr_insert_for_device_def cr_clear_device_def cr_insert_global_def Let_def map_simps)

lemmas cr_views = cr_view_layers cr_own_insert_for_device cr_own_clear_device cr_own_insert_global
  cr_global_ops

section \<open>Properties\<close>

text \<open>
  a device's custom cluster is the device's alone. After registering one, that device
  resolves the cluster to it and everything else as before, while every other device and the
  device-independent lookup are untouched; dropping a device's clusters leaves it exactly the
  global table; a global registration reaches every device that has no cluster of its own
  under that number.
\<close>

theorem registry_override_isolation:
  "cr_view (cr_insert_for_device i d r) j = (if j = Some i
     then (cr_view r j)(cluster_raw (cd_id d) \<mapsto> d) else cr_view r j) \<and>
   cr_view (cr_clear_device i r) j = (if j = Some i then cr_view r None else cr_view r j) \<and>
   cr_view (cr_insert_global d r) (Some i) k =
     (if k = cluster_raw (cd_id d) \<and> cr_own r i k = None then Some d else cr_view r (Some i) k)"
  by (cases j) (auto simp: cr_views map_add_def split: option.splits intro!: ext)

text \<open>
  in a registry built by its own operations every lookup by number returns a definition
  filed under that number, whose attributes and commands are filed under theirs, so what a
  decoder is told of an attribute is about that attribute. The operations keep this.
\<close>

theorem registry_lookup_sound:
  assumes "cr_wf r" "cr_get r i c = Some d"
  shows "cd_id d = c \<and> cd_wf d \<and> (\<forall>a def. cr_attr r i c a = Some def \<longrightarrow> ad_id def = a)"
proof -
  have "cluster_raw (cd_id d) = cluster_raw c \<and> cd_wf d"
    using assms
    by (auto simp: cr_get_def cr_wf_def bind_eq_Some_conv dest!: map_of_SomeD
        dest!: bspec dest: clusters_wf_mem split: option.splits)
  then have 1: "cd_id d = c" "cd_wf d" by (auto intro: cluster_id.expand)
  then have "attrs_wf (cd_attributes d)" by (simp add: cd_wf_def)
  then have "\<forall>a def. cr_attr r i c a = Some def \<longrightarrow> ad_id def = a"
    using assms(2)
    by (auto simp: cr_attr_def attrs_wf_def dest!: map_of_SomeD intro: attr_id.expand)
  with 1 show ?thesis by simp
qed

lemma cr_wf_example:
  "cr_wf (cr_insert_for_device (Ieee 1) (cd_attr 3 ''x'' (TUint 2) (cd_new 0xfc03 ''m'')) cr_new)"
  by (intro cr_wf_insert_for_device cr_wf_new cd_wf_builders)

theorem registry_lookup_sound_witness:
  "cd_id (cd_attr 3 ''x'' (TUint 2) (cd_new 0xfc03 ''m'')) = ClusterId 0xfc03"
  by (rule registry_lookup_sound [OF cr_wf_example, of "Some (Ieee 1)", THEN conjunct1])
    (simp add: cr_get_def cr_insert_for_device_def cr_new_def cd_new_def cd_attr_def)

text \<open>
  A device's definition of a cluster replaces the global one as a whole. An attribute the
  device's definition does not list is unknown for that device, whatever the global definition
  says of it, so overriding one attribute of a standard cluster hides the others.
\<close>

theorem registry_override_hides_attributes:
  "cr_attr (cr_insert_for_device i d r) (Some i) (cd_id d) a = bt_get (cd_attributes d) (attr_raw a)"
  using cr_own_insert_for_device [of i d r i]
  by (simp add: cr_attr_def cr_get_def cr_own_def cr_insert_for_device_def Let_def map_simps)

end
