(* ===== verification/Zdo.thy ===== *)
theory Zdo
  imports Codec
begin

text \<open>
  Zigbee Device Objects, \<open>rszigbee-spec/src/zdo.rs\<close> and \<open>zdo/codec.rs\<close>: cluster identifiers
  and statuses, the request encoders, and the decoders of the responses the interview reads.
\<close>

section \<open>Identifiers and statuses\<close>

datatype zdo_cluster = ZdoClusterId (zdo_raw: u16)

definition NODE_DESC_REQ :: zdo_cluster where "NODE_DESC_REQ = ZdoClusterId 0x0002"
definition SIMPLE_DESC_REQ :: zdo_cluster where "SIMPLE_DESC_REQ = ZdoClusterId 0x0004"
definition ACTIVE_EP_REQ :: zdo_cluster where "ACTIVE_EP_REQ = ZdoClusterId 0x0005"
definition BIND_REQ :: zdo_cluster where "BIND_REQ = ZdoClusterId 0x0021"
definition MGMT_LEAVE_REQ :: zdo_cluster where "MGMT_LEAVE_REQ = ZdoClusterId 0x0034"
definition MGMT_PERMIT_JOINING_REQ :: zdo_cluster where
  "MGMT_PERMIT_JOINING_REQ = ZdoClusterId 0x0036"

definition zdo_response :: "zdo_cluster \<Rightarrow> zdo_cluster" where
  "zdo_response c = ZdoClusterId (zdo_raw c OR 0x8000)"

definition zdo_is_response :: "zdo_cluster \<Rightarrow> bool" where
  "zdo_is_response c \<longleftrightarrow> zdo_raw c AND 0x8000 \<noteq> 0"

definition zdo_request :: "zdo_cluster \<Rightarrow> zdo_cluster" where
  "zdo_request c = ZdoClusterId (zdo_raw c AND 0x7fff)"

definition response_for :: "zdo_cluster \<Rightarrow> zdo_cluster" where
  "response_for request = zdo_response request"

datatype zdo_status =
    ZSuccess | ZNotSupported | ZDeviceNotFound | ZInvalidEndpoint | ZNoEntry | ZOther u8

definition zs_from_u8 :: "u8 \<Rightarrow> zdo_status" where
  "zs_from_u8 v =
     (if v = 0x00 then ZSuccess else if v = 0x84 then ZNotSupported
      else if v = 0x81 then ZDeviceNotFound else if v = 0x82 then ZInvalidEndpoint
      else if v = 0x88 then ZNoEntry else ZOther v)"

definition zs_is_success :: "zdo_status \<Rightarrow> bool" where
  "zs_is_success s \<longleftrightarrow> s = ZSuccess"

datatype zdo_error =
    ZStatus (zst_sequence: u8) (zst_status: zdo_status)
  | ZTruncated (ztr_what: string) (ztr_claimed: nat) (ztr_available: nat)
  | ZCodec codec_error

section \<open>Requests\<close>

definition encode_node_desc_req :: "u8 \<Rightarrow> nwk \<Rightarrow> u8 list" where
  "encode_node_desc_req seq target = w_buf (w_u16_le (nwk_raw target) (w_u8 seq writer_new))"

definition encode_active_ep_req :: "u8 \<Rightarrow> nwk \<Rightarrow> u8 list" where
  "encode_active_ep_req seq target = w_buf (w_u16_le (nwk_raw target) (w_u8 seq writer_new))"

definition encode_simple_desc_req :: "u8 \<Rightarrow> nwk \<Rightarrow> endpoint_id \<Rightarrow> u8 list" where
  "encode_simple_desc_req seq target ep =
     w_buf (w_u8 (endpoint_raw ep) (w_u16_le (nwk_raw target) (w_u8 seq writer_new)))"

definition encode_permit_joining_req :: "u8 \<Rightarrow> u8 \<Rightarrow> bool \<Rightarrow> u8 list" where
  "encode_permit_joining_req seq seconds tc_significance =
     w_buf (w_u8 (of_bool tc_significance) (w_u8 seconds (w_u8 seq writer_new)))"

definition encode_leave_req :: "u8 \<Rightarrow> ieee \<Rightarrow> bool \<Rightarrow> bool \<Rightarrow> u8 list" where
  "encode_leave_req seq target remove_children rejoin =
     (let flags = push_bit 6 (of_bool remove_children) OR push_bit 7 (of_bool rejoin) in
      w_buf (w_u8 flags (w_ieee_le target (w_u8 seq writer_new))))"

definition encode_bind_req ::
  "u8 \<Rightarrow> ieee \<Rightarrow> endpoint_id \<Rightarrow> cluster_id \<Rightarrow> ieee \<Rightarrow> endpoint_id \<Rightarrow> u8 list" where
  "encode_bind_req sequence source source_endpoint cluster destination destination_endpoint =
     (let w = w_u8 sequence writer_new;
          w = w_u64_le (ieee_raw source) w;
          w = w_u8 (endpoint_raw source_endpoint) w;
          w = w_u16_le (cluster_raw cluster) w;
          w = w_u8 0x03 w;
          w = w_u64_le (ieee_raw destination) w;
          w = w_u8 (endpoint_raw destination_endpoint) w in
      w_buf w)"

section \<open>Responses\<close>

datatype logical_type = Coordinator | Router | EndDevice | LReserved u8

definition lt_from_bits :: "u8 \<Rightarrow> logical_type" where
  "lt_from_bits b =
     (let o' = b AND 0b111 in
      if o' = 0 then Coordinator else if o' = 1 then Router else if o' = 2 then EndDevice
      else LReserved o')"

record node_descriptor =
  nd_sequence :: u8
  nd_of :: nwk
  nd_logical_type :: logical_type
  nd_manufacturer_code :: u16
  nd_max_incoming_transfer_size :: u16
  nd_mac_capability_flags :: u8
  nd_server_mask :: u16

definition nd_rx_on_when_idle :: "node_descriptor \<Rightarrow> bool" where
  "nd_rx_on_when_idle d \<longleftrightarrow> nd_mac_capability_flags d AND 0b1000 \<noteq> 0"

definition nd_mains_powered :: "node_descriptor \<Rightarrow> bool" where
  "nd_mains_powered d \<longleftrightarrow> nd_mac_capability_flags d AND 0b100 \<noteq> 0"

text \<open>A read whose error is wrapped by \<open>?\<close>.\<close>

definition zq :: "(codec_error, 'a) rd \<Rightarrow> (zdo_error, 'a) rd" where
  "zq m = rd_map_err (\<lambda>e _. ZCodec e) m"

text \<open>The sequence and status every response starts with; a refusal ends the decoding.\<close>

definition zdo_head :: "(u8 \<Rightarrow> (zdo_error, 'a) rd) \<Rightarrow> (zdo_error, 'a) rd" where
  "zdo_head k =
     rd_bind (zq rd_u8) (\<lambda>sequence.
     rd_bind (zq rd_u8) (\<lambda>v.
       let status = zs_from_u8 v in
       if \<not> zs_is_success status then rd_fail (ZStatus sequence status) else k sequence))"

definition decode_bind_rsp :: "u8 list \<Rightarrow> zdo_error + u8" where
  "decode_bind_rsp payload = fst (zdo_head rd_return (reader_new payload))"

definition decode_node_desc_rsp :: "u8 list \<Rightarrow> zdo_error + node_descriptor" where
  "decode_node_desc_rsp payload = fst (zdo_head (\<lambda>sequence.
     rd_bind (zq rd_u16_le) (\<lambda>of'.
     rd_bind (zq rd_u8) (\<lambda>byte0.
     rd_bind (zq rd_u8) (\<lambda>_.
     rd_bind (zq rd_u8) (\<lambda>mac.
     rd_bind (zq rd_u16_le) (\<lambda>mfr.
     rd_bind (zq rd_u8) (\<lambda>_.
     rd_bind (zq rd_u16_le) (\<lambda>max_in.
     rd_bind (zq rd_u16_le) (\<lambda>mask.
       rd_return \<lparr>nd_sequence = sequence, nd_of = Nwk of', nd_logical_type = lt_from_bits byte0,
         nd_manufacturer_code = mfr, nd_max_incoming_transfer_size = max_in,
         nd_mac_capability_flags = mac, nd_server_mask = mask\<rparr>)))))))))
     (reader_new payload))"

record active_endpoints =
  ae_sequence :: u8
  ae_of :: nwk
  ae_endpoints :: "endpoint_id list"

definition decode_active_ep_rsp :: "u8 list \<Rightarrow> zdo_error + active_endpoints" where
  "decode_active_ep_rsp payload = fst (zdo_head (\<lambda>sequence.
     rd_bind (zq rd_u16_le) (\<lambda>of'.
     rd_bind (zq rd_u8) (\<lambda>count.
     rd_bind (rd_map_err
         (\<lambda>_ r. ZTruncated ''active endpoint list'' (unat count) (rd_remaining r))
         (rd_bytes (unat count))) (\<lambda>bytes.
       rd_return \<lparr>ae_sequence = sequence, ae_of = Nwk of',
         ae_endpoints = map EndpointId bytes\<rparr>))))
     (reader_new payload))"

record simple_descriptor =
  sd_sequence :: u8
  sd_of :: nwk
  sd_endpoint :: endpoint_id
  sd_profile :: profile_id
  sd_device_id :: u16
  sd_device_version :: u8
  sd_input_clusters :: "cluster_id list"
  sd_output_clusters :: "cluster_id list"

definition rd_cluster :: "(codec_error, cluster_id) rd" where
  "rd_cluster = rd_bind rd_u16_le (\<lambda>x. rd_return (ClusterId x))"

definition read_cluster_list :: "string \<Rightarrow> (zdo_error, cluster_id list) rd" where
  "read_cluster_list what =
     rd_bind (zq rd_u8) (\<lambda>c r.
       let count = unat c; needed = min usize_max (count * 2) in
       if rd_remaining r < needed then rd_fail (ZTruncated what needed (rd_remaining r)) r
       else zq (rd_times count rd_cluster) r)"

definition decode_simple_desc_rsp :: "u8 list \<Rightarrow> zdo_error + simple_descriptor" where
  "decode_simple_desc_rsp payload = fst (zdo_head (\<lambda>sequence.
     rd_bind (zq rd_u16_le) (\<lambda>of'.
     rd_bind (zq rd_u8) (\<lambda>_.
     rd_bind (zq rd_u8) (\<lambda>ep.
     rd_bind (zq rd_u16_le) (\<lambda>profile.
     rd_bind (zq rd_u16_le) (\<lambda>device_id.
     rd_bind (zq rd_u8) (\<lambda>ver.
     rd_bind (read_cluster_list ''input cluster list'') (\<lambda>ins.
     rd_bind (read_cluster_list ''output cluster list'') (\<lambda>outs.
       rd_return \<lparr>sd_sequence = sequence, sd_of = Nwk of', sd_endpoint = EndpointId ep,
         sd_profile = ProfileId profile, sd_device_id = device_id,
         sd_device_version = ver AND 0x0f, sd_input_clusters = ins,
         sd_output_clusters = outs\<rparr>)))))))))
     (reader_new payload))"

section \<open>Reading the fields\<close>

definition cluster_bytes :: "cluster_id \<Rightarrow> u8 list" where
  "cluster_bytes c = le_bytes 2 (cluster_raw c)"

interpretation f_cluster: wire_field 2 cluster_bytes "\<lambda>c. w_u16_le (cluster_raw c)" rd_cluster "\<lambda>_. True"
proof
  fix a :: cluster_id and pre rest
  assume "rd_fits pre (cluster_bytes a @ rest)"
  then show "rd_cluster (rd_at pre (cluster_bytes a @ rest))
      = (Inr a, rd_at (pre @ cluster_bytes a) rest)"
    by (simp add: rd_cluster_def rd_bind_def cluster_bytes_def field_reads)
next
  fix pre rest assume "length rest < 2" "rd_fits pre rest"
  then show "rd_cluster (rd_at pre rest) = (Inl (Eof 2 (length pre) (length rest)), rd_at pre rest)"
    using f_u16_le.get_short [where pre = pre and rest = rest] by (simp add: rd_cluster_def rd_bind_def)
next
  fix bs :: "u8 list" assume "length bs = 2"
  then obtain x where "le_bytes 2 (x :: u16) = bs" using f_u16_le.get_surj by blast
  then show "\<exists>a. True \<and> cluster_bytes a = bs"
    by (intro exI [of _ "ClusterId x"]) (simp add: cluster_bytes_def)
qed (simp_all add: w_u16_le_def cluster_bytes_def)

lemma zq_Inr_iff [simp]: "zq m r = (Inr a, r') \<longleftrightarrow> m r = (Inr a, r')"
  by (simp add: zq_def)

lemma length_cluster_bytes [simp]: "length (concat (map cluster_bytes cs)) = 2 * length cs"
  by (induction cs) (simp_all add: cluster_bytes_def)

definition cluster_list_bytes :: "cluster_id list \<Rightarrow> u8 list" where
  "cluster_list_bytes cs = of_nat (length cs) # concat (map cluster_bytes cs)"

lemma read_cluster_list_Inr_iff:
  assumes "rd_fits pre rest"
  shows "read_cluster_list what (rd_at pre rest) = (Inr cs, r') \<longleftrightarrow>
    length cs < 256 \<and> (\<exists>tail. rest = cluster_list_bytes cs @ tail
       \<and> r' = rd_at (pre @ cluster_list_bytes cs) tail)"
proof (cases rest)
  case Nil
  then show ?thesis using assms
    by (simp add: read_cluster_list_def rd_bind_def zq_def rd_map_err_def rd_u8_at
        cluster_list_bytes_def)
next
  case (Cons c bs)
  have c: "unat c < 256" by (rule unat_byte_bound)
  have iff: "c = of_nat (length cs) \<and> length cs < 256 \<longleftrightarrow> length cs = unat c"
    using c by (auto simp: unat_of_nat)
  have "read_cluster_list what (rd_at pre rest) = (Inr cs, r') \<longleftrightarrow>
      2 * unat c \<le> length bs \<and> rd_times (unat c) rd_cluster (rd_at (pre @ [c]) bs) = (Inr cs, r')"
    using assms c Cons
    by (auto simp: read_cluster_list_def rd_bind_def zq_def rd_map_err_def rd_u8_Cons Let_def
        rd_remaining_at not_less split: prod.splits sum.splits if_splits)
  also have "\<dots> \<longleftrightarrow> length cs = unat c \<and> (\<exists>tail. bs = concat (map cluster_bytes cs) @ tail
      \<and> r' = rd_at (pre @ c # concat (map cluster_bytes cs)) tail)"
    using assms Cons by (auto simp: f_cluster.rd_times_Inr_iff)
  also have "\<dots> \<longleftrightarrow> length cs < 256 \<and> (\<exists>tail. rest = cluster_list_bytes cs @ tail
       \<and> r' = rd_at (pre @ cluster_list_bytes cs) tail)"
    unfolding iff [symmetric] cluster_list_bytes_def using Cons by auto
  finally show ?thesis .
qed

section \<open>Identifiers\<close>

lemma bit15: "(0x8000 :: u16) = 2 ^ 15" "(0x7fff :: u16) = mask 15"
  by (simp_all add: mask_eq_exp_minus_1)

lemma zdo_ids:
  "zdo_is_response (zdo_response c)" "\<not> zdo_is_response (zdo_request c)"
  "zdo_request (zdo_response c) = zdo_request c"
  "\<not> zdo_is_response c \<Longrightarrow> zdo_request (zdo_response c) = c"
  "zdo_is_response c \<Longrightarrow> zdo_response (zdo_request c) = c"
proof -
  have is_resp: "zdo_is_response d \<longleftrightarrow> bit (zdo_raw d) 15" for d
    unfolding zdo_is_response_def bit15 by (simp only: and_exp_eq_0_iff_not_bit simp_thms)
  have or: "bit (x OR 0x8000) n \<longleftrightarrow> bit x n \<or> n = 15" for x :: u16 and n
    unfolding bit15 bit_or_iff bit_exp_iff by auto
  have and': "bit (x AND 0x7fff) n \<longleftrightarrow> bit x n \<and> n < 15" for x :: u16 and n
    unfolding bit15 bit_and_iff bit_mask_iff by auto
  show "zdo_is_response (zdo_response c)" "\<not> zdo_is_response (zdo_request c)"
    by (simp_all add: is_resp zdo_response_def zdo_request_def or and')
  have "(x OR 0x8000) AND 0x7fff = x AND 0x7fff" for x :: u16
    by (rule bit_word_eqI) (auto simp: or and')
  then show "zdo_request (zdo_response c) = zdo_request c"
    by (simp add: zdo_request_def zdo_response_def)
  have cut: "m < 16 \<Longrightarrow> m < 15 \<or> m = 15" for m :: nat by auto
  have "\<not> bit x 15 \<Longrightarrow> (x OR 0x8000) AND 0x7fff = x" for x :: u16
    by (rule bit_word_eqI) (use cut in \<open>auto simp: or and'\<close>)
  then show "\<not> zdo_is_response c \<Longrightarrow> zdo_request (zdo_response c) = c"
    by (simp add: zdo_request_def zdo_response_def is_resp)
  have "bit x 15 \<Longrightarrow> (x AND 0x7fff) OR 0x8000 = x" for x :: u16
    by (rule bit_word_eqI) (use cut in \<open>auto simp: or and'\<close>)
  then show "zdo_is_response c \<Longrightarrow> zdo_response (zdo_request c) = c"
    by (simp add: zdo_request_def zdo_response_def is_resp)
qed

section \<open>Responses\<close>

lemma zs_success_iff: "zs_is_success (zs_from_u8 v) \<longleftrightarrow> v = 0"
  by (auto simp: zs_is_success_def zs_from_u8_def)

lemma zdo_head_Inr_iff:
  assumes "length payload \<le> usize_max"
  shows "zdo_head k (reader_new payload) = (Inr a, r') \<longleftrightarrow>
    (\<exists>sequence tail. payload = sequence # 0 # tail \<and> k sequence (rd_at [sequence, 0] tail) = (Inr a, r'))"
proof -
  have "rd_fits [] payload" using assms by (simp add: rd_fits_def)
  then show ?thesis
    using assms
    by (auto simp: zdo_head_def rd_bind_eq_Inr Let_def zs_success_iff reader_new_at f_u8.get_Inr_iff
        rd_fits_def split: if_splits)
qed

lemma zdo_head_status:
  assumes "length payload \<le> usize_max" "payload = sequence # v # tail" "v \<noteq> 0"
  shows "fst (zdo_head k (reader_new payload)) = Inl (ZStatus sequence (zs_from_u8 v))"
  using assms
  by (simp add: zdo_head_def rd_bind_def zq_def rd_map_err_def Let_def zs_success_iff reader_new_at
      rd_u8_Cons rd_fits_def)

lemma zdo_head_short:
  assumes "length payload < 2"
  shows "fst (zdo_head k (reader_new payload)) = Inl (ZCodec (Eof 1 (length payload) 0))"
proof -
  have "payload = [] \<or> (\<exists>b. payload = [b])"
    using assms by (cases payload; cases "tl payload") auto
  then show ?thesis
    by (auto simp: zdo_head_def rd_bind_def zq_def rd_map_err_def reader_new_at rd_u8_at rd_fits_def)
qed

lemma read_cluster_list_bytes:
  "length cs < 256 \<Longrightarrow> rd_fits pre (cluster_list_bytes cs @ tail) \<Longrightarrow>
   read_cluster_list what (rd_at pre (cluster_list_bytes cs @ tail))
     = (Inr cs, rd_at (pre @ cluster_list_bytes cs) tail)"
  by (simp add: read_cluster_list_Inr_iff)

lemma fst_eq_Inr: "fst x = Inr a \<longleftrightarrow> (\<exists>r. x = (Inr a, r))"
  by (cases x) auto

section \<open>Properties\<close>

text \<open>
  Request and response identifiers pair up. The response to a request is a response, taking
  the request of it gives the request back, and the other way round; so a reply is filed under
  the identifier of what was asked.
\<close>

theorem zdo_response_pairing:
  "zdo_is_response (response_for c) \<and>
   zdo_request (response_for c) = (if zdo_is_response c then zdo_request c else c) \<and>
   response_for (zdo_request c) = (if zdo_is_response c then c else response_for c)"
  using zdo_ids [of c] zdo_ids [of "zdo_response c"]
  by (cases "zdo_is_response c") (simp_all add: response_for_def)

text \<open>
  C40: a Simple_Desc_rsp decodes to a descriptor exactly when its bytes are that descriptor's
  layout: sequence, status zero, address, a length octet nobody checks, endpoint, profile,
  device id, a version octet of which the low four bits count, and the two counted cluster lists,
  whatever follows. Every cluster the device listed is there and none is made up.
\<close>

theorem simple_desc_decode_iff:
  assumes "length payload \<le> usize_max"
  shows "decode_simple_desc_rsp payload = Inr d \<longleftrightarrow>
    length (sd_input_clusters d) < 256 \<and> length (sd_output_clusters d) < 256 \<and>
    (\<exists>len ver tail. sd_device_version d = ver AND 0x0f \<and>
      payload = sd_sequence d # 0 # le_bytes 2 (nwk_raw (sd_of d)) @ len # endpoint_raw (sd_endpoint d)
        # le_bytes 2 (profile_raw (sd_profile d)) @ le_bytes 2 (sd_device_id d) @ ver
        # cluster_list_bytes (sd_input_clusters d) @ cluster_list_bytes (sd_output_clusters d) @ tail)"
    (is "_ \<longleftrightarrow> ?R")
proof
  assume "decode_simple_desc_rsp payload = Inr d"
  then show ?R using assms
    by (auto simp: decode_simple_desc_rsp_def fst_eq_Inr zdo_head_Inr_iff rd_bind_eq_Inr rd_fits_def
        f_u16_le.get_Inr_iff f_u8.get_Inr_iff read_cluster_list_Inr_iff)
next
  assume R: ?R
  with assms show "decode_simple_desc_rsp payload = Inr d"
    by (auto simp: decode_simple_desc_rsp_def zdo_head_def rd_bind_def zq_def rd_map_err_def
        Let_def reader_new_at rd_u8_Cons field_reads rd_fits_def zs_success_iff
        read_cluster_list_bytes)
qed

theorem simple_desc_decode_iff_witness:
  "decode_simple_desc_rsp [7, 0, 0x34, 0x12, 10, 1, 4, 1, 2, 1, 0x10, 1, 6, 0, 0] =
     Inr \<lparr>sd_sequence = 7, sd_of = Nwk 0x1234, sd_endpoint = EndpointId 1,
       sd_profile = ProfileId 0x0104, sd_device_id = 0x0102, sd_device_version = 0,
       sd_input_clusters = [ClusterId 6], sd_output_clusters = []\<rparr>"
  by (rule simple_desc_decode_iff [THEN iffD2], simp, intro conjI, simp, simp,
      rule exI [of _ 10], rule exI [of _ 16], rule exI [of _ "[]"])
    (simp add: cluster_list_bytes_def cluster_bytes_def le_bytes_2)

text \<open>
  every Bind_rsp is decided. A status of zero is success with the echoed sequence, any other
  status is a refusal that carries it, and a payload of fewer than two bytes is a codec error at
  the byte that is missing.
\<close>

theorem bind_rsp_decided:
  assumes "length payload \<le> usize_max"
  shows "decode_bind_rsp payload =
    (case payload of
       sequence # v # _ \<Rightarrow> if v = 0 then Inr sequence else Inl (ZStatus sequence (zs_from_u8 v))
     | _ \<Rightarrow> Inl (ZCodec (Eof 1 (length payload) 0)))"
proof (cases "length payload < 2")
  case True
  then show ?thesis using zdo_head_short [of payload rd_return]
    by (cases payload; cases "tl payload") (auto simp: decode_bind_rsp_def)
next
  case False
  then obtain s v tail where p: "payload = s # v # tail"
    by (cases payload; cases "tl payload") auto
  show ?thesis
  proof (cases "v = 0")
    case True
    with p assms have "\<exists>r'. zdo_head rd_return (reader_new payload) = (Inr s, r')"
      by (simp add: zdo_head_Inr_iff)
    then show ?thesis using p True by (auto simp: decode_bind_rsp_def)
  next
    case False
    with zdo_head_status [OF assms p] p show ?thesis by (simp add: decode_bind_rsp_def)
  qed
qed

theorem bind_rsp_decided_witness:
  "decode_bind_rsp [9, 0x84] = Inl (ZStatus 9 ZNotSupported)"
  by (subst bind_rsp_decided) (simp_all add: zs_from_u8_def)

text \<open>
  an Active_EP_rsp decodes to the endpoints it lists, all of them and in order, exactly when
  as many bytes as its count octet says are present; a count that claims more is refused with
  the claim and what was left, never read past the end.
\<close>

theorem active_ep_decode_iff:
  assumes "length payload \<le> usize_max"
  shows "(decode_active_ep_rsp payload = Inr d \<longleftrightarrow>
      length (ae_endpoints d) < 256 \<and>
      (\<exists>tail. payload = ae_sequence d # 0 # le_bytes 2 (nwk_raw (ae_of d))
        @ of_nat (length (ae_endpoints d)) # map endpoint_raw (ae_endpoints d) @ tail)) \<and>
    (payload = s # 0 # le_bytes 2 (a :: u16) @ c # eps \<longrightarrow> length eps < unat c \<longrightarrow>
      decode_active_ep_rsp payload
        = Inl (ZTruncated ''active endpoint list'' (unat c) (length eps)))"
proof (rule conjI)
  have unpack: "decode_active_ep_rsp (s # 0 # le_bytes 2 a @ c # eps) =
    (if unat c \<le> length eps
     then Inr \<lparr>ae_sequence = s, ae_of = Nwk a, ae_endpoints = map EndpointId (take (unat c) eps)\<rparr>
     else Inl (ZTruncated ''active endpoint list'' (unat c) (length eps)))"
    if "length (s # 0 # le_bytes 2 a @ c # eps) \<le> usize_max" for s a c eps
    using that
    by (simp add: decode_active_ep_rsp_def zdo_head_def rd_bind_def zq_def rd_map_err_def
        Let_def reader_new_at rd_u8_Cons field_reads rd_fits_def zs_success_iff rd_bytes_def
        rd_take_at rd_remaining_at)
  show "payload = s # 0 # le_bytes 2 (a :: u16) @ c # eps \<longrightarrow> length eps < unat c \<longrightarrow>
      decode_active_ep_rsp payload
        = Inl (ZTruncated ''active endpoint list'' (unat c) (length eps))"
    using assms by (auto simp: unpack)
  show "decode_active_ep_rsp payload = Inr d \<longleftrightarrow>
      length (ae_endpoints d) < 256 \<and>
      (\<exists>tail. payload = ae_sequence d # 0 # le_bytes 2 (nwk_raw (ae_of d))
        @ of_nat (length (ae_endpoints d)) # map endpoint_raw (ae_endpoints d) @ tail)"
  proof
    assume D: "decode_active_ep_rsp payload = Inr d"
    then obtain s a c eps where p: "payload = s # 0 # le_bytes 2 (a :: u16) @ c # eps"
      using assms
      by (auto simp: decode_active_ep_rsp_def fst_eq_Inr zdo_head_Inr_iff rd_bind_eq_Inr rd_fits_def
          f_u16_le.get_Inr_iff f_u8.get_Inr_iff)
    with D assms unpack [of s a c eps] have "unat c \<le> length eps"
      "d = \<lparr>ae_sequence = s, ae_of = Nwk a, ae_endpoints = map EndpointId (take (unat c) eps)\<rparr>"
      by (auto split: if_splits)
    with p show "length (ae_endpoints d) < 256 \<and>
      (\<exists>tail. payload = ae_sequence d # 0 # le_bytes 2 (nwk_raw (ae_of d))
        @ of_nat (length (ae_endpoints d)) # map endpoint_raw (ae_endpoints d) @ tail)"
      using unat_byte_bound [of c]
      by (auto simp: comp_def intro: exI [of _ "drop (unat c) eps"])
  next
    assume "length (ae_endpoints d) < 256 \<and>
      (\<exists>tail. payload = ae_sequence d # 0 # le_bytes 2 (nwk_raw (ae_of d))
        @ of_nat (length (ae_endpoints d)) # map endpoint_raw (ae_endpoints d) @ tail)"
    then show "decode_active_ep_rsp payload = Inr d"
      using assms by (auto simp: unpack unat_of_nat comp_def)
  qed
qed

theorem active_ep_decode_iff_witness:
  "decode_active_ep_rsp [3, 0, 0x34, 0x12, 5, 1] = Inl (ZTruncated ''active endpoint list'' 5 1)"
proof -
  have "[3, 0, 0x34, 0x12, 5, 1] = 3 # 0 # le_bytes 2 (0x1234 :: u16) @ (5 :: u8) # [1]"
    by (simp add: le_bytes_2)
  moreover have "length [3 :: u8, 0, 0x34, 0x12, 5, 1] \<le> usize_max" "length [1 :: u8] < unat (5 :: u8)"
    by simp_all
  ultimately show ?thesis using active_ep_decode_iff [THEN conjunct2, rule_format] by fastforce
qed

end
