(* ===== verification/Tuya.thy ===== *)
theory Tuya
  imports Codec
begin

text \<open>
  The Tuya datapoint protocol, \<open>rszigbee-spec/src/tuya.rs\<close>: a little-endian sequence number
  followed by datapoints whose lengths are big-endian and supplied by the device. The decoding
  loop is a terminating function: every datapoint takes at least its four header bytes.
\<close>

section \<open>Commands, types and values\<close>

definition TUYA_CLUSTER :: cluster_id where "TUYA_CLUSTER = ClusterId 0xef00"
definition DATA_REQUEST :: command_id where "DATA_REQUEST = CommandId 0x00"
definition DATA_QUERY :: command_id where "DATA_QUERY = CommandId 0x03"
definition DATA_RESPONSE :: command_id where "DATA_RESPONSE = CommandId 0x01"
definition DATA_REPORT :: command_id where "DATA_REPORT = CommandId 0x02"
definition ACTIVE_STATUS_REPORT :: command_id where "ACTIVE_STATUS_REPORT = CommandId 0x06"
definition ACTIVE_STATUS_REPORT_ALT :: command_id where
  "ACTIVE_STATUS_REPORT_ALT = CommandId 0x05"

definition tuya_is_report :: "command_id \<Rightarrow> bool" where
  "tuya_is_report command \<longleftrightarrow>
     command = DATA_RESPONSE \<or> command = DATA_REPORT \<or> command = ACTIVE_STATUS_REPORT
     \<or> command = ACTIVE_STATUS_REPORT_ALT"

datatype tuya_type =
  DtRaw | DtBool | DtNumber | DtStr | DtEnum | DtBitmap | DtUnknown u8

definition dt_from_u8 :: "u8 \<Rightarrow> tuya_type" where
  "dt_from_u8 v =
     (if v = 0 then DtRaw else if v = 1 then DtBool else if v = 2 then DtNumber
      else if v = 3 then DtStr else if v = 4 then DtEnum else if v = 5 then DtBitmap
      else DtUnknown v)"

primrec dt_to_u8 :: "tuya_type \<Rightarrow> u8" where
  "dt_to_u8 DtRaw = 0"
| "dt_to_u8 DtBool = 1"
| "dt_to_u8 DtNumber = 2"
| "dt_to_u8 DtStr = 3"
| "dt_to_u8 DtEnum = 4"
| "dt_to_u8 DtBitmap = 5"
| "dt_to_u8 (DtUnknown o') = o'"

text \<open>An \<open>i32\<close> is kept as its 32 bits.\<close>

datatype tuya_value =
    TvRaw "u8 list"
  | TvBool bool
  | TvNumber u32
  | TvStr string
  | TvEnum u8
  | TvBitmap u32

record datapoint =
  dpt_dp :: u8
  dpt_value :: tuya_value

datatype tuya_error =
    TyTruncated
  | TyBadLength u8 nat nat
  | TyWrongLength u8 tuya_type nat
  | TyCodec codec_error

section \<open>Reading and writing\<close>

definition tuya_read_value :: "u8 \<Rightarrow> tuya_type \<Rightarrow> u8 list \<Rightarrow> tuya_error + tuya_value" where
  "tuya_read_value dp ty bytes =
     (let wrong = Inl (TyWrongLength dp ty (length bytes)) in
      case ty of
        DtRaw \<Rightarrow> Inr (TvRaw bytes)
      | DtUnknown _ \<Rightarrow> Inr (TvRaw bytes)
      | DtBool \<Rightarrow> (case bytes of [b] \<Rightarrow> Inr (TvBool (b \<noteq> 0)) | _ \<Rightarrow> wrong)
      | DtNumber \<Rightarrow> (case bytes of [a, b, c, d] \<Rightarrow> Inr (TvNumber (from_be [a, b, c, d])) | _ \<Rightarrow> wrong)
      | DtStr \<Rightarrow> Inr (TvStr (from_utf8_lossy bytes))
      | DtEnum \<Rightarrow> (case bytes of [b] \<Rightarrow> Inr (TvEnum b) | _ \<Rightarrow> wrong)
      | DtBitmap \<Rightarrow>
          (case bytes of
             [a] \<Rightarrow> Inr (TvBitmap (ucast a))
           | [a, b] \<Rightarrow> Inr (TvBitmap (ucast (from_be [a, b] :: u16)))
           | [a, b, c, d] \<Rightarrow> Inr (TvBitmap (from_be [a, b, c, d]))
           | _ \<Rightarrow> wrong))"

primrec tuya_write_value :: "tuya_value \<Rightarrow> tuya_type \<times> u8 list" where
  "tuya_write_value (TvRaw bytes) = (DtRaw, bytes)"
| "tuya_write_value (TvBool on) = (DtBool, [of_bool on])"
| "tuya_write_value (TvNumber n) = (DtNumber, be_bytes 4 n)"
| "tuya_write_value (TvStr s) = (DtStr, str_bytes s)"
| "tuya_write_value (TvEnum v) = (DtEnum, [v])"
| "tuya_write_value (TvBitmap bits) = (DtBitmap, be_bytes 4 bits)"

definition tq :: "(codec_error, 'a) rd \<Rightarrow> (tuya_error, 'a) rd" where
  "tq m = rd_map_err (\<lambda>e _. TyCodec e) m"

text \<open>The body of the loop: one datapoint.\<close>

definition tuya_point :: "(tuya_error, datapoint) rd" where
  "tuya_point =
     rd_bind (tq rd_u8) (\<lambda>dp.
     rd_bind (tq rd_u8) (\<lambda>t.
     rd_bind (tq rd_u16_be) (\<lambda>l.
       let ty = dt_from_u8 t; len = unat l in
       (\<lambda>r. if rd_remaining r < len then rd_fail (TyBadLength dp len (rd_remaining r)) r
            else rd_bind (tq (rd_bytes len)) (\<lambda>bytes.
              case tuya_read_value dp ty bytes of
                Inl e \<Rightarrow> rd_fail e
              | Inr v \<Rightarrow> rd_return \<lparr>dpt_dp = dp, dpt_value = v\<rparr>) r))))"

lemma tq_Inr_iff [simp]: "tq m r = (Inr a, r') \<longleftrightarrow> m r = (Inr a, r')"
  by (simp add: tq_def)

lemma rd_u8_remaining: "rd_u8 r = (Inr b, r') \<Longrightarrow> rd_remaining r' + 1 = rd_remaining r"
proof -
  assume "rd_u8 r = (Inr b, r')"
  then obtain a r1 where t: "rd_take 1 r = (Inr a, r1)"
    and c: "(case a of x # _ \<Rightarrow> (Inr x, r1) | [] \<Rightarrow> (Inl (Eof 1 (rd_pos r1) 0), r1)) = (Inr b, r')"
    unfolding rd_u8_def rd_bind_eq_Inr by auto
  from c have "r1 = r'" by (cases a) auto
  with rd_take_remaining [OF t] show ?thesis by simp
qed

lemma tuya_point_remaining:
  assumes "tuya_point r = (Inr p, r')"
  shows "rd_remaining r' < rd_remaining r"
proof -
  from assms obtain dp r1 t r2 l r3 where h: "rd_u8 r = (Inr dp, r1)" "rd_u8 r1 = (Inr t, r2)"
    "rd_u16_be r2 = (Inr l, r3)"
    and body: "(if rd_remaining r3 < unat l then rd_fail (TyBadLength dp (unat l) (rd_remaining r3)) r3
      else rd_bind (tq (rd_bytes (unat l))) (\<lambda>bytes.
        case tuya_read_value dp (dt_from_u8 t) bytes of
          Inl e \<Rightarrow> rd_fail e | Inr v \<Rightarrow> rd_return \<lparr>dpt_dp = dp, dpt_value = v\<rparr>) r3) = (Inr p, r')"
    by (auto simp: tuya_point_def rd_bind_eq_Inr [of "tq rd_u8"] rd_bind_eq_Inr [of "tq rd_u16_be"]
        Let_def)
  from h have "rd_remaining r3 + 4 = rd_remaining r"
    by (auto simp: rd_u16_be_def rd_bind_eq_Inr dest!: rd_u8_remaining rd_take_remaining)
  moreover obtain bytes where "rd_take (unat l) r3 = (Inr bytes, r')"
  proof -
    from body obtain bytes r4 where b: "rd_take (unat l) r3 = (Inr bytes, r4)"
      and c: "(case tuya_read_value dp (dt_from_u8 t) bytes of
          Inl e \<Rightarrow> rd_fail e | Inr v \<Rightarrow> rd_return \<lparr>dpt_dp = dp, dpt_value = v\<rparr>) r4 = (Inr p, r')"
      by (auto simp: rd_bind_eq_Inr rd_bytes_def split: if_split_asm)
    from c have "r4 = r'" by (cases "tuya_read_value dp (dt_from_u8 t) bytes") auto
    with b that show thesis by simp
  qed
  ultimately show ?thesis by (auto dest!: rd_take_remaining)
qed

function tuya_loop :: "reader \<Rightarrow> tuya_error + datapoint list" where
  "tuya_loop r =
     (if rd_remaining r < 4 then Inr []
      else case tuya_point r of
        (Inl e, _) \<Rightarrow> Inl e
      | (Inr p, r') \<Rightarrow> (case tuya_loop r' of Inl e \<Rightarrow> Inl e | Inr ps \<Rightarrow> Inr (p # ps)))"
  by auto
termination
  by (relation "measure rd_remaining") (auto dest: tuya_point_remaining [OF sym])

declare tuya_loop.simps [simp del]

definition tuya_decode :: "u8 list \<Rightarrow> tuya_error + u16 \<times> datapoint list" where
  "tuya_decode payload =
     (case rd_u16_le (reader_new payload) of
        (Inl e, _) \<Rightarrow> Inl (TyCodec e)
      | (Inr seq, r) \<Rightarrow>
          (case tuya_loop r of Inl e \<Rightarrow> Inl e | Inr out \<Rightarrow> Inr (seq, out)))"

definition tuya_write_point :: "datapoint \<Rightarrow> writer \<Rightarrow> writer" where
  "tuya_write_point p w =
     (let (ty, bytes) = tuya_write_value (dpt_value p);
          w = w_u8 (dpt_dp p) w;
          w = w_u8 (dt_to_u8 ty) w;
          w = w_u16_be (of_nat (min (length bytes) 65535)) w in
      w_bytes bytes w)"

definition tuya_encode :: "u16 \<Rightarrow> datapoint list \<Rightarrow> u8 list" where
  "tuya_encode seq points = w_buf (fold tuya_write_point points (w_u16_le seq writer_new))"

section \<open>Datapoints on the wire\<close>

text \<open>A raw datapoint: number, type octet, and bytes a 16-bit length can count.\<close>

definition raw_point_bytes :: "u8 \<Rightarrow> u8 \<Rightarrow> u8 list \<Rightarrow> u8 list" where
  "raw_point_bytes dp t bytes = dp # t # be_bytes 2 (of_nat (length bytes) :: u16) @ bytes"

lemma tuya_point_wire:
  assumes "length bytes < 65536" "rd_fits pre (raw_point_bytes dp t bytes @ rest)"
  shows "tuya_point (rd_at pre (raw_point_bytes dp t bytes @ rest)) =
    (case tuya_read_value dp (dt_from_u8 t) bytes of
       Inl e \<Rightarrow> Inl e | Inr v \<Rightarrow> Inr \<lparr>dpt_dp = dp, dpt_value = v\<rparr>,
     rd_at (pre @ raw_point_bytes dp t bytes) rest)"
  using assms
  by (simp add: tuya_point_def raw_point_bytes_def rd_bind_def tq_def rd_map_err_def rd_u8_Cons
      field_reads Let_def rd_remaining_at rd_bytes_def rd_take_append unat_of_nat split: sum.split)

text \<open>From any four bytes on, the loop finds a raw datapoint or a claim that is too long.\<close>

lemma tuya_point_cases:
  assumes "rd_fits pre rest" "4 \<le> length rest"
  obtains dp t bytes tail where "rest = raw_point_bytes dp t bytes @ tail" "length bytes < 65536"
  | dp l avail where "fst (tuya_point (rd_at pre rest)) = Inl (TyBadLength dp l avail)" "avail < l"
proof -
  obtain dp t l0 l1 body where rest: "rest = dp # t # l0 # l1 # body"
    using assms(2) by (cases rest; cases "tl rest"; cases "tl (tl rest)"; cases "tl (tl (tl rest))") auto
  obtain l :: u16 where l: "be_bytes 2 l = [l0, l1]" using f_u16_be.get_surj [of "[l0, l1]"] by auto
  have bound: "unat l < 65536" using unsigned_less [of l] by simp
  show thesis
  proof (cases "unat l \<le> length body")
    case True
    have "rest = raw_point_bytes dp t (take (unat l) body) @ drop (unat l) body"
      using True l by (simp add: rest raw_point_bytes_def)
    moreover have "length (take (unat l) body) < 65536" using True bound by simp
    ultimately show thesis by (rule that(1))
  next
    case False
    have fits: "rd_fits pre (dp # t # be_bytes 2 l @ body)" using assms(1) rest l by simp
    have "tuya_point (rd_at pre (dp # t # be_bytes 2 l @ body)) =
      (Inl (TyBadLength dp (unat l) (length body)), rd_at (pre @ dp # t # be_bytes 2 l) body)"
      using False fits
      by (simp add: tuya_point_def rd_bind_def tq_def rd_map_err_def rd_u8_Cons field_reads
          Let_def rd_remaining_at)
    then have "fst (tuya_point (rd_at pre rest)) = Inl (TyBadLength dp (unat l) (length body))"
      by (simp add: rest l)
    then show thesis using False by (intro that(2)) auto
  qed
qed

text \<open>A payload as raw datapoints, and what reading their values one by one gives.\<close>

type_synonym raw_point = "u8 \<times> u8 \<times> u8 list"

definition raw_points_bytes :: "raw_point list \<Rightarrow> u8 list" where
  "raw_points_bytes ps = concat (map (\<lambda>(dp, t, bytes). raw_point_bytes dp t bytes) ps)"

fun read_points :: "raw_point list \<Rightarrow> tuya_error + datapoint list" where
  "read_points [] = Inr []"
| "read_points ((dp, t, bytes) # ps) =
     (case tuya_read_value dp (dt_from_u8 t) bytes of
        Inl e \<Rightarrow> Inl e
      | Inr v \<Rightarrow> (case read_points ps of
          Inl e \<Rightarrow> Inl e | Inr out \<Rightarrow> Inr (\<lparr>dpt_dp = dp, dpt_value = v\<rparr> # out)))"

definition raw_points_ok :: "raw_point list \<Rightarrow> bool" where
  "raw_points_ok ps \<longleftrightarrow> (\<forall>(dp, t, bytes) \<in> set ps. length bytes < 65536)"

lemma length_raw_point: "length (raw_point_bytes dp t bytes) = 4 + length bytes"
  by (simp add: raw_point_bytes_def)

lemma tuya_loop_points:
  assumes "raw_points_ok ps" "length tail < 4" "rd_fits pre (raw_points_bytes ps @ tail)"
  shows "tuya_loop (rd_at pre (raw_points_bytes ps @ tail)) = read_points ps"
  using assms
proof (induction ps arbitrary: pre)
  case Nil
  then show ?case by (subst tuya_loop.simps) (simp add: raw_points_bytes_def rd_remaining_at)
next
  case (Cons p ps)
  obtain dp t bytes where p: "p = (dp, t, bytes)" by (cases p)
  let ?rest = "raw_points_bytes ps @ tail"
  have bs: "raw_points_bytes (p # ps) @ tail = raw_point_bytes dp t bytes @ ?rest"
    by (simp add: raw_points_bytes_def p)
  have ok: "length bytes < 65536" "raw_points_ok ps"
    using Cons.prems(1) by (auto simp: raw_points_ok_def p)
  have fits: "rd_fits pre (raw_point_bytes dp t bytes @ ?rest)" using Cons.prems(3) bs by simp
  then have IH: "tuya_loop (rd_at (pre @ raw_point_bytes dp t bytes) ?rest) = read_points ps"
    by (intro Cons.IH ok(2) assms(2)) simp
  have "\<not> rd_remaining (rd_at pre (raw_point_bytes dp t bytes @ ?rest)) < 4"
    by (simp add: rd_remaining_at length_raw_point)
  then show ?case
    unfolding bs
    by (subst tuya_loop.simps)
      (simp add: tuya_point_wire [OF ok(1) fits] IH p split: sum.split)
qed

lemma tuya_loop_split:
  assumes "tuya_loop (rd_at pre rest) = Inr out" "rd_fits pre rest"
  shows "\<exists>ps tail. rest = raw_points_bytes ps @ tail \<and> raw_points_ok ps \<and> length tail < 4"
  using assms
proof (induction "length rest" arbitrary: pre rest out rule: less_induct)
  case less
  show ?case
  proof (cases "length rest < 4")
    case True
    then show ?thesis 
      by (intro exI [of _ "[]"] exI [of _ rest]) (simp add: raw_points_bytes_def raw_points_ok_def)
  next
    case False
    then have "4 \<le> length rest" by simp
    from less.prems(2) this show ?thesis
    proof (cases rule: tuya_point_cases)
      case (1 dp t bytes tail)
      have fits: "rd_fits pre (raw_point_bytes dp t bytes @ tail)" using less.prems(2) 1 by simp
      then have fits': "rd_fits (pre @ raw_point_bytes dp t bytes) tail" by simp
      from less.prems(1) False obtain out' where
        "tuya_loop (rd_at (pre @ raw_point_bytes dp t bytes) tail) = Inr out'"
        unfolding 1(1)
        by (subst (asm) tuya_loop.simps)
          (auto simp: tuya_point_wire [OF 1(2) fits] rd_remaining_at length_raw_point
            split: sum.split_asm if_split_asm)
      with less.hyps [of tail _ out'] fits' 1 obtain ps tl where
        "tail = raw_points_bytes ps @ tl" "raw_points_ok ps" "length tl < 4"
        by (force simp: length_raw_point)
      with 1 show ?thesis
        by (intro exI [of _ "(dp, t, bytes) # ps"] exI [of _ tl])
          (simp add: raw_points_bytes_def raw_points_ok_def)
    next
      case (2 dp l avail)
      with less.prems(1) False show ?thesis
        by (subst (asm) tuya_loop.simps)
          (cases "tuya_point (rd_at pre rest)", auto simp: rd_remaining_at)
    qed
  qed
qed

section \<open>What is written can be read\<close>

definition tuya_value_ok :: "tuya_value \<Rightarrow> bool" where
  "tuya_value_ok v \<longleftrightarrow> length (snd (tuya_write_value v)) < 65536 \<and>
     (\<forall>s. v = TvStr s \<longrightarrow> str_valid s)"

lemma read_be_bytes_4:
  "tuya_read_value dp DtNumber (be_bytes 4 n) = Inr (TvNumber n)"
  "tuya_read_value dp DtBitmap (be_bytes 4 n) = Inr (TvBitmap n)"
proof -
  obtain a b c d where l: "be_bytes 4 n = [a, b, c, d]" by (simp add: be_bytes_def nat_le_4)
  have "from_be (be_bytes 4 n) = n" by (rule from_be_be_bytes) simp
  with l show "tuya_read_value dp DtNumber (be_bytes 4 n) = Inr (TvNumber n)"
    "tuya_read_value dp DtBitmap (be_bytes 4 n) = Inr (TvBitmap n)"
    by (simp_all add: tuya_read_value_def)
qed

lemma read_write_value:
  assumes "tuya_value_ok v" "tuya_write_value v = (ty, bytes)"
  shows "tuya_read_value dp ty bytes = Inr v" "dt_from_u8 (dt_to_u8 ty) = ty"
proof -
  show "tuya_read_value dp ty bytes = Inr v"
    using assms
    by (cases v) (auto simp: read_be_bytes_4, auto simp: tuya_read_value_def tuya_value_ok_def
      from_utf8_lossy_str_bytes)
  show "dt_from_u8 (dt_to_u8 ty) = ty"
    using assms(2) by (cases v) (auto simp: dt_from_u8_def)
qed

definition raw_point_of :: "datapoint \<Rightarrow> raw_point" where
  "raw_point_of p = (case tuya_write_value (dpt_value p) of
     (ty, bytes) \<Rightarrow> (dpt_dp p, dt_to_u8 ty, bytes))"

lemma read_points_of:
  "\<forall>p \<in> set ps. tuya_value_ok (dpt_value p) \<Longrightarrow> read_points (map raw_point_of ps) = Inr ps"
  by (induction ps) (auto simp: raw_point_of_def read_write_value split: prod.split)

lemma tuya_encode_bytes:
  "\<forall>p \<in> set ps. tuya_value_ok (dpt_value p) \<Longrightarrow>
     tuya_encode seq ps = le_bytes 2 seq @ raw_points_bytes (map raw_point_of ps)"
proof -
  have "\<forall>p \<in> set ps. tuya_value_ok (dpt_value p) \<Longrightarrow>
    w_buf (fold tuya_write_point ps w) = w_buf w @ raw_points_bytes (map raw_point_of ps)" for w
  proof (induction ps arbitrary: w)
    case (Cons p ps)
    obtain ty bytes where v: "tuya_write_value (dpt_value p) = (ty, bytes)" by force
    with Cons.prems have "min (length bytes) 65535 = length bytes" by (simp add: tuya_value_ok_def)
    with Cons v show ?case
      by (simp add: tuya_write_point_def raw_points_bytes_def raw_point_of_def raw_point_bytes_def
          wire_simps)
  qed (simp add: raw_points_bytes_def)
  then show "\<forall>p \<in> set ps. tuya_value_ok (dpt_value p) \<Longrightarrow>
     tuya_encode seq ps = le_bytes 2 seq @ raw_points_bytes (map raw_point_of ps)"
    by (simp add: tuya_encode_def wire_simps)
qed

section \<open>Properties\<close>

text \<open>
  a Tuya request is read back as it was written: the sequence number and every datapoint,
  in order, with its number and value, for values whose text is valid and whose bytes a 16-bit
  length can count. Signed numbers keep their sign and empty raw datapoints survive.
\<close>

theorem tuya_roundtrip:
  assumes "\<forall>p \<in> set ps. tuya_value_ok (dpt_value p)" "length (tuya_encode seq ps) \<le> usize_max"
  shows "tuya_decode (tuya_encode seq ps) = Inr (seq, ps)"
proof -
  let ?raw = "map raw_point_of ps"
  have "raw_points_ok ?raw"
    using assms(1) by (auto simp: raw_points_ok_def raw_point_of_def tuya_value_ok_def split: prod.splits)
  moreover have "rd_fits [] (le_bytes 2 seq @ raw_points_bytes ?raw)"
    using assms by (simp add: rd_fits_def tuya_encode_bytes)
  ultimately show ?thesis
    using tuya_loop_points [of ?raw "[]" "le_bytes 2 seq"] assms(1)
      f_u16_le.get_enc [where a = seq and pre = "[]" and rest = "raw_points_bytes ?raw"]
    by (simp add: tuya_decode_def tuya_encode_bytes reader_new_at read_points_of rd_fits_def)
qed

theorem tuya_roundtrip_witness:
  "tuya_decode (tuya_encode 0x1234
      [\<lparr>dpt_dp = 1, dpt_value = TvNumber (- 5)\<rparr>, \<lparr>dpt_dp = 2, dpt_value = TvRaw []\<rparr>])
    = Inr (0x1234, [\<lparr>dpt_dp = 1, dpt_value = TvNumber (- 5)\<rparr>, \<lparr>dpt_dp = 2, dpt_value = TvRaw []\<rparr>])"
  by (rule tuya_roundtrip)
    (simp_all add: tuya_value_ok_def tuya_encode_bytes raw_points_bytes_def raw_point_of_def
      raw_point_bytes_def)

text \<open>
  C22: a payload decodes exactly when it is a sequence number, raw datapoints that fit, and fewer
  than four trailing bytes, and every datapoint's bytes suit its declared type; the result is
  then the values of those datapoints. Nothing a device claims about lengths is read past the
  end, and padding of up to three bytes is ignored.
\<close>

theorem tuya_decode_iff:
  assumes "length payload \<le> usize_max"
  shows "tuya_decode payload = Inr (seq, out) \<longleftrightarrow>
    (\<exists>ps tail. payload = le_bytes 2 seq @ raw_points_bytes ps @ tail \<and> raw_points_ok ps
      \<and> length tail < 4 \<and> read_points ps = Inr out)"
proof
  assume "tuya_decode payload = Inr (seq, out)"
  then obtain r where "rd_u16_le (rd_at [] payload) = (Inr seq, r)" and l: "tuya_loop r = Inr out"
    by (auto simp: tuya_decode_def reader_new_at split: prod.split_asm sum.split_asm)
  then obtain rest where payload: "payload = le_bytes 2 seq @ rest" and r: "r = rd_at (le_bytes 2 seq) rest"
    using assms by (auto simp: f_u16_le.get_Inr_iff rd_fits_def)
  have fits: "rd_fits (le_bytes 2 seq) rest" using assms by (simp add: payload rd_fits_def)
  from tuya_loop_split [OF l [unfolded r] fits] obtain ps tail where
    "rest = raw_points_bytes ps @ tail" "raw_points_ok ps" "length tail < 4" by blast
  with tuya_loop_points [of ps tail "le_bytes 2 seq"] fits l r payload
  show "\<exists>ps tail. payload = le_bytes 2 seq @ raw_points_bytes ps @ tail \<and> raw_points_ok ps
      \<and> length tail < 4 \<and> read_points ps = Inr out" by auto
next
  assume "\<exists>ps tail. payload = le_bytes 2 seq @ raw_points_bytes ps @ tail \<and> raw_points_ok ps
      \<and> length tail < 4 \<and> read_points ps = Inr out"
  then obtain ps tail where p: "payload = le_bytes 2 seq @ raw_points_bytes ps @ tail"
    "raw_points_ok ps" "length tail < 4" "read_points ps = Inr out" by blast
  have "rd_fits [] payload" using assms by (simp add: rd_fits_def)
  with p tuya_loop_points [of ps tail "le_bytes 2 seq"]
    f_u16_le.get_enc [where a = seq and pre = "[]" and rest = "raw_points_bytes ps @ tail"]
  show "tuya_decode payload = Inr (seq, out)"
    by (simp add: tuya_decode_def reader_new_at rd_fits_def)
qed

theorem tuya_decode_iff_witness:
  "tuya_decode (le_bytes 2 (7 :: u16) @ raw_points_bytes [(1, 1, [1])] @ [0, 0])
     = Inr (7, [\<lparr>dpt_dp = 1, dpt_value = TvBool True\<rparr>])"
  by (rule tuya_decode_iff [THEN iffD2], simp add: raw_points_bytes_def raw_point_bytes_def,
      rule exI [of _ "[(1, 1, [1])]"], rule exI [of _ "[0, 0]"])
    (simp add: raw_points_ok_def tuya_read_value_def dt_from_u8_def)

end
