(* ===== verification/Correlator.thy ===== *)
theory Correlator
  imports Std_Maps
begin

text \<open>
  Request/response correlation, \<open>rszigbee-adapter/src/correlator.rs\<close>: a map of keys to the
  sending halves of one-shot channels. The channels are made explicit, so that replacing an
  entry, dropping a waiter and delivering a value have the effects on the other half that the
  channel gives them. A channel is named by its position in the list of channels.
\<close>

section \<open>One-shot channels\<close>

record 'v chan =
  ch_value :: "'v option"
  ch_tx :: bool
  ch_rx :: bool

definition chan_new :: "'v chan" where
  "chan_new = \<lparr>ch_value = None, ch_tx = True, ch_rx = True\<rparr>"

type_synonym 'v chans = "'v chan list"

text \<open>Dropping a sender, dropping a receiver, and \<open>send\<close>, which consumes the sender.\<close>

definition tx_drop :: "nat \<Rightarrow> 'v chans \<Rightarrow> 'v chans" where
  "tx_drop i cs = (if i < length cs then cs[i := (cs ! i)\<lparr>ch_tx := False\<rparr>] else cs)"

definition rx_drop :: "nat \<Rightarrow> 'v chans \<Rightarrow> 'v chans" where
  "rx_drop i cs = (if i < length cs then cs[i := (cs ! i)\<lparr>ch_rx := False\<rparr>] else cs)"

definition tx_send :: "nat \<Rightarrow> 'v \<Rightarrow> 'v chans \<Rightarrow> 'v option \<times> 'v chans" where
  "tx_send i v cs =
     (if i < length cs \<and> ch_rx (cs ! i)
      then (None, cs[i := (cs ! i)\<lparr>ch_value := Some v, ch_tx := False\<rparr>])
      else (Some v, tx_drop i cs))"

datatype wait_error = Cancelled | Consumed

text \<open>Polling a receiver: \<open>None\<close> while the sender is alive and has sent nothing.\<close>

definition rx_poll :: "nat \<Rightarrow> 'v chans \<Rightarrow> (wait_error + 'v) option" where
  "rx_poll i cs =
     (if \<not> i < length cs then Some (Inl Cancelled)
      else case ch_value (cs ! i) of
        Some v \<Rightarrow> Some (Inr v)
      | None \<Rightarrow> if ch_tx (cs ! i) then None else Some (Inl Cancelled))"

section \<open>The correlator\<close>

record ('k, 'v) correlator =
  co_inner :: "('k, nat) hashmap"
  co_chans :: "'v chans"

record 'k pending_reg =
  pn_key :: 'k
  pn_rx :: "nat option"

definition co_new :: "('k, 'v) correlator" where
  "co_new = \<lparr>co_inner = [], co_chans = []\<rparr>"

text \<open>Inserting under a key that is taken drops the sender that was there.\<close>

definition co_register :: "'k \<Rightarrow> ('k, 'v) correlator \<Rightarrow> 'k pending_reg \<times> ('k, 'v) correlator" where
  "co_register key c =
     (let ch = length (co_chans c);
          cs = (case hm_get (co_inner c) key of Some old \<Rightarrow> tx_drop old (co_chans c) | None \<Rightarrow> co_chans c) in
      (\<lparr>pn_key = key, pn_rx = Some ch\<rparr>,
       c\<lparr>co_inner := hm_insert key ch (co_inner c), co_chans := cs @ [chan_new]\<rparr>))"

definition co_resolve :: "'k \<Rightarrow> 'v \<Rightarrow> ('k, 'v) correlator \<Rightarrow> 'v option \<times> ('k, 'v) correlator" where
  "co_resolve key v c =
     (case hm_get (co_inner c) key of
        Some tx \<Rightarrow>
          (case tx_send tx v (co_chans c) of
             (back, cs) \<Rightarrow> (back, c\<lparr>co_inner := hm_remove key (co_inner c), co_chans := cs\<rparr>))
      | None \<Rightarrow> (Some v, c))"

definition co_pending :: "('k, 'v) correlator \<Rightarrow> nat" where
  "co_pending c = length (co_inner c)"

definition co_remove :: "'k \<Rightarrow> ('k, 'v) correlator \<Rightarrow> ('k, 'v) correlator" where
  "co_remove key c =
     c\<lparr>co_inner := hm_remove key (co_inner c),
       co_chans := (case hm_get (co_inner c) key of
          Some tx \<Rightarrow> tx_drop tx (co_chans c) | None \<Rightarrow> co_chans c)\<rparr>"

text \<open>Dropping a registration removes the entry under its key and drops its receiver.\<close>

definition pn_drop :: "'k pending_reg \<Rightarrow> ('k, 'v) correlator \<Rightarrow> ('k, 'v) correlator" where
  "pn_drop p c =
     (let c = co_remove (pn_key p) c in
      case pn_rx p of Some rx \<Rightarrow> c\<lparr>co_chans := rx_drop rx (co_chans c)\<rparr> | None \<Rightarrow> c)"

text \<open>
  One poll of \<open>wait\<close>, which has taken the receiver: still waiting, or done with a result, in
  which case the registration is dropped.
\<close>

definition pn_wait ::
  "'k pending_reg \<Rightarrow> ('k, 'v) correlator \<Rightarrow> (wait_error + 'v) option \<times> ('k, 'v) correlator" where
  "pn_wait p c =
     (case pn_rx p of
        None \<Rightarrow> (Some (Inl Consumed), pn_drop p c)
      | Some rx \<Rightarrow>
          (case rx_poll rx (co_chans c) of
             None \<Rightarrow> (None, c)
           | Some r \<Rightarrow> (Some r, pn_drop p c)))"

section \<open>The correlator and its waiters\<close>

text \<open>
  The whole system: the correlator together with the registrations that are still held. A
  registration is dropped once: when its wait ends or when its holder abandons it.
\<close>

record ('k, 'v) co_sys =
  cs_co :: "('k, 'v) correlator"
  cs_live :: "'k pending_reg list"

inductive co_step :: "('k, 'v) co_sys \<Rightarrow> ('k, 'v) co_sys \<Rightarrow> bool" where
  register: "co_register k c = (p, c') \<Longrightarrow>
     co_step \<lparr>cs_co = c, cs_live = ps\<rparr> \<lparr>cs_co = c', cs_live = p # ps\<rparr>"
| resolve: "co_resolve k v c = (back, c') \<Longrightarrow>
     co_step \<lparr>cs_co = c, cs_live = ps\<rparr> \<lparr>cs_co = c', cs_live = ps\<rparr>"
| abandon: "p \<in> set ps \<Longrightarrow>
     co_step \<lparr>cs_co = c, cs_live = ps\<rparr> \<lparr>cs_co = pn_drop p c, cs_live = remove1 p ps\<rparr>"
| poll: "p \<in> set ps \<Longrightarrow> pn_wait p c = (None, c') \<Longrightarrow>
     co_step \<lparr>cs_co = c, cs_live = ps\<rparr> \<lparr>cs_co = c', cs_live = ps\<rparr>"
| finished: "p \<in> set ps \<Longrightarrow> pn_wait p c = (Some r, c') \<Longrightarrow>
     co_step \<lparr>cs_co = c, cs_live = ps\<rparr> \<lparr>cs_co = c', cs_live = remove1 p ps\<rparr>"

definition co_init :: "('k, 'v) co_sys" where
  "co_init = \<lparr>cs_co = co_new, cs_live = []\<rparr>"

definition co_reachable :: "('k, 'v) co_sys \<Rightarrow> bool" where
  "co_reachable s \<longleftrightarrow> co_step\<^sup>*\<^sup>* co_init s"

text \<open>
  The invariant: the map has one entry per key; the channel of an entry exists, has no value yet
  and both its halves are alive; its receiver is held by a live registration of that key; and
  live registrations hold distinct channels, whose receivers are alive.
\<close>

definition co_inv :: "('k, 'v) co_sys \<Rightarrow> bool" where
  "co_inv s \<longleftrightarrow>
     (let c = cs_co s; ps = cs_live s; cs = co_chans c in
      hm_wf (co_inner c) \<and>
      (\<forall>k i. hm_get (co_inner c) k = Some i \<longrightarrow>
         i < length cs \<and> cs ! i = chan_new \<and> \<lparr>pn_key = k, pn_rx = Some i\<rparr> \<in> set ps) \<and>
      (\<forall>p \<in> set ps. \<exists>i. pn_rx p = Some i \<and> i < length cs \<and> ch_rx (cs ! i)
         \<and> (ch_tx (cs ! i) \<longrightarrow> hm_get (co_inner c) (pn_key p) = Some i)) \<and>
      distinct (map pn_rx ps))"

lemma co_invI:
  assumes "hm_wf (co_inner c)"
    and "\<And>k i. hm_get (co_inner c) k = Some i \<Longrightarrow>
      i < length (co_chans c) \<and> co_chans c ! i = chan_new \<and> \<lparr>pn_key = k, pn_rx = Some i\<rparr> \<in> set ps"
    and "\<And>p. p \<in> set ps \<Longrightarrow> \<exists>i. pn_rx p = Some i \<and> i < length (co_chans c) \<and> ch_rx (co_chans c ! i)
         \<and> (ch_tx (co_chans c ! i) \<longrightarrow> hm_get (co_inner c) (pn_key p) = Some i)"
    and "distinct (map pn_rx ps)"
  shows "co_inv \<lparr>cs_co = c, cs_live = ps\<rparr>"
  using assms by (simp add: co_inv_def Let_def)

lemma co_invD:
  assumes "co_inv \<lparr>cs_co = c, cs_live = ps\<rparr>"
  shows "hm_wf (co_inner c)"
    and "hm_get (co_inner c) k = Some i \<Longrightarrow>
      i < length (co_chans c) \<and> co_chans c ! i = chan_new \<and> \<lparr>pn_key = k, pn_rx = Some i\<rparr> \<in> set ps"
    and "p \<in> set ps \<Longrightarrow> \<exists>i. pn_rx p = Some i \<and> i < length (co_chans c) \<and> ch_rx (co_chans c ! i)
         \<and> (ch_tx (co_chans c ! i) \<longrightarrow> hm_get (co_inner c) (pn_key p) = Some i)"
    and "distinct (map pn_rx ps)"
  using assms by (auto simp: co_inv_def Let_def)

lemma rx_unique:
  "co_inv \<lparr>cs_co = c, cs_live = ps\<rparr> \<Longrightarrow> p \<in> set ps \<Longrightarrow> q \<in> set ps \<Longrightarrow> pn_rx p = pn_rx q \<Longrightarrow> p = q"
  using co_invD(4) by (metis inj_on_def distinct_map)

lemma map_channel_unique:
  assumes "co_inv \<lparr>cs_co = c, cs_live = ps\<rparr>" "hm_get (co_inner c) k = Some i" "hm_get (co_inner c) l = Some i"
  shows "k = l"
  using rx_unique [OF assms(1), of "\<lparr>pn_key = k, pn_rx = Some i\<rparr>" "\<lparr>pn_key = l, pn_rx = Some i\<rparr>"]
    co_invD(2) [OF assms(1,2)] co_invD(2) [OF assms(1,3)] by simp

lemma chan_drop_simps [simp]:
  "length (tx_drop i cs) = length cs" "length (rx_drop i cs) = length cs"
  "j < length cs \<Longrightarrow> tx_drop i cs ! j = (if j = i then (cs ! j)\<lparr>ch_tx := False\<rparr> else cs ! j)"
  "j < length cs \<Longrightarrow> rx_drop i cs ! j = (if j = i then (cs ! j)\<lparr>ch_rx := False\<rparr> else cs ! j)"
  by (auto simp: tx_drop_def rx_drop_def)

lemma chan_new_simps [simp]: "ch_tx chan_new" "ch_rx chan_new" "ch_value chan_new = None"
  by (simp_all add: chan_new_def)

lemma co_inv_register:
  assumes inv: "co_inv \<lparr>cs_co = c, cs_live = ps\<rparr>" and r: "co_register k c = (p, c')"
  shows "co_inv \<lparr>cs_co = c', cs_live = p # ps\<rparr>"
proof -
  note D = co_invD [OF inv]
  define old where "old = hm_get (co_inner c) k"
  define cs where "cs = (case old of Some i \<Rightarrow> tx_drop i (co_chans c) | None \<Rightarrow> co_chans c)"
  have len: "length cs = length (co_chans c)" by (simp add: cs_def split: option.split)
  have nth: "j < length (co_chans c) \<Longrightarrow>
      cs ! j = (if old = Some j then (co_chans c ! j)\<lparr>ch_tx := False\<rparr> else co_chans c ! j)" for j
    by (auto simp: cs_def split: option.split)
  have p: "p = \<lparr>pn_key = k, pn_rx = Some (length cs)\<rparr>"
    and c': "c' = c\<lparr>co_inner := hm_insert k (length cs) (co_inner c), co_chans := cs @ [chan_new]\<rparr>"
    using r by (auto simp: co_register_def Let_def len cs_def old_def split: option.splits)
  show ?thesis
  proof (rule co_invI)
    show "hm_wf (co_inner c')" using D(1) by (simp add: c' hm_wf_insert)
  next
    fix l i assume l: "hm_get (co_inner c') l = Some i"
    show "i < length (co_chans c') \<and> co_chans c' ! i = chan_new \<and> \<lparr>pn_key = l, pn_rx = Some i\<rparr> \<in> set (p # ps)"
    proof (cases "l = k")
      case True
      with l have "i = length cs" by (simp add: c' map_simps)
      with True show ?thesis by (simp add: c' p)
    next
      case False
      with l have "hm_get (co_inner c) l = Some i" by (simp add: c' map_simps)
      moreover from this False have "old \<noteq> Some i"
        using map_channel_unique [OF inv] by (auto simp: old_def)
      ultimately show ?thesis using D(2) [of l i] by (simp add: c' len nth nth_append)
    qed
  next
    fix q assume "q \<in> set (p # ps)"
    then consider "q = p" | "q \<in> set ps" by auto
    then show "\<exists>i. pn_rx q = Some i \<and> i < length (co_chans c') \<and> ch_rx (co_chans c' ! i)
        \<and> (ch_tx (co_chans c' ! i) \<longrightarrow> hm_get (co_inner c') (pn_key q) = Some i)"
    proof cases
      case 1
      then show ?thesis by (simp add: p c' map_simps)
    next
      case 2
      from D(3) [OF this] obtain i where "pn_rx q = Some i" "i < length (co_chans c)"
        "ch_rx (co_chans c ! i)" "ch_tx (co_chans c ! i) \<longrightarrow> hm_get (co_inner c) (pn_key q) = Some i"
        by blast
      then show ?thesis by (auto simp: c' len nth nth_append map_simps old_def)
    qed
  next
    have "Some (length cs) \<notin> set (map pn_rx ps)" using D(3) by (fastforce simp: len)
    then show "distinct (map pn_rx (p # ps))" using D(4) by (simp add: p)
  qed
qed

lemma co_inv_resolve:
  assumes inv: "co_inv \<lparr>cs_co = c, cs_live = ps\<rparr>" and r: "co_resolve k v c = (back, c')"
  shows "co_inv \<lparr>cs_co = c', cs_live = ps\<rparr>"
proof (cases "hm_get (co_inner c) k")
  case None
  with r inv show ?thesis by (simp add: co_resolve_def)
next
  case (Some tx)
  note D = co_invD [OF inv]
  have tx: "tx < length (co_chans c)" "co_chans c ! tx = chan_new" using D(2) [OF Some] by auto
  with r Some have c': "c' = c\<lparr>co_inner := hm_remove k (co_inner c),
      co_chans := (co_chans c)[tx := chan_new\<lparr>ch_value := Some v, ch_tx := False\<rparr>]\<rparr>"
    by (simp add: co_resolve_def tx_send_def)
  show ?thesis
  proof (rule co_invI)
    show "hm_wf (co_inner c')" using D(1) by (simp add: c' hm_wf_remove)
  next
    fix l i assume "hm_get (co_inner c') l = Some i"
    then have l: "l \<noteq> k" "hm_get (co_inner c) l = Some i" by (auto simp: c' map_simps split: if_splits)
    then have "i \<noteq> tx" using map_channel_unique [OF inv] Some by auto
    with D(2) [OF l(2)] show "i < length (co_chans c') \<and> co_chans c' ! i = chan_new
        \<and> \<lparr>pn_key = l, pn_rx = Some i\<rparr> \<in> set ps" by (simp add: c')
  next
    fix q assume "q \<in> set ps"
    from D(3) [OF this] obtain i where "pn_rx q = Some i" "i < length (co_chans c)"
      "ch_rx (co_chans c ! i)" "ch_tx (co_chans c ! i) \<longrightarrow> hm_get (co_inner c) (pn_key q) = Some i"
      by blast
    with Some show "\<exists>i. pn_rx q = Some i \<and> i < length (co_chans c') \<and> ch_rx (co_chans c' ! i)
        \<and> (ch_tx (co_chans c' ! i) \<longrightarrow> hm_get (co_inner c') (pn_key q) = Some i)"
      using tx by (cases "i = tx") (auto simp: c' map_simps)
  qed (rule D(4))
qed

lemma co_inv_drop:
  assumes inv: "co_inv \<lparr>cs_co = c, cs_live = ps\<rparr>" and p: "p \<in> set ps"
  shows "co_inv \<lparr>cs_co = pn_drop p c, cs_live = remove1 p ps\<rparr>"
proof -
  note D = co_invD [OF inv]
  from D(3) [OF p] obtain r where r: "pn_rx p = Some r" "r < length (co_chans c)" by blast
  define c' where "c' = pn_drop p c"
  have inner: "co_inner c' = hm_remove (pn_key p) (co_inner c)"
    by (simp add: c'_def pn_drop_def co_remove_def Let_def r)
  have len: "length (co_chans c') = length (co_chans c)"
    by (simp add: c'_def pn_drop_def co_remove_def Let_def r split: option.split)
  have nth: "i < length (co_chans c) \<Longrightarrow> i \<noteq> r \<Longrightarrow> co_chans c' ! i =
      (if hm_get (co_inner c) (pn_key p) = Some i then (co_chans c ! i)\<lparr>ch_tx := False\<rparr>
       else co_chans c ! i)" for i
    by (auto simp: c'_def pn_drop_def co_remove_def Let_def r split: option.split)
  have dist: "distinct ps" using D(4) by (simp add: distinct_map)
  show ?thesis unfolding c'_def [symmetric]
  proof (rule co_invI)
    show "hm_wf (co_inner c')" using D(1) by (simp add: inner hm_wf_remove)
  next
    fix l i assume "hm_get (co_inner c') l = Some i"
    then have l: "l \<noteq> pn_key p" "hm_get (co_inner c) l = Some i"
      by (auto simp: inner map_simps split: if_splits)
    note M = D(2) [OF l(2)]
    then have "i \<noteq> r" using rx_unique [OF inv p, of "\<lparr>pn_key = l, pn_rx = Some i\<rparr>"] r l by auto
    moreover have "hm_get (co_inner c) (pn_key p) \<noteq> Some i"
      using map_channel_unique [OF inv] l by auto
    ultimately show "i < length (co_chans c') \<and> co_chans c' ! i = chan_new
        \<and> \<lparr>pn_key = l, pn_rx = Some i\<rparr> \<in> set (remove1 p ps)"
      using M l dist by (auto simp: len nth set_remove1_eq)
  next
    fix q assume "q \<in> set (remove1 p ps)"
    then have q: "q \<in> set ps" "q \<noteq> p" using dist by (auto simp: set_remove1_eq)
    from D(3) [OF q(1)] obtain i where i: "pn_rx q = Some i" "i < length (co_chans c)"
      "ch_rx (co_chans c ! i)" "ch_tx (co_chans c ! i) \<longrightarrow> hm_get (co_inner c) (pn_key q) = Some i"
      by blast
    then have "i \<noteq> r" using rx_unique [OF inv p q(1)] r q by auto
    with i show "\<exists>i. pn_rx q = Some i \<and> i < length (co_chans c') \<and> ch_rx (co_chans c' ! i)
        \<and> (ch_tx (co_chans c' ! i) \<longrightarrow> hm_get (co_inner c') (pn_key q) = Some i)"
      by (auto simp: len nth inner map_simps)
  next
    show "distinct (map pn_rx (remove1 p ps))" using D(4) by (simp add: distinct_map inj_on_def dist set_remove1_eq)
  qed
qed

lemma pn_wait_cases:
  "pn_wait p c = (None, c') \<Longrightarrow> c' = c"
  "pn_wait p c = (Some r, c') \<Longrightarrow> c' = pn_drop p c"
  by (auto simp: pn_wait_def split: option.splits)

lemma co_inv_step: "co_step s s' \<Longrightarrow> co_inv s \<Longrightarrow> co_inv s'"
proof (induction rule: co_step.induct)
  case (poll p ps c c')
  then show ?case using pn_wait_cases(1) by metis
next
  case (finished p ps c r c')
  then show ?case using pn_wait_cases(2) co_inv_drop by metis
qed (auto intro: co_inv_register co_inv_resolve co_inv_drop)

lemma co_inv_init: "co_inv co_init"
  by (simp add: co_inv_def co_init_def co_new_def Let_def) (simp add: hm_wf_def)

lemma co_reachable_inv: "co_reachable s \<Longrightarrow> co_inv s"
  unfolding co_reachable_def
  by (induction rule: rtranclp_induct) (auto intro: co_inv_init co_inv_step)

lemma co_pending_bound:
  assumes "co_inv \<lparr>cs_co = c, cs_live = ps\<rparr>"
  shows "co_pending c \<le> length ps"
proof -
  let ?f = "\<lambda>(k, i). \<lparr>pn_key = k, pn_rx = Some (i :: nat)\<rparr>"
  have wf: "distinct (map fst (co_inner c))" using co_invD(1) [OF assms] by (simp add: hm_wf_def)
  then have "distinct (co_inner c)" by (simp add: distinct_map)
  moreover have "inj_on ?f (set (co_inner c))" by (auto simp: inj_on_def)
  ultimately have "length (co_inner c) = card (?f ` set (co_inner c))"
    by (simp add: card_image distinct_card)
  also have "?f ` set (co_inner c) \<subseteq> set ps"
    using co_invD(2) [OF assms] wf by (auto simp: map_of_eq_Some_iff)
  then have "card (?f ` set (co_inner c)) \<le> card (set ps)" by (simp add: card_mono)
  also have "\<dots> \<le> length ps" by (rule card_length)
  finally show ?thesis by (simp add: co_pending_def)
qed

lemma co_sys_cases: obtains c ps where "s = \<lparr>cs_co = c, cs_live = ps\<rparr>"
  by (cases s) blast

section \<open>Properties\<close>

text \<open>
  C5: nothing leaks. In every state the correlator and its callers can reach, whatever order
  registrations, answers, abandoned waits and finished waits come in, each outstanding entry
  belongs to a registration somebody still holds, so there are never more entries than
  waiters, and none when nobody waits.
\<close>

theorem correlator_no_leak:
  assumes "co_reachable s"
  shows "co_pending (cs_co s) \<le> length (cs_live s)
    \<and> (\<forall>k i. hm_get (co_inner (cs_co s)) k = Some i
        \<longrightarrow> \<lparr>pn_key = k, pn_rx = Some i\<rparr> \<in> set (cs_live s))"
proof (cases s rule: co_sys_cases)
  case (1 c ps)
  then have inv: "co_inv \<lparr>cs_co = c, cs_live = ps\<rparr>" using co_reachable_inv [OF assms] by simp
  show ?thesis using co_pending_bound [OF inv] co_invD(2) [OF inv] 1 by simp
qed

theorem correlator_no_leak_witness:
  "co_pending (cs_co \<lparr>cs_co = snd (co_register (5 :: nat) (co_new :: (nat, bool) correlator)),
      cs_live = [fst (co_register (5 :: nat) (co_new :: (nat, bool) correlator))]\<rparr>) \<le> Suc 0"
proof -
  let ?c = "co_new :: (nat, bool) correlator"
  have "co_step co_init \<lparr>cs_co = snd (co_register 5 ?c), cs_live = [fst (co_register 5 ?c)]\<rparr>"
    unfolding co_init_def by (rule co_step.register [where k = 5]) simp
  then have "co_reachable \<lparr>cs_co = snd (co_register 5 ?c), cs_live = [fst (co_register 5 ?c)]\<rparr>"
    by (simp add: co_reachable_def)
  from correlator_no_leak [OF this] show ?thesis by simp
qed

text \<open>
  an answer reaches exactly the registration that is current for its key. If there is one,
  the value is consumed, that registration's wait ends with it and the key is free again; if
  there is none, the value comes back to the caller and nothing changes. No reachable state loses
  a value in between.
\<close>

theorem correlator_delivers:
  assumes "co_reachable s"
  shows "case hm_get (co_inner (cs_co s)) k of
      Some i \<Rightarrow> fst (co_resolve k v (cs_co s)) = None
        \<and> fst (pn_wait \<lparr>pn_key = k, pn_rx = Some i\<rparr> (snd (co_resolve k v (cs_co s)))) = Some (Inr v)
        \<and> hm_get (co_inner (snd (co_resolve k v (cs_co s)))) k = None
    | None \<Rightarrow> co_resolve k v (cs_co s) = (Some v, cs_co s)"
proof (cases s rule: co_sys_cases)
  case (1 c ps)
  show ?thesis
  proof (cases "hm_get (co_inner c) k")
    case None
    with 1 show ?thesis by (simp add: co_resolve_def)
  next
    case (Some i)
    with co_reachable_inv [OF assms] 1 have "i < length (co_chans c)" "co_chans c ! i = chan_new"
      by (auto dest: co_invD(2))
    with Some 1 show ?thesis
      by (simp add: co_resolve_def tx_send_def pn_wait_def rx_poll_def map_simps)
  qed
qed

theorem correlator_delivers_witness:
  "fst (co_resolve 5 True (snd (co_register 5 (co_new :: (nat, bool) correlator)))) = None"
proof -
  let ?c = "co_new :: (nat, bool) correlator"
  have "co_step co_init \<lparr>cs_co = snd (co_register 5 ?c), cs_live = [fst (co_register 5 ?c)]\<rparr>"
    unfolding co_init_def by (rule co_step.register [where k = 5]) simp
  then have "co_reachable \<lparr>cs_co = snd (co_register 5 ?c), cs_live = [fst (co_register 5 ?c)]\<rparr>"
    by (simp add: co_reachable_def)
  from correlator_delivers [OF this, of 5 True] show ?thesis
    by (simp add: co_register_def co_new_def hm_insert_def Let_def)
qed

text \<open>
  C35: reusing a key cancels the older waiter, and then dropping that older registration cancels
  the newer one too. The drop removes whatever entry is under its key, so the answer that comes
  afterwards is returned as unclaimed although the newer caller is still waiting for it.
\<close>

theorem correlator_stale_drop:
  assumes "co_register k c = (p1, c1)" "co_register k c1 = (p2, c2)"
  shows "fst (pn_wait p1 c2) = Some (Inl Cancelled)
    \<and> fst (pn_wait p2 c2) = None
    \<and> fst (pn_wait p2 (pn_drop p1 c2)) = Some (Inl Cancelled)
    \<and> fst (co_resolve k v (pn_drop p1 c2)) = Some v"
proof -
  define cs where "cs = (case hm_get (co_inner c) k of
      Some old \<Rightarrow> tx_drop old (co_chans c) | None \<Rightarrow> co_chans c)"
  then have "length cs = length (co_chans c)" by (simp split: option.split)
  then have c1: "p1 = \<lparr>pn_key = k, pn_rx = Some (length cs)\<rparr>"
    "c1 = c\<lparr>co_inner := hm_insert k (length cs) (co_inner c), co_chans := cs @ [chan_new]\<rparr>"
    using assms(1) by (simp_all add: co_register_def Let_def cs_def)
  then have c2: "p2 = \<lparr>pn_key = k, pn_rx = Some (Suc (length cs))\<rparr>"
    "co_inner c2 = hm_insert k (Suc (length cs)) (hm_insert k (length cs) (co_inner c))"
    "co_chans c2 = tx_drop (length cs) (cs @ [chan_new]) @ [chan_new]"
    using assms(2) by (auto simp: co_register_def Let_def map_simps)
  then show ?thesis
    by (auto simp: c1(1) pn_wait_def rx_poll_def nth_append pn_drop_def co_remove_def Let_def
        map_simps co_resolve_def tx_drop_def rx_drop_def list_update_append)
qed

theorem correlator_stale_drop_witness:
  "fst (co_resolve 5 True (pn_drop (fst (co_register 5 (co_new :: (nat, bool) correlator)))
      (snd (co_register 5 (snd (co_register 5 (co_new :: (nat, bool) correlator))))))) = Some True"
proof -
  obtain p1 c1 where 1: "co_register 5 (co_new :: (nat, bool) correlator) = (p1, c1)" by force
  obtain p2 c2 where 2: "co_register 5 c1 = (p2, c2)" by force
  from correlator_stale_drop [OF 1 2, of True] 1 2 show ?thesis by simp
qed

end
