(* ===== verification/Adapter_Tx.thy ===== *)
theory Adapter_Tx
  imports Zdo
begin

text \<open>
  The types that cross the adapter boundary, \<open>rszigbee-adapter/src/tx.rs\<close> and
  \<open>error.rs\<close>. A duration is a natural number of nanoseconds.
\<close>

section \<open>Time\<close>

text \<open>
  A \<open>Duration\<close> and an \<open>Instant\<close> count nanoseconds; a \<open>SystemTime\<close> counts them from the Unix
  epoch and may be before it. \<open>duration_since\<close> fails when time went backwards.
\<close>

type_synonym duration = nat
type_synonym instant = nat
type_synonym system_time = int

definition secs :: "nat \<Rightarrow> duration" where
  "secs n = n * 1000000000"

definition millis :: "nat \<Rightarrow> duration" where
  "millis n = n * 1000000"

definition duration_since :: "system_time \<Rightarrow> system_time \<Rightarrow> duration option" where
  "duration_since a b = (if b \<le> a then Some (nat (a - b)) else None)"

section \<open>Failures\<close>

datatype tx_failure =
    NoAck | NoRoute | CoordinatorBusy | TxRejected | TxTimeout duration | AdapterStatus u16

fun txf_is_transient :: "tx_failure \<Rightarrow> bool" where
  "txf_is_transient CoordinatorBusy = True"
| "txf_is_transient NoAck = True"
| "txf_is_transient (TxTimeout _) = True"
| "txf_is_transient _ = False"

datatype disconnect_reason = SerialClosed | CoordinatorReset | ProtocolError string | Requested

datatype adapter_error =
    NotConnected
  | Disconnected disconnect_reason
  | AeTx tx_failure
  | AeCodec codec_error
  | Unsupported string
  | IncompatibleFirmware string
  | NetworkMismatch string
  | AeTransport string
  | AeTimeout duration

section \<open>Requests\<close>

datatype broadcast_address = BcAll | BcRxOnWhenIdle | BcRouters | BcLowPowerRouters

primrec bc_to_nwk :: "broadcast_address \<Rightarrow> nwk" where
  "bc_to_nwk BcAll = Nwk 0xffff"
| "bc_to_nwk BcRxOnWhenIdle = Nwk 0xfffd"
| "bc_to_nwk BcRouters = Nwk 0xfffc"
| "bc_to_nwk BcLowPowerRouters = Nwk 0xfff8"

datatype destination =
    Unicast (dst_ieee: ieee) (dst_nwk: nwk)
  | DstGroup group_id
  | Broadcast broadcast_address

datatype send_policy = PolQueue | PolImmediate | PolBulk | PolKeepPayload | PolKeepCommand

record tx_options =
  txo_expect_response :: bool
  txo_disable_default_response :: bool
  txo_disable_recovery :: bool
  txo_timeout :: duration
  txo_policy :: send_policy

definition txo_default :: tx_options where
  "txo_default =
     \<lparr>txo_expect_response = True, txo_disable_default_response = False,
      txo_disable_recovery = False, txo_timeout = secs 10, txo_policy = PolQueue\<rparr>"

definition txo_no_response :: tx_options where
  "txo_no_response = txo_default\<lparr>txo_expect_response := False\<rparr>"

definition txo_probe :: "duration \<Rightarrow> tx_options" where
  "txo_probe timeout =
     \<lparr>txo_expect_response = True, txo_disable_default_response = True,
      txo_disable_recovery = True, txo_timeout = timeout, txo_policy = PolImmediate\<rparr>"

definition txo_with_policy :: "send_policy \<Rightarrow> tx_options \<Rightarrow> tx_options" where
  "txo_with_policy p t = t\<lparr>txo_policy := p\<rparr>"

definition txo_with_timeout :: "duration \<Rightarrow> tx_options \<Rightarrow> tx_options" where
  "txo_with_timeout d t = t\<lparr>txo_timeout := d\<rparr>"

record zcl_tx =
  ztx_dest :: destination
  ztx_endpoint :: endpoint_id
  ztx_source_endpoint :: endpoint_id
  ztx_profile :: profile_id
  ztx_cluster :: cluster_id
  ztx_frame :: "u8 list"
  ztx_options :: tx_options

definition ztx_unicast ::
  "ieee \<Rightarrow> nwk \<Rightarrow> endpoint_id \<Rightarrow> cluster_id \<Rightarrow> u8 list \<Rightarrow> zcl_tx" where
  "ztx_unicast i n ep c frame =
     \<lparr>ztx_dest = Unicast i n, ztx_endpoint = ep, ztx_source_endpoint = endpoint_HA,
      ztx_profile = profile_HA, ztx_cluster = c, ztx_frame = frame, ztx_options = txo_default\<rparr>"

definition ztx_group :: "group_id \<Rightarrow> endpoint_id \<Rightarrow> cluster_id \<Rightarrow> u8 list \<Rightarrow> zcl_tx" where
  "ztx_group g ep c frame =
     \<lparr>ztx_dest = DstGroup g, ztx_endpoint = ep, ztx_source_endpoint = endpoint_HA,
      ztx_profile = profile_HA, ztx_cluster = c, ztx_frame = frame, ztx_options = txo_default\<rparr>"

definition ztx_broadcast ::
  "broadcast_address \<Rightarrow> endpoint_id \<Rightarrow> cluster_id \<Rightarrow> u8 list \<Rightarrow> zcl_tx" where
  "ztx_broadcast a ep c frame =
     \<lparr>ztx_dest = Broadcast a, ztx_endpoint = ep, ztx_source_endpoint = endpoint_HA,
      ztx_profile = profile_HA, ztx_cluster = c, ztx_frame = frame, ztx_options = txo_default\<rparr>"

definition ztx_with_options :: "tx_options \<Rightarrow> zcl_tx \<Rightarrow> zcl_tx" where
  "ztx_with_options t x = x\<lparr>ztx_options := t\<rparr>"

record zcl_rx =
  zrx_ieee :: "ieee option"
  zrx_nwk :: nwk
  zrx_endpoint :: endpoint_id
  zrx_destination_endpoint :: endpoint_id
  zrx_cluster :: cluster_id
  zrx_group :: "group_id option"
  zrx_was_broadcast :: bool
  zrx_link_quality :: "u8 option"
  zrx_frame :: "u8 list"

record zdo_tx =
  zdtx_dest :: destination
  zdtx_cluster :: zdo_cluster
  zdtx_payload :: "u8 list"
  zdtx_options :: tx_options

datatype tx_confirm = Acked | Sent | Queued | ConfirmFailed tx_failure

end
