(* ===== verification/Device.thy ===== *)
theory Device
  imports Adapter_Tx
begin

text \<open>
  The device and endpoint model, \<open>rszigbee-core/src/device.rs\<close>.
\<close>

datatype device_kind = DkCoordinator | DkRouter | DkEndDevice | DkGreenPower | DkUnknown

datatype power_source = PsMains | PsBattery | PsDc | PsEmergencyMains | PsUnknown

datatype interview_state = IsPending | IsInProgress | IsSuccessful | IsFailed

definition is_to_persisted :: "interview_state \<Rightarrow> interview_state" where
  "is_to_persisted s = (case s of IsInProgress \<Rightarrow> IsPending | other \<Rightarrow> other)"

definition is_is_settled :: "interview_state \<Rightarrow> bool" where
  "is_is_settled s \<longleftrightarrow> s = IsSuccessful \<or> s = IsFailed"

record basic_info =
  bi_manufacturer_name :: "string option"
  bi_model_id :: "string option"
  bi_date_code :: "string option"
  bi_software_build_id :: "string option"
  bi_zcl_version :: "u8 option"
  bi_app_version :: "u8 option"
  bi_stack_version :: "u8 option"
  bi_hardware_version :: "u8 option"

definition bi_default :: basic_info where
  "bi_default =
     \<lparr>bi_manufacturer_name = None, bi_model_id = None, bi_date_code = None,
      bi_software_build_id = None, bi_zcl_version = None, bi_app_version = None,
      bi_stack_version = None, bi_hardware_version = None\<rparr>"

record endpoint_info =
  ep_id :: endpoint_id
  ep_profile :: profile_id
  ep_device_id :: u16
  ep_input_clusters :: "cluster_id list"
  ep_output_clusters :: "cluster_id list"

definition ep_has_input :: "cluster_id \<Rightarrow> endpoint_info \<Rightarrow> bool" where
  "ep_has_input c e \<longleftrightarrow> c \<in> set (ep_input_clusters e)"

record device_info =
  di_ieee :: ieee
  di_nwk :: nwk
  di_kind :: device_kind
  di_power_source :: power_source
  di_interview :: interview_state
  di_basic :: basic_info
  di_endpoints :: "endpoint_info list"
  di_checkin_interval :: "duration option"
  di_last_seen :: "system_time option"
  di_link_quality :: "u8 option"

definition di_new :: "ieee \<Rightarrow> nwk \<Rightarrow> device_kind \<Rightarrow> device_info" where
  "di_new i n kind =
     \<lparr>di_ieee = i, di_nwk = n, di_kind = kind, di_power_source = PsUnknown,
      di_interview = IsPending, di_basic = bi_default, di_endpoints = [],
      di_checkin_interval = None, di_last_seen = None, di_link_quality = None\<rparr>"

definition di_endpoint :: "endpoint_id \<Rightarrow> device_info \<Rightarrow> endpoint_info option" where
  "di_endpoint e d = find (\<lambda>x. ep_id x = e) (di_endpoints d)"

definition di_endpoint_with_input :: "cluster_id \<Rightarrow> device_info \<Rightarrow> endpoint_info option" where
  "di_endpoint_with_input c d = find (ep_has_input c) (di_endpoints d)"

definition di_is_sleepy :: "device_info \<Rightarrow> bool" where
  "di_is_sleepy d \<longleftrightarrow>
     (if di_checkin_interval d \<noteq> None then True
      else case di_power_source d of
        PsBattery \<Rightarrow> True
      | PsMains \<Rightarrow> False
      | PsDc \<Rightarrow> False
      | PsEmergencyMains \<Rightarrow> False
      | PsUnknown \<Rightarrow> di_kind d \<noteq> DkCoordinator)"

definition di_label :: "device_info \<Rightarrow> string" where
  "di_label d =
     (case (bi_manufacturer_name (di_basic d), bi_model_id (di_basic d)) of
        (Some m, Some mo) \<Rightarrow> m @ '' '' @ mo @ '' ('' @ ieee_display (di_ieee d) @ '')''
      | (None, Some mo) \<Rightarrow> mo @ '' ('' @ ieee_display (di_ieee d) @ '')''
      | _ \<Rightarrow> ''unknown device ('' @ ieee_display (di_ieee d) @ '')'')"

lemma di_endpoint_with_input_Some:
  "di_endpoint_with_input c d = Some e \<Longrightarrow> e \<in> set (di_endpoints d) \<and> c \<in> set (ep_input_clusters e)"
  by (auto simp: di_endpoint_with_input_def ep_has_input_def find_Some_iff)

lemma di_endpoint_with_input_None:
  "di_endpoint_with_input c d = None \<longleftrightarrow> (\<forall>e \<in> set (di_endpoints d). c \<notin> set (ep_input_clusters e))"
  by (simp add: di_endpoint_with_input_def ep_has_input_def find_None_iff) blast

text \<open>The label ends with the address, so two devices never share a label.\<close>

lemma di_label_suffix: "\<exists>p. di_label d = p @ ieee_display (di_ieee d) @ '')''"
proof -
  have "\<exists>p. m @ '' '' @ mo @ '' ('' @ s = p @ s" "\<exists>p. mo @ '' ('' @ s = p @ s"
    "\<exists>p. ''unknown device ('' @ s = p @ s" for m mo s :: string
    by (rule exI [of _ "m @ '' '' @ mo @ '' (''"], simp) (rule exI [of _ "mo @ '' (''"], simp,
        rule exI [of _ "''unknown device (''"], simp)
  then show ?thesis by (auto simp: di_label_def split: option.split)
qed

end
