(* ===== verification/Reachability.thy ===== *)
theory Reachability
  imports Device
begin

text \<open>
  Reachability, \<open>rszigbee-core/src/reachability.rs\<close>: the facts kept per device, the events that
  record them, and the default policy. The policy is an interface: \<open>assess\<close> takes a context and
  gives a verdict with what to do next.
\<close>

section \<open>Facts\<close>

datatype reachability = RUnknown | RReachable | RUnreachable

datatype probe_result = Answered | ProbeFailed tx_failure

datatype evidence =
  EvTraffic | EvCommandAcked | EvCommandFailed tx_failure | EvProbe probe_result | EvElapsed

record reachability_info =
  ri_state :: reachability
  ri_is_sleepy :: bool
  ri_last_seen :: "system_time option"
  ri_last_tx_ok :: "instant option"
  ri_last_tx_err :: "(instant \<times> tx_failure) option"
  ri_last_probe :: "(instant \<times> probe_result) option"
  ri_consecutive_probe_failures :: u32

definition ri_default :: reachability_info where
  "ri_default =
     \<lparr>ri_state = RUnknown, ri_is_sleepy = False, ri_last_seen = None, ri_last_tx_ok = None,
      ri_last_tx_err = None, ri_last_probe = None, ri_consecutive_probe_failures = 0\<rparr>"

definition ri_silence :: "system_time \<Rightarrow> reachability_info \<Rightarrow> duration option" where
  "ri_silence now r = Option.bind (ri_last_seen r) (duration_since now)"

definition ri_record_traffic :: "system_time \<Rightarrow> reachability_info \<Rightarrow> reachability_info" where
  "ri_record_traffic at r = r\<lparr>ri_last_seen := Some at, ri_consecutive_probe_failures := 0\<rparr>"

definition ri_record_tx :: "instant \<Rightarrow> tx_failure + unit \<Rightarrow> reachability_info \<Rightarrow> reachability_info" where
  "ri_record_tx at result r =
     (case result of
        Inr () \<Rightarrow> r\<lparr>ri_last_tx_ok := Some at\<rparr>
      | Inl e \<Rightarrow> r\<lparr>ri_last_tx_err := Some (at, e)\<rparr>)"

definition sat_inc :: "u32 \<Rightarrow> u32" where
  "sat_inc n = (if n = - 1 then n else n + 1)"

definition ri_record_probe :: "instant \<Rightarrow> probe_result \<Rightarrow> reachability_info \<Rightarrow> reachability_info" where
  "ri_record_probe at result r =
     (let r = r\<lparr>ri_last_probe := Some (at, result)\<rparr> in
      case result of
        Answered \<Rightarrow> r\<lparr>ri_consecutive_probe_failures := 0\<rparr>
      | ProbeFailed _ \<Rightarrow> r\<lparr>ri_consecutive_probe_failures := sat_inc (ri_consecutive_probe_failures r)\<rparr>)"

section \<open>Policies\<close>

record reach_context =
  rc_device :: device_info
  rc_current :: reachability_info
  rc_now :: instant
  rc_wall_now :: system_time

datatype next_check =
    NcProbe (nc_at: instant) (nc_attempts: u8) (nc_allow_recovery: bool)
  | NcReassess instant
  | NcAwaitTraffic

record assessment =
  as_verdict :: reachability
  as_next :: next_check

record silence_policy =
  sp_silence_limit :: duration

definition sp_default :: silence_policy where
  "sp_default = \<lparr>sp_silence_limit = secs (1500 * 60)\<rparr>"

definition sp_assess :: "silence_policy \<Rightarrow> reach_context \<Rightarrow> assessment" where
  "sp_assess p ctx =
     (case ri_silence (rc_wall_now ctx) (rc_current ctx) of
        None \<Rightarrow> \<lparr>as_verdict = RUnknown, as_next = NcAwaitTraffic\<rparr>
      | Some silence \<Rightarrow>
          if silence < sp_silence_limit p
          then \<lparr>as_verdict = RReachable,
                as_next = NcReassess (rc_now ctx + (sp_silence_limit p - silence))\<rparr>
          else \<lparr>as_verdict = RUnreachable, as_next = NcAwaitTraffic\<rparr>)"

section \<open>The failure counter\<close>

text \<open>A history of what was recorded for one device, newest last.\<close>

datatype reach_event =
    RTraffic system_time
  | RTx instant "tx_failure + unit"
  | RProbe instant probe_result

primrec ri_apply :: "reach_event \<Rightarrow> reachability_info \<Rightarrow> reachability_info" where
  "ri_apply (RTraffic t) r = ri_record_traffic t r"
| "ri_apply (RTx t x) r = ri_record_tx t x r"
| "ri_apply (RProbe t p) r = ri_record_probe t p r"

definition ri_run :: "reach_event list \<Rightarrow> reachability_info \<Rightarrow> reachability_info" where
  "ri_run es r = fold ri_apply es r"

text \<open>The number of probes that failed since anything was heard, counted from the history.\<close>

fun failures_since :: "nat \<Rightarrow> reach_event list \<Rightarrow> nat" where
  "failures_since n [] = n"
| "failures_since n (RTraffic _ # es) = failures_since 0 es"
| "failures_since n (RTx _ _ # es) = failures_since n es"
| "failures_since n (RProbe _ Answered # es) = failures_since 0 es"
| "failures_since n (RProbe _ (ProbeFailed _) # es) = failures_since (Suc n) es"

definition u32_max :: nat where
  "u32_max = 4294967295"

lemma sat_inc_unat: "unat (sat_inc n) = min u32_max (Suc (unat n))"
proof (cases "n = - 1")
  case True
  then have "unat n = u32_max" by (simp add: u32_max_def unsigned_minus_1_eq_mask mask_eq_exp_minus_1)
  with True show ?thesis by (simp add: sat_inc_def)
next
  case False
  have "unat n < 2 ^ 32" using unsigned_less [of n] by simp
  moreover have "unat n \<noteq> u32_max"
  proof
    assume "unat n = u32_max"
    then have "n = - 1"
      by (simp add: u32_max_def word_unat_eq_iff unsigned_minus_1_eq_mask mask_eq_exp_minus_1)
    with False show False ..
  qed
  ultimately have "Suc (unat n) < 2 ^ 32" by (simp add: u32_max_def)
  then have "unat (n + 1) = Suc (unat n)" by (simp add: unat_word_ariths)
  with False \<open>Suc (unat n) < 2 ^ 32\<close> show ?thesis by (simp add: sat_inc_def u32_max_def)
qed

lemma failure_counter_run:
  "unat (ri_consecutive_probe_failures r) = min u32_max n \<Longrightarrow>
     unat (ri_consecutive_probe_failures (ri_run es r)) = min u32_max (failures_since n es)"
proof (induction n es arbitrary: r rule: failures_since.induct)
  case (3 n t x es)
  then show ?case
    by (cases x) (auto simp: ri_run_def ri_record_tx_def split: unit.split)
qed (simp_all add: ri_run_def ri_record_traffic_def ri_record_probe_def Let_def sat_inc_unat)

definition rc_later :: "duration \<Rightarrow> reach_context \<Rightarrow> reach_context" where
  "rc_later d ctx = ctx\<lparr>rc_now := rc_now ctx + d, rc_wall_now := rc_wall_now ctx + int d\<rparr>"

lemma silence_later:
  "ri_silence w r = Some s \<Longrightarrow> ri_silence (w + int d) r = Some (s + d)"
  by (auto simp: ri_silence_def bind_eq_Some_conv duration_since_def split: if_splits)

section \<open>Properties\<close>

text \<open>
  the failure counter means what its name says. After any history of traffic, transmissions
  and probes it is the number of probes that failed since the device was last heard, capped at
  the largest 32-bit number; a transmission never touches it.
\<close>

theorem probe_failure_counter:
  "unat (ri_consecutive_probe_failures (ri_run es ri_default)) = min u32_max (failures_since 0 es)"
  by (rule failure_counter_run) (simp add: ri_default_def)

text \<open>
  C29: the default policy always comes to a conclusion. When it says to reassess, the time it
  names is in the future; asked at any moment before it, with nothing heard in between, it still
  says reachable, and asked at that time it says unreachable and schedules nothing more.
\<close>

theorem silence_policy_concludes:
  assumes "as_next (sp_assess p ctx) = NcReassess at"
  shows "rc_now ctx < at
    \<and> (\<forall>d < at - rc_now ctx. as_verdict (sp_assess p (rc_later d ctx)) = RReachable)
    \<and> sp_assess p (rc_later (at - rc_now ctx) ctx)
        = \<lparr>as_verdict = RUnreachable, as_next = NcAwaitTraffic\<rparr>"
proof -
  from assms obtain s where s: "ri_silence (rc_wall_now ctx) (rc_current ctx) = Some s"
    "s < sp_silence_limit p" "at = rc_now ctx + (sp_silence_limit p - s)"
    by (auto simp: sp_assess_def split: option.splits if_splits)
  have later: "ri_silence (rc_wall_now (rc_later d ctx)) (rc_current (rc_later d ctx)) = Some (s + d)" for d
    using silence_later [OF s(1), of d] by (simp add: rc_later_def)
  show ?thesis using s(2,3) by (auto simp: sp_assess_def later)
qed

definition ctx_example :: reach_context where
  "ctx_example =
     \<lparr>rc_device = di_new (Ieee 1) (Nwk 2) DkEndDevice,
      rc_current = ri_record_traffic 100 ri_default, rc_now = 7, rc_wall_now = 103\<rparr>"

theorem silence_policy_concludes_witness:
  "sp_assess \<lparr>sp_silence_limit = 10\<rparr> (rc_later (14 - rc_now ctx_example) ctx_example)
     = \<lparr>as_verdict = RUnreachable, as_next = NcAwaitTraffic\<rparr>"
proof -
  have "as_next (sp_assess \<lparr>sp_silence_limit = 10\<rparr> ctx_example) = NcReassess 14"
    by (simp add: sp_assess_def ctx_example_def ri_silence_def ri_record_traffic_def
        duration_since_def)
  from silence_policy_concludes [OF this] show ?thesis by blast
qed

text \<open>
  a wall clock that has been set back makes a device that was heard unknown again, and with
  nothing scheduled: the policy treats a time before the last frame like never having heard one.
\<close>

theorem silence_policy_clock_set_back:
  assumes "ri_last_seen (rc_current ctx) = Some t" "rc_wall_now ctx < t"
  shows "sp_assess p ctx = \<lparr>as_verdict = RUnknown, as_next = NcAwaitTraffic\<rparr>"
  using assms by (simp add: sp_assess_def ri_silence_def duration_since_def)

theorem silence_policy_clock_set_back_witness:
  "sp_assess sp_default (ctx_example\<lparr>rc_wall_now := 99\<rparr>)
     = \<lparr>as_verdict = RUnknown, as_next = NcAwaitTraffic\<rparr>"
  by (rule silence_policy_clock_set_back [where t = 100])
    (simp_all add: ctx_example_def ri_record_traffic_def)

end
