(* ===== verification/Decimal.thy ===== *)
theory Decimal
  imports Rz_Prelude
begin

text \<open>
  Decimal numbers as the standard library prints and parses them: \<open>{}\<close>, the zero-padded
  \<open>{:0w}\<close>, and \<open>str::parse\<close> for an unsigned type with the given bound.
\<close>

definition dec_char :: "nat \<Rightarrow> char" where
  "dec_char d = char_of (48 + d)"

definition dec_val :: "char \<Rightarrow> nat option" where
  "dec_val c = (let x = of_char c :: nat in if 48 \<le> x \<and> x \<le> 57 then Some (x - 48) else None)"

fun show_dec :: "nat \<Rightarrow> string" where
  "show_dec n = (if n < 10 then [dec_char n] else show_dec (n div 10) @ [dec_char (n mod 10)])"

declare show_dec.simps [simp del]

definition show_dec_pad :: "nat \<Rightarrow> nat \<Rightarrow> string" where
  "show_dec_pad w n = replicate (w - length (show_dec n)) CHR ''0'' @ show_dec n"

fun dec_digits :: "nat \<Rightarrow> nat \<Rightarrow> string \<Rightarrow> nat option" where
  "dec_digits bound acc [] = Some acc"
| "dec_digits bound acc (c # cs) =
     (case dec_val c of
        None \<Rightarrow> None
      | Some d \<Rightarrow> if acc * 10 + d \<le> bound then dec_digits bound (acc * 10 + d) cs else None)"

text \<open>
  An empty string and a lone sign are errors; a leading plus sign is accepted; a leading minus
  sign is not a digit of an unsigned type.
\<close>

fun parse_dec :: "nat \<Rightarrow> string \<Rightarrow> nat option" where
  "parse_dec bound [] = None"
| "parse_dec bound (c # cs) =
     (if cs = [] \<and> (c = CHR ''+'' \<or> c = CHR ''-'') then None
      else dec_digits bound 0 (if c = CHR ''+'' then cs else c # cs))"

lemma dec_val_char [simp]: "d < 10 \<Longrightarrow> dec_val (dec_char d) = Some d"
  by (simp add: dec_val_def dec_char_def Let_def)

lemma dec_val_signs [simp]:
  "dec_val (CHR ''+'') = None" "dec_val (CHR ''-'') = None" "dec_val (CHR ''/'') = None"
  by (simp_all add: dec_val_def)

lemma dec_char_digit: "d < 10 \<Longrightarrow> dec_char d \<noteq> CHR ''+'' \<and> dec_char d \<noteq> CHR ''-'' \<and> dec_char d \<noteq> CHR ''/''"
  using dec_val_char [of d] dec_val_signs by (metis option.distinct(1))

lemma dec_digits_append:
  "dec_digits b a (xs @ ys) = (case dec_digits b a xs of None \<Rightarrow> None | Some c \<Rightarrow> dec_digits b c ys)"
  by (induction b a xs rule: dec_digits.induct) (auto split: option.splits)

lemma dec_digits_show: "n \<le> b \<Longrightarrow> dec_digits b 0 (show_dec n) = Some n"
proof (induction n rule: show_dec.induct)
  case (1 n)
  show ?case
  proof (cases "n < 10")
    case True
    with 1 show ?thesis by (simp add: show_dec.simps [of n])
  next
    case False
    then have "dec_digits b 0 (show_dec (n div 10)) = Some (n div 10)" using 1 by simp
    with False 1 show ?thesis by (simp add: show_dec.simps [of n] dec_digits_append)
  qed
qed

lemma dec_digits_zeros: "dec_digits b 0 (replicate k CHR ''0'' @ s) = dec_digits b 0 s"
  by (induction k) (simp_all add: dec_val_def)

lemma show_dec_digits: "c \<in> set (show_dec n) \<Longrightarrow> \<exists>d < 10. c = dec_char d"
proof (induction n rule: show_dec.induct)
  case (1 n)
  show ?case
  proof (cases "n < 10")
    case True
    with 1 show ?thesis by (auto simp: show_dec.simps [of n])
  next
    case False
    then have "c \<in> set (show_dec (n div 10)) \<or> c = dec_char (n mod 10)"
      using 1(2) by (auto simp: show_dec.simps [of n])
    moreover have "n mod 10 < 10" by simp
    ultimately show ?thesis using 1(1) False by blast
  qed
qed

lemma zero_digit: "CHR ''0'' = dec_char 0"
proof -
  have "of_char CHR ''0'' = (48 :: nat)" by simp
  then have "char_of (48 :: nat) = CHR ''0''" by (metis char_of_char)
  then show ?thesis by (simp add: dec_char_def)
qed

lemma show_dec_pad_digits: "c \<in> set (show_dec_pad w n) \<Longrightarrow> \<exists>d < 10. c = dec_char d"
  using show_dec_digits [of c n] zero_digit
  by (cases "c = CHR ''0''") (auto simp: show_dec_pad_def intro: exI [of _ 0])

lemma show_dec_nonempty [simp]: "show_dec n \<noteq> []"
  by (simp add: show_dec.simps [of n])

lemma parse_dec_digits:
  assumes "s \<noteq> []" "\<forall>c \<in> set s. \<exists>d < 10. c = dec_char d"
  shows "parse_dec b s = dec_digits b 0 s"
proof (cases s)
  case Nil
  with assms show ?thesis by simp
next
  case (Cons c cs)
  then have "c \<noteq> CHR ''+''" "c \<noteq> CHR ''-''" using assms(2) dec_char_digit by auto
  with Cons show ?thesis by simp
qed

text \<open>Printing and parsing are inverse, padded or not.\<close>

lemma parse_show_dec: "n \<le> b \<Longrightarrow> parse_dec b (show_dec n) = Some n"
  using show_dec_digits by (simp add: parse_dec_digits dec_digits_show)

lemma parse_show_dec_pad: "n \<le> b \<Longrightarrow> parse_dec b (show_dec_pad w n) = Some n"
proof -
  assume n: "n \<le> b"
  have "show_dec_pad w n \<noteq> []" by (simp add: show_dec_pad_def)
  then have "parse_dec b (show_dec_pad w n) = dec_digits b 0 (show_dec_pad w n)"
    using show_dec_pad_digits by (intro parse_dec_digits) blast+
  then show ?thesis using n by (simp add: show_dec_pad_def dec_digits_zeros dec_digits_show)
qed

lemma show_dec_inj: "show_dec m = show_dec n \<Longrightarrow> m = n"
  by (metis parse_show_dec max.cobounded1 max.cobounded2 option.inject)

section \<open>\<open>rsplit_once\<close>\<close>

text \<open>Splits at the last occurrence of a character.\<close>

definition rsplit_once :: "char \<Rightarrow> string \<Rightarrow> (string \<times> string) option" where
  "rsplit_once c s =
     (let tail = takeWhile (\<lambda>x. x \<noteq> c) (rev s) in
      if length tail = length s then None
      else Some (take (length s - length tail - 1) s, rev tail))"

lemma rsplit_once_append:
  assumes "c \<notin> set t"
  shows "rsplit_once c (h @ c # t) = Some (h, t)"
proof -
  have "takeWhile (\<lambda>x. x \<noteq> c) (rev t @ c # rev h) = rev t"
    using assms by (subst takeWhile_append2) auto
  then show ?thesis by (simp add: rsplit_once_def)
qed

lemma rsplit_once_absent: "c \<notin> set s \<Longrightarrow> rsplit_once c s = None"
proof -
  assume "c \<notin> set s"
  then have "takeWhile (\<lambda>x. x \<noteq> c) (rev s) = rev s" by (subst takeWhile_eq_all_conv) auto
  then have "length (takeWhile (\<lambda>x. x \<noteq> c) (rev s)) = length s" by (simp only: length_rev)
  then show ?thesis unfolding rsplit_once_def Let_def by (simp only: if_True simp_thms)
qed

end
