(* ===== verification/Store.thy ===== *)
theory Store
  imports Std_Maps Device Decimal Utf8
begin

text \<open>
  Persistence, \<open>rszigbee-core/src/store.rs\<close> and the pure parts of \<open>store/file.rs\<close>: the stored
  records, the hexadecimal form of the network key, the in-memory store, and the names of backups
  on disk. The locale \<open>zigbee_store\<close> is the contract of the trait as far as devices go; the
  in-memory store interprets it.
\<close>

section \<open>Stored records\<close>

text \<open>A \<open>SecretKey\<close> is its sixteen bytes.\<close>

type_synonym secret_key = "u8 list"

record persisted_network =
  pnw_pan_id :: u16
  pnw_extended_pan_id :: u64
  pnw_channel :: u8
  pnw_nwk_update_id :: u8
  pnw_coordinator_ieee :: ieee
  pnw_key_sequence :: u8
  pnw_frame_counter :: u32
  pnw_network_key :: "secret_key option"

definition FRAME_COUNTER_MARGIN :: u32 where
  "FRAME_COUNTER_MARGIN = 1024"

definition pnw_needs_completing :: "persisted_network \<Rightarrow> bool" where
  "pnw_needs_completing n \<longleftrightarrow> pnw_network_key n = None \<or> pnw_frame_counter n = 0"

record persisted_endpoint =
  pep_id :: endpoint_id
  pep_profile :: profile_id
  pep_device_id :: u16
  pep_input_clusters :: "cluster_id list"
  pep_output_clusters :: "cluster_id list"

record persisted_device =
  pdv_ieee :: ieee
  pdv_nwk :: nwk
  pdv_kind :: device_kind
  pdv_power_source :: power_source
  pdv_interview :: interview_state
  pdv_basic :: basic_info
  pdv_endpoints :: "persisted_endpoint list"
  pdv_checkin_interval_secs :: "u32 option"
  pdv_last_seen_epoch_ms :: "u64 option"
  pdv_passthrough :: "(string \<times> string) list"

definition pdv_new :: "ieee \<Rightarrow> nwk \<Rightarrow> persisted_device" where
  "pdv_new i n =
     \<lparr>pdv_ieee = i, pdv_nwk = n, pdv_kind = DkUnknown, pdv_power_source = PsUnknown,
      pdv_interview = IsPending, pdv_basic = bi_default, pdv_endpoints = [],
      pdv_checkin_interval_secs = None, pdv_last_seen_epoch_ms = None, pdv_passthrough = []\<rparr>"

record persisted_group =
  pgr_id :: group_id
  pgr_members :: "(ieee \<times> endpoint_id) list"

record backup_meta =
  bm_id :: string
  bm_taken_epoch_ms :: u64
  bm_adapter :: string
  bm_coordinator_ieee :: ieee

datatype store_error =
    SeUnavailable string
  | SeCorrupt (se_location: string) (se_detail: string)
  | SeBackupNotFound string
  | SeIo string

section \<open>The network key as text\<close>

definition hex_secret_serialize :: "secret_key option \<Rightarrow> string option" where
  "hex_secret_serialize key = map_option (\<lambda>k. concat (map (\<lambda>b. hex_pad 2 (unat b)) k)) key"

text \<open>\<open>u8::from_str_radix\<close>: the parser of \<open>u64\<close> with the bound of a byte.\<close>

definition u8_from_str_radix_16 :: "string \<Rightarrow> u8 option" where
  "u8_from_str_radix_16 s =
     (case u64_from_str_radix_16 s of
        Some w \<Rightarrow> if unat w < 256 then Some (ucast w) else None
      | None \<Rightarrow> None)"

datatype key_error = KeyLength nat | KeyUtf8 | KeyDigits

fun hex_pairs :: "string \<Rightarrow> key_error + secret_key" where
  "hex_pairs (a # b # s) =
     (case from_utf8 (str_bytes [a, b]) of
        None \<Rightarrow> Inl KeyUtf8
      | Some hex \<Rightarrow>
          (case u8_from_str_radix_16 hex of
             None \<Rightarrow> Inl KeyDigits
           | Some v \<Rightarrow> (case hex_pairs s of Inl e \<Rightarrow> Inl e | Inr k \<Rightarrow> Inr (v # k))))"
| "hex_pairs _ = Inr []"

definition hex_secret_deserialize :: "string option \<Rightarrow> key_error + secret_key option" where
  "hex_secret_deserialize t =
     (case t of
        None \<Rightarrow> Inr None
      | Some text \<Rightarrow>
          if length text \<noteq> 32 then Inl (KeyLength (length text))
          else case hex_pairs text of Inl e \<Rightarrow> Inl e | Inr k \<Rightarrow> Inr (Some k))"

section \<open>The contract of a store\<close>

text \<open>
  \<open>ok\<close> is the store's own invariant and \<open>storable\<close> says which records it can write. A device is stored under its permanent address: storing it
  replaces what was there and touches nothing else, deleting removes it alone, and loading gives
  one record per address.
\<close>

lemma find_distinct:
  assumes "distinct (map f xs)"
  shows "find (\<lambda>x. f x = i) xs = Some y \<longleftrightarrow> y \<in> set xs \<and> f y = i"
  using assms
proof (induction xs)
  case Nil
  then show ?case by simp
next
  case (Cons x xs)
  show ?case
  proof (cases "f x = i")
    case True
    then have "i \<notin> f ` set xs" using Cons.prems by simp
    then show ?thesis using True by (auto simp: image_iff)
  next
    case False
    then show ?thesis using Cons by auto
  qed
qed

locale zigbee_store =
  fixes upsert :: "persisted_device \<Rightarrow> 's \<Rightarrow> store_error + 's"
    and delete :: "ieee \<Rightarrow> 's \<Rightarrow> store_error + 's"
    and load :: "'s \<Rightarrow> store_error + persisted_device list"
    and ok :: "'s \<Rightarrow> bool"
    and storable :: "persisted_device \<Rightarrow> 's \<Rightarrow> bool"
  assumes load_ok: "ok s \<Longrightarrow> \<exists>ds. load s = Inr ds \<and> distinct (map pdv_ieee ds)"
    and upsert_ok: "ok s \<Longrightarrow> storable d s \<Longrightarrow> load s = Inr ds \<Longrightarrow> \<exists>s' ds'. upsert d s = Inr s' \<and> ok s' \<and> load s' = Inr ds'
      \<and> set ds' = insert d {x \<in> set ds. pdv_ieee x \<noteq> pdv_ieee d}"
    and delete_ok: "ok s \<Longrightarrow> load s = Inr ds \<Longrightarrow> \<exists>s' ds'. delete i s = Inr s' \<and> ok s' \<and> load s' = Inr ds'
      \<and> set ds' = {x \<in> set ds. pdv_ieee x \<noteq> i}"
begin

text \<open>What a reader of the store sees: a table from address to record.\<close>

definition table :: "'s \<Rightarrow> ieee \<Rightarrow> persisted_device option" where
  "table s i = (case load s of Inl _ \<Rightarrow> None | Inr ds \<Rightarrow> find (\<lambda>d. pdv_ieee d = i) ds)"

lemma table_mem:
  assumes "ok s" "load s = Inr ds"
  shows "table s i = Some d \<longleftrightarrow> d \<in> set ds \<and> pdv_ieee d = i"
proof -
  have dist: "distinct (map pdv_ieee ds)" using load_ok [OF assms(1)] assms(2) by auto
  have "find (\<lambda>d. pdv_ieee d = i) ds = Some d \<longleftrightarrow> d \<in> set ds \<and> pdv_ieee d = i"
    by (rule find_distinct [OF dist])
  then show ?thesis by (simp add: table_def assms(2))
qed

lemma table_eqI:
  assumes "\<And>d. table s i = Some d \<longleftrightarrow> x = Some d"
  shows "table s i = x"
proof (cases x)
  case None
  then have "table s i \<noteq> Some d" for d using assms [of d] by simp
  then show ?thesis using None by (cases "table s i") auto
next
  case (Some y)
  then show ?thesis using assms [of y] by simp
qed

lemma table_upsert:
  assumes "ok s" "storable d s"
  shows "\<exists>s'. upsert d s = Inr s' \<and> ok s' \<and> table s' = (table s)(pdv_ieee d \<mapsto> d)"
proof -
  obtain ds where ds: "load s = Inr ds" using load_ok [OF assms(1)] by blast
  obtain s' ds' where s': "upsert d s = Inr s'" "ok s'" "load s' = Inr ds'"
    "set ds' = insert d {x \<in> set ds. pdv_ieee x \<noteq> pdv_ieee d}"
    using upsert_ok [OF assms ds] by blast
  have "table s' i = ((table s)(pdv_ieee d \<mapsto> d)) i" for i
    by (rule table_eqI) (auto simp: table_mem [OF assms(1) ds] table_mem [OF s'(2,3)] s'(4))
  with s' show ?thesis by blast
qed

lemma table_delete:
  assumes "ok s"
  shows "\<exists>s'. delete i s = Inr s' \<and> ok s' \<and> table s' = (table s)(i := None)"
proof -
  obtain ds where ds: "load s = Inr ds" using load_ok [OF assms] by blast
  obtain s' ds' where s': "delete i s = Inr s'" "ok s'" "load s' = Inr ds'"
    "set ds' = {x \<in> set ds. pdv_ieee x \<noteq> i}"
    using delete_ok [OF assms ds] by blast
  have "table s' j = ((table s)(i := None)) j" for j
    by (rule table_eqI) (auto simp: table_mem [OF assms ds] table_mem [OF s'(2,3)] s'(4))
  with s' show ?thesis by blast
qed

end

section \<open>The in-memory store\<close>

record memory_inner =
  mi_network :: "persisted_network option"
  mi_devices :: "(ieee, persisted_device) btree"
  mi_groups :: "(u16, persisted_group) btree"
  mi_backups :: "(backup_meta \<times> u8 list) list"

text \<open>The mutex, with whether a panic has poisoned it.\<close>

record memory_store =
  ms_poisoned :: bool
  ms_inner :: memory_inner

definition ms_new :: memory_store where
  "ms_new = \<lparr>ms_poisoned = False, ms_inner =
     \<lparr>mi_network = None, mi_devices = [], mi_groups = [], mi_backups = []\<rparr>\<rparr>"

definition ms_with :: "(memory_inner \<Rightarrow> 'a \<times> memory_inner) \<Rightarrow> memory_store \<Rightarrow> store_error + 'a \<times> memory_store" where
  "ms_with f s =
     (if ms_poisoned s then Inl (SeUnavailable ''memory store poisoned'')
      else case f (ms_inner s) of (a, i) \<Rightarrow> Inr (a, s\<lparr>ms_inner := i\<rparr>))"

definition ms_get :: "(memory_inner \<Rightarrow> 'a) \<Rightarrow> memory_store \<Rightarrow> store_error + 'a" where
  "ms_get f s = (case ms_with (\<lambda>i. (f i, i)) s of Inl e \<Rightarrow> Inl e | Inr (a, _) \<Rightarrow> Inr a)"

definition ms_update :: "(memory_inner \<Rightarrow> memory_inner) \<Rightarrow> memory_store \<Rightarrow> store_error + memory_store" where
  "ms_update f s = (case ms_with (\<lambda>i. ((), f i)) s of Inl e \<Rightarrow> Inl e | Inr (_, s) \<Rightarrow> Inr s)"

definition ms_load_network :: "memory_store \<Rightarrow> store_error + persisted_network option" where
  "ms_load_network = ms_get mi_network"

definition ms_save_network :: "persisted_network \<Rightarrow> memory_store \<Rightarrow> store_error + memory_store" where
  "ms_save_network n = ms_update (\<lambda>i. i\<lparr>mi_network := Some n\<rparr>)"

definition ms_load_devices :: "memory_store \<Rightarrow> store_error + persisted_device list" where
  "ms_load_devices = ms_get (\<lambda>i. bt_values (mi_devices i))"

definition ms_upsert_device :: "persisted_device \<Rightarrow> memory_store \<Rightarrow> store_error + memory_store" where
  "ms_upsert_device d = ms_update (\<lambda>i. i\<lparr>mi_devices := bt_insert (pdv_ieee d) d (mi_devices i)\<rparr>)"

definition ms_delete_device :: "ieee \<Rightarrow> memory_store \<Rightarrow> store_error + memory_store" where
  "ms_delete_device a = ms_update (\<lambda>i. i\<lparr>mi_devices := bt_remove a (mi_devices i)\<rparr>)"

definition ms_load_groups :: "memory_store \<Rightarrow> store_error + persisted_group list" where
  "ms_load_groups = ms_get (\<lambda>i. bt_values (mi_groups i))"

definition ms_upsert_group :: "persisted_group \<Rightarrow> memory_store \<Rightarrow> store_error + memory_store" where
  "ms_upsert_group g =
     ms_update (\<lambda>i. i\<lparr>mi_groups := bt_insert (group_raw (pgr_id g)) g (mi_groups i)\<rparr>)"

definition ms_delete_group :: "group_id \<Rightarrow> memory_store \<Rightarrow> store_error + memory_store" where
  "ms_delete_group g = ms_update (\<lambda>i. i\<lparr>mi_groups := bt_remove (group_raw g) (mi_groups i)\<rparr>)"

text \<open>\<open>now\<close> is what \<open>epoch_millis\<close> reads from the clock.\<close>

definition epoch_millis :: "system_time \<Rightarrow> u64" where
  "epoch_millis now =
     (case duration_since now 0 of
        None \<Rightarrow> 0
      | Some d \<Rightarrow> if d div 1000000 < 2 ^ 64 then of_nat (d div 1000000) else - 1)"

definition ms_save_backup ::
  "system_time \<Rightarrow> string \<Rightarrow> ieee \<Rightarrow> u8 list \<Rightarrow> memory_store \<Rightarrow> store_error + string \<times> memory_store" where
  "ms_save_backup now adapter coordinator bytes = ms_with (\<lambda>i.
     let ident = ''backup-'' @ show_dec (length (mi_backups i) + 1) in
     (ident, i\<lparr>mi_backups := mi_backups i @
        [(\<lparr>bm_id = ident, bm_taken_epoch_ms = epoch_millis now, bm_adapter = adapter,
           bm_coordinator_ieee = coordinator\<rparr>, bytes)]\<rparr>))"

definition ms_list_backups :: "memory_store \<Rightarrow> store_error + backup_meta list" where
  "ms_list_backups = ms_get (\<lambda>i. map fst (rev (mi_backups i)))"

definition ms_load_backup :: "string \<Rightarrow> memory_store \<Rightarrow> store_error + u8 list" where
  "ms_load_backup ident s =
     (case ms_get (\<lambda>i. map_option snd (find (\<lambda>(m, _). bm_id m = ident) (mi_backups i))) s of
        Inl e \<Rightarrow> Inl e
      | Inr found \<Rightarrow> ok_or (SeBackupNotFound ident) found)"

section \<open>Backups on disk\<close>

definition timestamp :: "system_time \<Rightarrow> u64 \<Rightarrow> string" where
  "timestamp now n = show_dec_pad 13 (unat (epoch_millis now)) @ ''-'' @ show_dec_pad 4 (unat n)"

definition backup_name :: "string \<Rightarrow> string \<Rightarrow> ieee \<Rightarrow> string" where
  "backup_name stamp adapter coordinator =
     stamp @ ''-'' @ adapter @ ''-'' @ ieee_display coordinator"

definition parse_backup_id :: "string \<Rightarrow> backup_meta option" where
  "parse_backup_id ident =
     Option.bind (rsplit_once CHR ''-'' ident) (\<lambda>(head, coordinator).
     case ieee_parse coordinator of
       Inl _ \<Rightarrow> None
     | Inr a \<Rightarrow>
         Option.bind (rsplit_once CHR ''-'' head) (\<lambda>(stamp, adapter).
         Option.bind (rsplit_once CHR ''-'' stamp) (\<lambda>(millis, _).
         Option.bind (parse_dec usize_max millis) (\<lambda>m.
           Some \<lparr>bm_id = ident, bm_taken_epoch_ms = of_nat m, bm_adapter = adapter,
             bm_coordinator_ieee = a\<rparr>))))"

text \<open>The check on an identifier before it becomes a file name.\<close>

fun contains_dots :: "string \<Rightarrow> bool" where
  "contains_dots (a # b # s) \<longleftrightarrow> a = CHR ''.'' \<and> b = CHR ''.'' \<or> contains_dots (b # s)"
| "contains_dots _ \<longleftrightarrow> False"

definition backup_id_ok :: "string \<Rightarrow> bool" where
  "backup_id_ok ident \<longleftrightarrow>
     \<not> (CHR ''/'' \<in> set ident \<or> CHR 0x5C \<in> set ident \<or> contains_dots ident)"

section \<open>The network key survives storage\<close>

lemma hex_char_ascii: "d < 16 \<Longrightarrow> of_char (hex_char d) < (128 :: nat)"
  by (simp add: hex_char_def)

lemma from_utf8_hex_pair:
  "from_utf8 (str_bytes (hex_pad 2 x)) = Some (hex_pad 2 x)"
proof -
  have "\<forall>c \<in> set (hex_pad 2 x). of_char c < (128 :: nat)"
    by (simp add: numeral_2_eq_2 hex_char_ascii)
  then show ?thesis by (intro from_utf8_str_bytes str_valid_ascii)
qed

lemma u8_from_str_radix_pad: "u8_from_str_radix_16 (hex_pad 2 (unat (b :: u8))) = Some b"
proof -
  have "unat b < 16 ^ Suc 1" "unat b < 2 ^ 64" using unat_byte_bound [of b] by simp_all
  from from_str_radix_pad [OF this]
  have "u64_from_str_radix_16 (hex_pad (Suc 1) (unat b)) = Some (of_nat (unat b))" .
  moreover have "Suc 1 = (2 :: nat)" by simp
  ultimately have "u64_from_str_radix_16 (hex_pad 2 (unat b)) = Some (of_nat (unat b))"
    by (simp only:)
  moreover have "unat (of_nat (unat b) :: u64) = unat b"
    by (subst unat_of_nat) (use unat_byte_bound [of b] in simp)
  ultimately show ?thesis
    using unat_byte_bound [of b]
    by (simp add: u8_from_str_radix_16_def ucast_up_ucast_id is_up)
qed

lemma hex_pad_2: "\<exists>a b. hex_pad 2 x = [a, b]"
  by (simp add: numeral_2_eq_2)

lemma hex_pairs_serialize: "hex_pairs (concat (map (\<lambda>b. hex_pad 2 (unat b)) k)) = Inr k"
proof (induction k)
  case Nil
  then show ?case by simp
next
  case (Cons x k)
  obtain a b where ab: "hex_pad 2 (unat x) = [a, b]" using hex_pad_2 by blast
  have "from_utf8 (str_bytes [a, b]) = Some [a, b]"
    using from_utf8_hex_pair [of "unat x"] by (simp add: ab)
  moreover have "u8_from_str_radix_16 [a, b] = Some x"
    using u8_from_str_radix_pad [of x] by (simp add: ab)
  ultimately show ?case using Cons by (simp add: ab)
qed

lemma length_concat_hex: "length (concat (map (\<lambda>b. hex_pad 2 (unat b)) k)) = 2 * length k"
  by (induction k) simp_all

text \<open>
  the network key is stored as text and read back unchanged, and so is its absence; a key of
  any other length than sixteen bytes is refused on reading, with the length found.
\<close>

theorem network_key_roundtrip:
  "hex_secret_deserialize (hex_secret_serialize key) =
     (case key of
        None \<Rightarrow> Inr None
      | Some k \<Rightarrow> if length k = 16 then Inr (Some k) else Inl (KeyLength (2 * length k)))"
  by (cases key)
    (simp_all add: hex_secret_serialize_def hex_secret_deserialize_def length_concat_hex
      hex_pairs_serialize del: length_concat)

section \<open>The in-memory store keeps its contract\<close>

definition ms_ok :: "memory_store \<Rightarrow> bool" where
  "ms_ok s \<longleftrightarrow> \<not> ms_poisoned s \<and> bt_wf (mi_devices (ms_inner s))
     \<and> (\<forall>e \<in> set (mi_devices (ms_inner s)). pdv_ieee (snd e) = fst e)"

lemma ms_load_devices_ok: "ms_ok s \<Longrightarrow> ms_load_devices s = Inr (bt_values (mi_devices (ms_inner s)))"
  by (simp add: ms_ok_def ms_load_devices_def ms_get_def ms_with_def)

lemma ms_ok_keys:
  assumes "ms_ok s"
  shows "map pdv_ieee (bt_values (mi_devices (ms_inner s))) = map fst (mi_devices (ms_inner s))"
  using assms by (simp add: ms_ok_def)

lemma ms_ok_filter:
  assumes "ms_ok s"
  shows "snd ` {e \<in> set (mi_devices (ms_inner s)). fst e \<noteq> k}
    = {x \<in> snd ` set (mi_devices (ms_inner s)). pdv_ieee x \<noteq> k}"
  using assms by (force simp: ms_ok_def)

interpretation ms: zigbee_store ms_upsert_device ms_delete_device ms_load_devices ms_ok
  "\<lambda>_ _. True"
proof
  fix s
  assume ok: "ms_ok s"
  then have "distinct (map fst (mi_devices (ms_inner s)))"
    by (simp add: ms_ok_def bt_wf_distinct)
  then show "\<exists>ds. ms_load_devices s = Inr ds \<and> distinct (map pdv_ieee ds)"
    using ms_load_devices_ok [OF ok] ms_ok_keys [OF ok] by metis
next
  fix s ds d
  assume ok: "ms_ok s" and ds: "ms_load_devices s = Inr ds"
  let ?m = "mi_devices (ms_inner s)"
  have ds': "ds = bt_values ?m" using ds ms_load_devices_ok [OF ok] by simp
  let ?s = "s\<lparr>ms_inner := ms_inner s\<lparr>mi_devices := bt_insert (pdv_ieee d) d ?m\<rparr>\<rparr>"
  have wf: "bt_wf ?m" using ok by (simp add: ms_ok_def)
  have "ms_upsert_device d s = Inr ?s"
    using ok by (simp add: ms_ok_def ms_upsert_device_def ms_update_def ms_with_def)
  moreover have ok': "ms_ok ?s"
    using ok by (simp add: ms_ok_def bt_wf_insert bt_set_insert [OF wf])
  moreover have "set (bt_values (bt_insert (pdv_ieee d) d ?m))
      = insert d {x \<in> set ds. pdv_ieee x \<noteq> pdv_ieee d}"
    using ds' ms_ok_filter [OF ok, of "pdv_ieee d"] by (simp add: bt_set_insert [OF wf])
  ultimately show "\<exists>s' ds'. ms_upsert_device d s = Inr s' \<and> ms_ok s' \<and> ms_load_devices s' = Inr ds'
      \<and> set ds' = insert d {x \<in> set ds. pdv_ieee x \<noteq> pdv_ieee d}"
    using ms_load_devices_ok [OF ok'] by auto
next
  fix s ds i
  assume ok: "ms_ok s" and ds: "ms_load_devices s = Inr ds"
  let ?m = "mi_devices (ms_inner s)"
  have ds': "ds = bt_values ?m" using ds ms_load_devices_ok [OF ok] by simp
  let ?s = "s\<lparr>ms_inner := ms_inner s\<lparr>mi_devices := bt_remove i ?m\<rparr>\<rparr>"
  have "ms_delete_device i s = Inr ?s"
    using ok by (simp add: ms_ok_def ms_delete_device_def ms_update_def ms_with_def)
  moreover have ok': "ms_ok ?s"
    using ok by (simp add: ms_ok_def bt_wf_remove bt_set_remove)
  moreover have "set (bt_values (bt_remove i ?m)) = {x \<in> set ds. pdv_ieee x \<noteq> i}"
    using ds' ms_ok_filter [OF ok, of i] by (simp add: bt_set_remove)
  ultimately show "\<exists>s' ds'. ms_delete_device i s = Inr s' \<and> ms_ok s' \<and> ms_load_devices s' = Inr ds'
      \<and> set ds' = {x \<in> set ds. pdv_ieee x \<noteq> i}"
    using ms_load_devices_ok [OF ok'] by auto
qed

text \<open>
  C26: the in-memory store implements a table from permanent address to record. On a healthy store
  an upsert succeeds and changes the entry of that device alone, a delete succeeds and clears the
  entry of that device alone, and both leave a healthy store.
\<close>

theorem memory_store_refines_table:
  assumes "ms_ok s"
  shows "(\<exists>s'. ms_upsert_device d s = Inr s' \<and> ms_ok s' \<and> ms.table s' = (ms.table s)(pdv_ieee d \<mapsto> d))
    \<and> (\<exists>s'. ms_delete_device i s = Inr s' \<and> ms_ok s' \<and> ms.table s' = (ms.table s)(i := None))"
  using ms.table_upsert [OF assms TrueI] ms.table_delete [OF assms] by blast

lemma ms_ok_new: "ms_ok ms_new"
  by (simp add: ms_ok_def ms_new_def bt_wf_def)

theorem memory_store_refines_table_witness:
  "(\<exists>s'. ms_upsert_device (pdv_new (Ieee 1) (Nwk 10)) ms_new = Inr s' \<and> ms_ok s'
      \<and> ms.table s' = (ms.table ms_new)(Ieee 1 \<mapsto> pdv_new (Ieee 1) (Nwk 10)))
    \<and> (\<exists>s'. ms_delete_device (Ieee 2) ms_new = Inr s' \<and> ms_ok s'
      \<and> ms.table s' = (ms.table ms_new)(Ieee 2 := None))"
  using memory_store_refines_table [OF ms_ok_new, of "pdv_new (Ieee 1) (Nwk 10)" "Ieee 2"]
  by (simp add: pdv_new_def)

section \<open>Backups\<close>

text \<open>The identifiers of the in-memory store are numbered from one, in the order of saving.\<close>

definition ms_backups_ok :: "memory_store \<Rightarrow> bool" where
  "ms_backups_ok s \<longleftrightarrow> \<not> ms_poisoned s
     \<and> map (\<lambda>b. bm_id (fst b)) (mi_backups (ms_inner s))
        = map (\<lambda>n. ''backup-'' @ show_dec (n + 1)) [0..<length (mi_backups (ms_inner s))]"

lemma ms_backups_ok_fresh:
  assumes "ms_backups_ok s"
  shows "''backup-'' @ show_dec (length (mi_backups (ms_inner s)) + 1)
    \<notin> (\<lambda>b. bm_id (fst b)) ` set (mi_backups (ms_inner s))"
proof
  let ?bs = "mi_backups (ms_inner s)"
  assume "''backup-'' @ show_dec (length ?bs + 1) \<in> (\<lambda>b. bm_id (fst b)) ` set ?bs"
  then have "''backup-'' @ show_dec (length ?bs + 1)
      \<in> set (map (\<lambda>n. ''backup-'' @ show_dec (n + 1)) [0..<length ?bs])"
    using assms by (metis (no_types, lifting) list.set_map ms_backups_ok_def)
  then obtain n where "n < length ?bs" "show_dec (length ?bs + 1) = show_dec (n + 1)" by auto
  then show False using show_dec_inj by fastforce
qed

text \<open>
  a backup saved in memory gets an identifier no other backup has; loading that identifier
  gives its bytes back, every older identifier still loads what it did, and the listing has the
  new backup first.
\<close>

theorem memory_backup_kept:
  assumes ok: "ms_backups_ok s"
    and save: "ms_save_backup now adapter coordinator bytes s = Inr (ident, s')"
  shows "ms_backups_ok s' \<and> ms_load_backup ident s = Inl (SeBackupNotFound ident)
    \<and> ms_load_backup ident s' = Inr bytes
    \<and> (\<forall>other. other = ident \<or> ms_load_backup other s' = ms_load_backup other s)
    \<and> (\<exists>ms. ms_list_backups s = Inr ms \<and> ms_list_backups s' = Inr
        (\<lparr>bm_id = ident, bm_taken_epoch_ms = epoch_millis now, bm_adapter = adapter,
          bm_coordinator_ieee = coordinator\<rparr> # ms))"
proof -
  let ?bs = "mi_backups (ms_inner s)"
  have up: "\<not> ms_poisoned s" using ok by (simp add: ms_backups_ok_def)
  define m where "m = \<lparr>bm_id = ident, bm_taken_epoch_ms = epoch_millis now, bm_adapter = adapter,
    bm_coordinator_ieee = coordinator\<rparr>"
  have id: "ident = ''backup-'' @ show_dec (length ?bs + 1)"
    and s': "s' = s\<lparr>ms_inner := ms_inner s\<lparr>mi_backups := ?bs @ [(m, bytes)]\<rparr>\<rparr>"
    using save up by (auto simp: ms_save_backup_def ms_with_def Let_def m_def)
  have fresh: "find (\<lambda>(x, _). bm_id x = ident) ?bs = None"
    using ms_backups_ok_fresh [OF ok] unfolding find_None_iff id [symmetric] by force
  have load: "ms_load_backup i s = ok_or (SeBackupNotFound i)
      (map_option snd (find (\<lambda>(x, _). bm_id x = i) ?bs))" for i
    using up by (simp add: ms_load_backup_def ms_get_def ms_with_def)
  have load': "ms_load_backup i s' = ok_or (SeBackupNotFound i)
      (map_option snd (find (\<lambda>(x, _). bm_id x = i) (?bs @ [(m, bytes)])))" for i
    using up by (simp add: ms_load_backup_def ms_get_def ms_with_def s')
  have app: "find p (xs @ ys) = (case find p xs of None \<Rightarrow> find p ys | Some x \<Rightarrow> Some x)"
    for p and xs ys :: "(backup_meta \<times> u8 list) list"
    by (induction xs) auto
  have "ms_backups_ok s'" using ok by (simp add: ms_backups_ok_def s' m_def id)
  moreover have "ms_load_backup ident s = Inl (SeBackupNotFound ident)"
    by (simp add: load fresh)
  moreover have "ms_load_backup ident s' = Inr bytes"
    by (simp add: load' app fresh m_def)
  moreover have "other = ident \<or> ms_load_backup other s' = ms_load_backup other s" for other
    by (auto simp: load load' app m_def split: option.split)
  moreover have "ms_list_backups s = Inr (map fst (rev ?bs))"
    "ms_list_backups s' = Inr (m # map fst (rev ?bs))"
    using up by (simp_all add: ms_list_backups_def ms_get_def ms_with_def s')
  ultimately show ?thesis by (auto simp: m_def)
qed

theorem memory_backup_kept_witness:
  "\<exists>s'. ms_save_backup 0 ''ember'' (Ieee 7) [1, 2] ms_new = Inr (''backup-1'', s')
     \<and> ms_load_backup ''backup-1'' s' = Inr [1, 2]"
proof -
  have ok: "ms_backups_ok ms_new" by (simp add: ms_backups_ok_def ms_new_def)
  have one: "show_dec (Suc 0) = ''1''" by code_simp
  obtain s' where s': "ms_save_backup 0 ''ember'' (Ieee 7) [1, 2] ms_new = Inr (''backup-1'', s')"
    by (simp add: ms_save_backup_def ms_with_def ms_new_def Let_def one)
  from memory_backup_kept [OF ok s'] s' show ?thesis by blast
qed

section \<open>The names of backups on disk\<close>

lemma show_dec_pad_no_hyphen: "CHR ''-'' \<notin> set (show_dec_pad w n)"
proof
  assume "CHR ''-'' \<in> set (show_dec_pad w n)"
  from show_dec_pad_digits [OF this] obtain d where "d < 10" "CHR ''-'' = dec_char d" by auto
  with dec_char_digit [of d] show False by auto
qed

lemma hex_pad_no_hyphen: "CHR ''-'' \<notin> set (hex_pad n x)"
  by (induction n x rule: hex_pad.induct) (auto dest: hex_char_sign simp: eq_commute [of "CHR ''-''"])

lemma ieee_display_no_hyphen: "CHR ''-'' \<notin> set (ieee_display a)"
  using hex_pad_no_hyphen by (simp add: ieee_display_def)

lemma parse_dec_hyphen: "CHR ''-'' \<in> set s \<Longrightarrow> parse_dec b s = None"
proof -
  have digits: "CHR ''-'' \<in> set t \<Longrightarrow> dec_digits b acc t = None" for acc t
    by (induction b acc t rule: dec_digits.induct) (auto split: option.splits)
  assume s: "CHR ''-'' \<in> set s"
  show ?thesis
  proof (cases s)
    case (Cons c cs)
    then have "dec_digits b 0 (if c = CHR ''+'' then cs else c # cs) = None"
      using s by (intro digits) auto
    with Cons show ?thesis by (simp only: parse_dec.simps) simp
  qed simp
qed

lemma split_last_hyphen:
  assumes "CHR ''-'' \<in> set s"
  shows "\<exists>h t. s = h @ CHR ''-'' # t \<and> CHR ''-'' \<notin> set t"
  using split_list_last [OF assms] by blast

text \<open>
  a backup on disk is listed with its time, adapter and coordinator when the adapter's name
  has no hyphen in it; with a hyphen its name is not recognised, and the listing leaves it out.
\<close>

theorem backup_id_parse:
  "parse_backup_id (backup_name (timestamp now n) adapter coordinator) =
     (if CHR ''-'' \<in> set adapter then None
      else Some \<lparr>bm_id = backup_name (timestamp now n) adapter coordinator,
        bm_taken_epoch_ms = epoch_millis now, bm_adapter = adapter, bm_coordinator_ieee = coordinator\<rparr>)"
proof -
  let ?m = "show_dec_pad 13 (unat (epoch_millis now))" and ?c = "show_dec_pad 4 (unat n)"
  let ?id = "backup_name (timestamp now n) adapter coordinator"
  have id: "?id = (?m @ ''-'' @ ?c @ ''-'' @ adapter) @ CHR ''-'' # ieee_display coordinator"
    by (simp add: backup_name_def timestamp_def)
  have parse: "ieee_parse (ieee_display coordinator) = Inr coordinator"
    by (rule ieee_parse_display)
  have "unat (epoch_millis now) < 2 ^ 64" using unsigned_less [of "epoch_millis now"] by simp
  then have bound: "unat (epoch_millis now) \<le> usize_max" by simp
  note split1 = rsplit_once_append [OF ieee_display_no_hyphen [of coordinator]]
  show ?thesis
  proof (cases "CHR ''-'' \<in> set adapter")
    case False
    have "rsplit_once CHR ''-'' (?m @ ''-'' @ ?c @ ''-'' @ adapter) = Some (?m @ ''-'' @ ?c, adapter)"
      using rsplit_once_append [OF False, of "?m @ ''-'' @ ?c"] by simp
    moreover have "rsplit_once CHR ''-'' (?m @ ''-'' @ ?c) = Some (?m, ?c)"
      using rsplit_once_append [OF show_dec_pad_no_hyphen, of ?m 4 "unat n"] by simp
    ultimately have "parse_backup_id ?id = Some \<lparr>bm_id = ?id,
        bm_taken_epoch_ms = of_nat (unat (epoch_millis now)), bm_adapter = adapter,
        bm_coordinator_ieee = coordinator\<rparr>"
      using parse_show_dec_pad [OF bound, of 13]
      by (simp only: parse_backup_id_def id split1 parse bind.simps prod.case sum.case)
    with False show ?thesis by simp
  next
    case True
    then obtain p q where a: "adapter = p @ CHR ''-'' # q" "CHR ''-'' \<notin> set q"
      using split_last_hyphen by blast
    have "rsplit_once CHR ''-'' (?m @ ''-'' @ ?c @ ''-'' @ adapter) = Some (?m @ ''-'' @ ?c @ ''-'' @ p, q)"
      using rsplit_once_append [OF a(2), of "?m @ ''-'' @ ?c @ ''-'' @ p"] by (simp add: a)
    moreover obtain h t where ht: "?c @ ''-'' @ p = h @ CHR ''-'' # t" "CHR ''-'' \<notin> set t"
      using split_last_hyphen [of "?c @ ''-'' @ p"] by auto
    moreover have "rsplit_once CHR ''-'' (?m @ ''-'' @ ?c @ ''-'' @ p) = Some (?m @ ''-'' @ h, t)"
      using rsplit_once_append [OF ht(2), of "?m @ ''-'' @ h"] ht(1) by simp
    moreover have "parse_dec usize_max (?m @ ''-'' @ h) = None"
      by (rule parse_dec_hyphen) simp
    ultimately have "parse_backup_id ?id = None"
      by (simp only: parse_backup_id_def id split1 parse bind.simps prod.case sum.case)
    with True show ?thesis by simp
  qed
qed

end
