(* ===== verification/File_System.thy ===== *)
theory File_System
  imports Std_Maps Decimal
begin

text \<open>
  The files \<open>rszigbee-core/src/store/file.rs\<close> works on, as far as the calls of the standard
  library it makes go: names, what a program sees, and what is on the disk when the power fails.
  Contents reach the disk when the file is synchronised, names when their directory is; until then
  the disk may hold any state the directory had since. Every call can fail, and the power can fail
  before any call.
\<close>

section \<open>Names\<close>

text \<open>Paths are relative to the root of the store.\<close>

type_synonym path = string

definition path_parent :: "path \<Rightarrow> path" where
  "path_parent p = (case rsplit_once CHR ''/'' p of None \<Rightarrow> [] | Some (d, _) \<Rightarrow> d)"

definition path_name :: "path \<Rightarrow> string" where
  "path_name p = (case rsplit_once CHR ''/'' p of None \<Rightarrow> p | Some (_, n) \<Rightarrow> n)"

definition split_extension :: "string \<Rightarrow> string \<times> string option" where
  "split_extension n =
     (if n = ''..'' then (n, None)
      else case rsplit_once CHR ''.'' n of
        None \<Rightarrow> (n, None)
      | Some (b, a) \<Rightarrow> if b = [] then (n, None) else (b, Some a))"

definition path_extension :: "path \<Rightarrow> string option" where
  "path_extension p = snd (split_extension (path_name p))"

definition path_stem :: "path \<Rightarrow> string" where
  "path_stem p = fst (split_extension (path_name p))"

definition has_name :: "path \<Rightarrow> bool" where
  "has_name p \<longleftrightarrow> path_name p \<noteq> [] \<and> path_name p \<noteq> ''..''"

definition with_extension :: "path \<Rightarrow> string \<Rightarrow> path" where
  "with_extension p e =
     (if has_name p
      then take (length p - length (path_name p)) p @ path_stem p @ (if e = [] then [] else CHR ''.'' # e)
      else p)"

section \<open>The disk\<close>

text \<open>The error of a call: whether its kind is \<open>NotFound\<close>, and its text.\<close>

datatype io_error = IoError (io_not_found: bool) (io_text: string)

definition not_found_error :: io_error where
  "not_found_error = IoError True ''No such file or directory (os error 2)''"

definition no_power :: io_error where
  "no_power = IoError False []"

text \<open>
  How the next call ends. A write that fails may have written the first bytes, and need not be
  reported: an asynchronous file hands the bytes to another thread and returns, and the error of
  that thread is told by a later write or flush, not by a synchronisation. \<open>Cut_Short n\<close> is such a
  write, of which \<open>n\<close> bytes reach the file; any other call just works. So do calls beyond the end of
  the list.
\<close>

datatype io_outcome = Works | Fails io_error nat | Cut_Short nat | Power_Lost

type_synonym names = "(path, nat) hashmap"

text \<open>
  Names stand for numbered files. \<open>dk_past\<close> holds the names as they were since the directories were
  last synchronised; \<open>dk_counter\<close> is the counter of time stamps, a static of the process.
\<close>

record disk =
  dk_up :: bool
  dk_outcomes :: "io_outcome list"
  dk_dirs :: "path list"
  dk_names :: names
  dk_past :: "names list"
  dk_data :: "nat \<Rightarrow> u8 list"
  dk_synced :: "nat \<Rightarrow> bool"
  dk_private :: "nat \<Rightarrow> bool"
  dk_next :: nat
  dk_counter :: u64

definition dk_empty :: disk where
  "dk_empty = \<lparr>dk_up = True, dk_outcomes = [], dk_dirs = [], dk_names = [], dk_past = [],
     dk_data = (\<lambda>_. []), dk_synced = (\<lambda>_. False), dk_private = (\<lambda>_. False), dk_next = 0,
     dk_counter = 0\<rparr>"

definition dk_file :: "disk \<Rightarrow> path \<Rightarrow> u8 list option" where
  "dk_file d p = map_option (dk_data d) (hm_get (dk_names d) p)"

type_synonym 'a io_call = "disk \<Rightarrow> (io_error + 'a) \<times> disk"

definition dk_begin :: "disk \<Rightarrow> (io_error \<times> nat) option \<times> disk" where
  "dk_begin d =
     (if \<not> dk_up d then (Some (no_power, 0), d)
      else case dk_outcomes d of
        [] \<Rightarrow> (None, d)
      | Works # os \<Rightarrow> (None, d\<lparr>dk_outcomes := os\<rparr>)
      | Fails e n # os \<Rightarrow> (Some (e, n), d\<lparr>dk_outcomes := os\<rparr>)
      | Cut_Short n # os \<Rightarrow> (None, d\<lparr>dk_outcomes := os\<rparr>)
      | Power_Lost # os \<Rightarrow> (Some (no_power, 0), d\<lparr>dk_up := False, dk_outcomes := os\<rparr>))"

definition dk_call :: "'a io_call \<Rightarrow> 'a io_call" where
  "dk_call f d = (case dk_begin d of (Some (e, _), d) \<Rightarrow> (Inl e, d) | (None, d) \<Rightarrow> f d)"

text \<open>A change of names keeps the old ones as what the disk may still hold.\<close>

definition dk_rename_to :: "names \<Rightarrow> disk \<Rightarrow> disk" where
  "dk_rename_to ns d = d\<lparr>dk_names := ns, dk_past := dk_names d # dk_past d\<rparr>"

section \<open>Calls\<close>

text \<open>\<open>create_dir_all\<close> of the root or a directory in it.\<close>

definition dk_create_dir :: "path \<Rightarrow> unit io_call" where
  "dk_create_dir dir = dk_call (\<lambda>d. (Inr (), d\<lparr>dk_dirs := List.insert dir (dk_dirs d)\<rparr>))"

text \<open>\<open>File::create\<close> truncates a file of that name, or makes one.\<close>

definition dk_create :: "path \<Rightarrow> nat io_call" where
  "dk_create p = dk_call (\<lambda>d.
     if path_parent p \<notin> set (dk_dirs d) then (Inl not_found_error, d)
     else case hm_get (dk_names d) p of
       Some i \<Rightarrow> (Inr i, d\<lparr>dk_data := (dk_data d)(i := []), dk_synced := (dk_synced d)(i := False)\<rparr>)
     | None \<Rightarrow>
         let i = dk_next d in
         (Inr i, (dk_rename_to (hm_insert p i (dk_names d)) d)
            \<lparr>dk_data := (dk_data d)(i := []), dk_synced := (dk_synced d)(i := False),
             dk_private := (dk_private d)(i := False), dk_next := i + 1\<rparr>))"

text \<open>What of a write that is reported to have worked reaches the file.\<close>

definition dk_reaches :: "disk \<Rightarrow> u8 list \<Rightarrow> u8 list" where
  "dk_reaches d bytes = (case dk_outcomes d of Cut_Short n # _ \<Rightarrow> take n bytes | _ \<Rightarrow> bytes)"

definition dk_write :: "nat \<Rightarrow> u8 list \<Rightarrow> unit io_call" where
  "dk_write i bytes d =
     (case dk_begin d of
        (Some (e, n), d) \<Rightarrow>
          (Inl e, if dk_up d
             then d\<lparr>dk_data := (dk_data d)(i := dk_data d i @ take n bytes),
                    dk_synced := (dk_synced d)(i := False)\<rparr>
             else d)
      | (None, d') \<Rightarrow>
          (Inr (), d'\<lparr>dk_data := (dk_data d')(i := dk_data d' i @ dk_reaches d bytes),
                      dk_synced := (dk_synced d')(i := False)\<rparr>))"

definition dk_sync :: "nat \<Rightarrow> unit io_call" where
  "dk_sync i = dk_call (\<lambda>d. (Inr (), d\<lparr>dk_synced := (dk_synced d)(i := True)\<rparr>))"

definition dk_rename :: "path \<Rightarrow> path \<Rightarrow> unit io_call" where
  "dk_rename p q = dk_call (\<lambda>d.
     case hm_get (dk_names d) p of
       None \<Rightarrow> (Inl not_found_error, d)
     | Some i \<Rightarrow>
         if path_parent q \<notin> set (dk_dirs d) then (Inl not_found_error, d)
         else (Inr (), dk_rename_to (hm_insert q i (hm_remove p (dk_names d))) d))"

text \<open>Opening a directory, and synchronising it: what the disk may hold of it is what is there.\<close>

definition dk_open_dir :: "path \<Rightarrow> unit io_call" where
  "dk_open_dir dir = dk_call (\<lambda>d. (if dir \<in> set (dk_dirs d) then Inr () else Inl not_found_error, d))"

definition settle :: "path \<Rightarrow> names \<Rightarrow> names \<Rightarrow> names" where
  "settle dir now m =
     filter (\<lambda>e. path_parent (fst e) = dir) now @ filter (\<lambda>e. path_parent (fst e) \<noteq> dir) m"

definition dk_sync_dir :: "path \<Rightarrow> unit io_call" where
  "dk_sync_dir dir = dk_call (\<lambda>d. (Inr (), d\<lparr>dk_past := map (settle dir (dk_names d)) (dk_past d)\<rparr>))"

definition dk_read :: "path \<Rightarrow> u8 list io_call" where
  "dk_read p = dk_call (\<lambda>d. (ok_or not_found_error (dk_file d p), d))"

definition dk_remove :: "path \<Rightarrow> unit io_call" where
  "dk_remove p = dk_call (\<lambda>d.
     if hm_get (dk_names d) p = None then (Inl not_found_error, d)
     else (Inr (), dk_rename_to (hm_remove p (dk_names d)) d))"

text \<open>\<open>Path::exists\<close> is false when it cannot tell.\<close>

definition dk_exists :: "path \<Rightarrow> disk \<Rightarrow> bool \<times> disk" where
  "dk_exists p d =
     (case dk_begin d of (Some _, d) \<Rightarrow> (False, d) | (None, d) \<Rightarrow> (hm_get (dk_names d) p \<noteq> None, d))"

text \<open>\<open>read_dir\<close>, and the step to the next entry, which can fail as well.\<close>

definition dk_list :: "path \<Rightarrow> path list io_call" where
  "dk_list dir = dk_call (\<lambda>d.
     (if dir \<in> set (dk_dirs d) then Inr (filter (\<lambda>p. path_parent p = dir) (map fst (dk_names d)))
      else Inl not_found_error, d))"

definition dk_next_entry :: "unit io_call" where
  "dk_next_entry = dk_call (\<lambda>d. (Inr (), d))"

definition dk_set_private :: "path \<Rightarrow> unit io_call" where
  "dk_set_private p = dk_call (\<lambda>d.
     case hm_get (dk_names d) p of
       None \<Rightarrow> (Inl not_found_error, d)
     | Some i \<Rightarrow> (Inr (), d\<lparr>dk_private := (dk_private d)(i := True)\<rparr>))"

section \<open>Failures nobody is told of\<close>

definition fails_unseen :: "disk \<Rightarrow> bool" where
  "fails_unseen d \<longleftrightarrow> list_ex (\<lambda>x. case x of Cut_Short _ \<Rightarrow> True | _ \<Rightarrow> False) (dk_outcomes d)"

text \<open>What a file may contain after bytes were written to it and nobody reported a failure.\<close>

definition pieces :: "bool \<Rightarrow> u8 list \<Rightarrow> u8 list set" where
  "pieces unseen bytes = (if unseen then range (\<lambda>n. take n bytes) else {bytes})"

lemma whole_piece [simp, intro]: "bytes \<in> pieces u bytes"
  by (auto simp: pieces_def intro!: image_eqI [of _ _ "length bytes"])

lemma pieces_mono: "(u \<longrightarrow> u') \<Longrightarrow> pieces u bytes \<subseteq> pieces u' bytes"
  using whole_piece [of bytes True] by (auto simp: pieces_def)

lemma pieceE:
  assumes "x \<in> pieces u bytes"
  obtains "x = bytes" | n where "u" "n < length bytes" "x = take n bytes"
  using assms that by (auto simp: pieces_def split: if_splits) (metis not_less take_all)

lemma reaches_piece: "dk_reaches d bytes \<in> pieces (fails_unseen d) bytes"
  by (auto simp: dk_reaches_def fails_unseen_def split: list.split io_outcome.split)
    (simp add: pieces_def)

text \<open>Calls use up the outcomes.\<close>

definition later :: "disk \<Rightarrow> disk \<Rightarrow> bool" where
  "later d d' \<longleftrightarrow> set (dk_outcomes d') \<subseteq> set (dk_outcomes d)"

lemma later_refl [simp]: "later d d"
  by (simp add: later_def)

lemma later_trans: "later d d' \<Longrightarrow> later d' d'' \<Longrightarrow> later d d''"
  by (auto simp: later_def)

lemma later_unseen: "later d d' \<Longrightarrow> fails_unseen d' \<Longrightarrow> fails_unseen d"
  by (auto simp: later_def fails_unseen_def list_ex_iff)

lemma later_begin: "later d (snd (dk_begin d))"
  by (auto simp: dk_begin_def later_def split: list.split io_outcome.split)

lemma later_call:
  assumes "\<And>d. dk_outcomes (snd (f d)) = dk_outcomes d"
  shows "later d (snd (dk_call f d))"
  using later_begin [of d] assms
  by (auto simp: dk_call_def later_def split: prod.split option.split)

lemma later_calls:
  "later d (snd (dk_create p d))" "later d (snd (dk_write i bytes d))" "later d (snd (dk_sync i d))"
  "later d (snd (dk_rename p q d))" "later d (snd (dk_open_dir p d))" "later d (snd (dk_sync_dir p d))"
  "later d (snd (dk_remove p d))" "later d (snd (dk_read p d))" "later d (snd (dk_exists p d))"
  "later d (snd (dk_list p d))" "later d (snd (dk_next_entry d))" "later d (snd (dk_set_private p d))"
proof -
  show "later d (snd (dk_write i bytes d))" "later d (snd (dk_exists p d))"
    using later_begin [of d] by (auto simp: dk_write_def dk_exists_def later_def split: prod.split option.split)
qed (auto simp: dk_create_def dk_sync_def dk_rename_def dk_open_dir_def dk_sync_dir_def dk_remove_def
    dk_read_def dk_list_def dk_next_entry_def dk_set_private_def dk_rename_to_def Let_def
    intro!: later_call split: option.split)

section \<open>What survives\<close>

definition dk_states :: "disk \<Rightarrow> names list" where
  "dk_states d = dk_names d # dk_past d"

text \<open>
  After the power failed every directory is in one of the states it had since it was last
  synchronised, and a synchronised file has its contents; any other file may hold anything.
\<close>

definition survives :: "disk \<Rightarrow> disk \<Rightarrow> bool" where
  "survives d d' \<longleftrightarrow>
     (\<exists>pick. (\<forall>dir. pick dir \<in> set (dk_states d))
        \<and> (\<forall>p. hm_get (dk_names d') p = hm_get (pick (path_parent p)) p))
     \<and> (\<forall>i. dk_synced d i \<longrightarrow> dk_data d' i = dk_data d i)
     \<and> (\<forall>i. dk_synced d' i)
     \<and> hm_wf (dk_names d') \<and> dk_past d' = [] \<and> dk_dirs d' = dk_dirs d \<and> dk_private d' = dk_private d
     \<and> dk_next d' = dk_next d \<and> dk_up d'"

text \<open>What the disk may hold under a name.\<close>

definition may_hold :: "disk \<Rightarrow> path \<Rightarrow> u8 list option set" where
  "may_hold d p = (\<lambda>m. map_option (dk_data d) (hm_get m p)) ` set (dk_states d)"

text \<open>
  Files under a final name are synchronised; no file has two names, in one state or across
  directories; and a file now under a temporary name never had a final one.
\<close>

definition is_temporary :: "path \<Rightarrow> bool" where
  "is_temporary p \<longleftrightarrow> path_extension p = Some ''tmp''"

definition dk_ok :: "disk \<Rightarrow> bool" where
  "dk_ok d \<longleftrightarrow> hm_wf (dk_names d)
     \<and> (\<forall>m \<in> set (dk_states d). \<forall>p i. hm_get m p = Some i \<longrightarrow> i < dk_next d)
     \<and> (\<forall>m \<in> set (dk_states d). \<forall>p i. hm_get m p = Some i \<longrightarrow> \<not> is_temporary p \<longrightarrow> dk_synced d i)
     \<and> (\<forall>m \<in> set (dk_states d). \<forall>p q i. hm_get m p = Some i \<longrightarrow> hm_get m q = Some i \<longrightarrow> p = q)
     \<and> (\<forall>m \<in> set (dk_states d). \<forall>m' \<in> set (dk_states d). \<forall>p q i.
          hm_get m p = Some i \<longrightarrow> hm_get m' q = Some i \<longrightarrow> path_parent p = path_parent q)
     \<and> (\<forall>m \<in> set (dk_states d). \<forall>p q i. hm_get m p = Some i \<longrightarrow> hm_get (dk_names d) q = Some i
          \<longrightarrow> is_temporary q \<longrightarrow> is_temporary p)"

lemma dk_okI:
  assumes "hm_wf (dk_names d)"
    and "\<And>m p i. m \<in> set (dk_states d) \<Longrightarrow> hm_get m p = Some i \<Longrightarrow> i < dk_next d"
    and "\<And>m p i. m \<in> set (dk_states d) \<Longrightarrow> hm_get m p = Some i \<Longrightarrow> \<not> is_temporary p \<Longrightarrow> dk_synced d i"
    and "\<And>m p q i. m \<in> set (dk_states d) \<Longrightarrow> hm_get m p = Some i \<Longrightarrow> hm_get m q = Some i \<Longrightarrow> p = q"
    and "\<And>m m' p q i. m \<in> set (dk_states d) \<Longrightarrow> m' \<in> set (dk_states d) \<Longrightarrow> hm_get m p = Some i
      \<Longrightarrow> hm_get m' q = Some i \<Longrightarrow> path_parent p = path_parent q"
    and "\<And>m p q i. m \<in> set (dk_states d) \<Longrightarrow> hm_get m p = Some i \<Longrightarrow> hm_get (dk_names d) q = Some i
      \<Longrightarrow> is_temporary q \<Longrightarrow> is_temporary p"
  shows "dk_ok d"
  unfolding dk_ok_def using assms by blast

lemma dk_okD:
  assumes "dk_ok d"
  shows "hm_wf (dk_names d)"
    and "m \<in> set (dk_states d) \<Longrightarrow> hm_get m p = Some i \<Longrightarrow> i < dk_next d"
    and "m \<in> set (dk_states d) \<Longrightarrow> hm_get m p = Some i \<Longrightarrow> \<not> is_temporary p \<Longrightarrow> dk_synced d i"
    and "m \<in> set (dk_states d) \<Longrightarrow> hm_get m p = Some i \<Longrightarrow> hm_get m q = Some i \<Longrightarrow> p = q"
    and "m \<in> set (dk_states d) \<Longrightarrow> m' \<in> set (dk_states d) \<Longrightarrow> hm_get m p = Some i
      \<Longrightarrow> hm_get m' q = Some i \<Longrightarrow> path_parent p = path_parent q"
    and "m \<in> set (dk_states d) \<Longrightarrow> hm_get m p = Some i \<Longrightarrow> hm_get (dk_names d) q = Some i
      \<Longrightarrow> is_temporary q \<Longrightarrow> is_temporary p"
  using assms unfolding dk_ok_def by blast+

section \<open>What the calls preserve\<close>

text \<open>
  A call leaves the disk in order, and every name that is not temporary and not in \<open>ps\<close> keeps what
  the disk may hold of it; what is there changes at most at the names in \<open>ps\<close>.
\<close>

definition keeps :: "path set \<Rightarrow> disk \<Rightarrow> disk \<Rightarrow> bool" where
  "keeps ps d d' \<longleftrightarrow> dk_ok d'
     \<and> (\<forall>q. \<not> is_temporary q \<longrightarrow> q \<notin> ps \<longrightarrow> may_hold d' q \<subseteq> may_hold d q \<and> dk_file d' q = dk_file d q)"

lemma keeps_refl: "dk_ok d \<Longrightarrow> keeps ps d d"
  by (simp add: keeps_def)

lemma keeps_trans: "keeps ps d d' \<Longrightarrow> keeps ps d' d'' \<Longrightarrow> keeps ps d d''"
  unfolding keeps_def by (metis subset_trans)

lemma keeps_mono: "keeps ps d d' \<Longrightarrow> ps \<subseteq> ps' \<Longrightarrow> keeps ps' d d'"
  unfolding keeps_def by blast

lemma keepsD:
  "keeps ps d d' \<Longrightarrow> \<not> is_temporary q \<Longrightarrow> q \<notin> ps \<Longrightarrow> may_hold d' q \<subseteq> may_hold d q"
  "keeps ps d d' \<Longrightarrow> \<not> is_temporary q \<Longrightarrow> q \<notin> ps \<Longrightarrow> dk_file d' q = dk_file d q"
  "keeps ps d d' \<Longrightarrow> dk_ok d'"
  by (simp_all add: keeps_def)

text \<open>Nothing but the names, the contents and what is synchronised matters for this.\<close>

definition same_files :: "disk \<Rightarrow> disk \<Rightarrow> bool" where
  "same_files d d' \<longleftrightarrow> dk_names d' = dk_names d \<and> dk_past d' = dk_past d \<and> dk_data d' = dk_data d
     \<and> dk_synced d' = dk_synced d \<and> dk_next d' = dk_next d"

lemma same_files_refl [simp]: "same_files d d"
  by (simp add: same_files_def)

lemma same_filesD:
  assumes "same_files d d'"
  shows "dk_ok d' = dk_ok d" "may_hold d' = may_hold d" "dk_file d' = dk_file d" "dk_states d' = dk_states d"
    "dk_names d' = dk_names d"
  using assms by (simp_all add: same_files_def dk_ok_def may_hold_def [abs_def] dk_file_def [abs_def] dk_states_def)

lemma same_files_keeps: "same_files d d' \<Longrightarrow> dk_ok d \<Longrightarrow> keeps ps d d'"
  by (simp add: keeps_def same_filesD)

lemma dk_begin_same: "dk_begin d = (r, d') \<Longrightarrow> same_files d d' \<and> dk_dirs d' = dk_dirs d"
  by (auto simp: dk_begin_def same_files_def split: if_splits list.splits io_outcome.splits)

lemma dk_callE:
  assumes "dk_call f d = (r, d')"
  obtains (fails) e where "r = Inl e" "same_files d d'" "dk_dirs d' = dk_dirs d"
    | (works) d0 where "same_files d d0" "dk_dirs d0 = dk_dirs d" "f d0 = (r, d')"
proof (cases "dk_begin d")
  case (Pair x d0)
  then show ?thesis
  proof (cases x)
    case None
    then show ?thesis using assms Pair dk_begin_same [OF Pair] works [of d0] by (simp add: dk_call_def)
  next
    case (Some y)
    then show ?thesis using assms Pair dk_begin_same [OF Pair] fails
      by (cases y) (auto simp: dk_call_def)
  qed
qed

lemma states_now [simp]: "dk_names d \<in> set (dk_states d)"
  by (simp add: dk_states_def)

lemma file_may_hold [simp]: "dk_file d p \<in> may_hold d p"
  by (auto simp: may_hold_def dk_file_def)

text \<open>The contents of a file under a temporary name can be anything.\<close>

lemma keeps_contents:
  assumes ok: "dk_ok d" and p: "hm_get (dk_names d) p = Some i" "is_temporary p"
    and d': "dk_names d' = dk_names d" "dk_past d' = dk_past d" "dk_next d' = dk_next d"
      "dk_data d' = (dk_data d)(i := x)" "dk_synced d' = (dk_synced d)(i := b)"
  shows "keeps {} d d'"
proof -
  have st: "dk_states d' = dk_states d" using d' by (simp add: dk_states_def)
  have other: "j \<noteq> i" if "m \<in> set (dk_states d)" "hm_get m q = Some j" "\<not> is_temporary q" for m q j
    using dk_okD(6) [OF ok that(1) that(2)] p that(3) by auto
  have "\<forall>m \<in> set (dk_states d). \<forall>q j. hm_get m q = Some j \<longrightarrow> \<not> is_temporary q \<longrightarrow> dk_synced d' j"
    using other dk_okD(3) [OF ok] by (simp add: d'(5))
  then have "dk_ok d'" using ok unfolding dk_ok_def st d'(1,3) by blast
  moreover have "map_option (dk_data d') (hm_get m q) = map_option (dk_data d) (hm_get m q)"
    if "m \<in> set (dk_states d)" "\<not> is_temporary q" for m q
    using other [OF that(1) _ that(2)] by (cases "hm_get m q") (auto simp: d')
  ultimately show ?thesis
    by (auto simp: keeps_def may_hold_def st dk_file_def d'(1))
qed

text \<open>A change of names that adds at most one, \<open>p\<close> for the file \<open>i\<close>.\<close>

lemma dk_ok_push:
  assumes ok: "dk_ok d"
    and st: "set (dk_states d') = insert (dk_names d') (set (dk_states d))"
    and wf: "hm_wf (dk_names d')" and nxt: "dk_next d \<le> dk_next d'" "i < dk_next d'"
    and sync: "\<And>j. j < dk_next d \<Longrightarrow> dk_synced d j \<Longrightarrow> dk_synced d' j" "\<not> is_temporary p \<Longrightarrow> dk_synced d' i"
    and new: "\<And>q j. hm_get (dk_names d') q = Some j \<Longrightarrow> hm_get (dk_names d) q = Some j \<or> q = p \<and> j = i"
    and one: "\<And>q. hm_get (dk_names d') q = Some i \<Longrightarrow> hm_get (dk_names d') p = Some i \<Longrightarrow> q = p"
    and dir: "\<And>m q. m \<in> set (dk_states d) \<Longrightarrow> hm_get m q = Some i \<Longrightarrow> path_parent q = path_parent p"
    and tmp: "\<And>m q. m \<in> set (dk_states d) \<Longrightarrow> hm_get m q = Some i \<Longrightarrow> is_temporary p \<Longrightarrow> is_temporary q"
  shows "dk_ok d'"
proof -
  have src: "(\<exists>m0 \<in> set (dk_states d). hm_get m0 q = Some j) \<or> q = p \<and> j = i"
    if "m \<in> set (dk_states d')" "hm_get m q = Some j" for m q j
    using that new [of q j] states_now [of d] by (auto simp only: st)
  show ?thesis
  proof (rule dk_okI)
    show "j < dk_next d'" if "m \<in> set (dk_states d')" "hm_get m q = Some j" for m q j
      using src [OF that] dk_okD(2) [OF ok] nxt by fastforce
    show "dk_synced d' j" if "m \<in> set (dk_states d')" "hm_get m q = Some j" "\<not> is_temporary q" for m q j
      using src [OF that(1,2)] that(3) dk_okD(2,3) [OF ok] sync by blast
    show "q = q'" if m: "m \<in> set (dk_states d')" "hm_get m q = Some j" "hm_get m q' = Some j" for m q q' j
    proof (cases "m \<in> set (dk_states d)")
      case True
      then show ?thesis using m dk_okD(4) [OF ok] by blast
    next
      case False
      then have m': "m = dk_names d'" using m(1) st by blast
      then show ?thesis using new [of q j] new [of q' j] one [of q] one [of q'] m(2,3)
          dk_okD(4) [OF ok states_now, of q j q'] by blast
    qed
    show "path_parent q = path_parent q'" if "m \<in> set (dk_states d')" "m' \<in> set (dk_states d')"
      "hm_get m q = Some j" "hm_get m' q' = Some j" for m m' q q' j
      using src [OF that(1,3)] src [OF that(2,4)] dir dk_okD(5) [OF ok] by metis
    show "is_temporary q" if "m \<in> set (dk_states d')" "hm_get m q = Some j"
      "hm_get (dk_names d') q' = Some j" "is_temporary q'" for m q q' j
    proof -
      have "hm_get (dk_names d) q' = Some j \<or> q' = p \<and> j = i" by (rule new [OF that(3)])
      moreover have ?thesis if "q = p" "j = i" "hm_get (dk_names d) q' = Some j" "hm_get (dk_names d') p = Some i"
        using one [of q'] \<open>hm_get (dk_names d') q' = Some j\<close> that \<open>is_temporary q'\<close> by blast
      moreover have "m = dk_names d' \<or> m \<in> set (dk_states d)" using that(1) st by blast
      ultimately show ?thesis
        using that new [of q j] tmp dk_okD(6) [OF ok] states_now [of d] by blast
    qed
  qed (rule wf)
qed

lemma keeps_create:
  assumes ok: "dk_ok d" and p: "is_temporary p" and call: "dk_create p d = (r, d')"
  shows "keeps {} d d' \<and> (\<forall>i. r = Inr i \<longrightarrow> hm_get (dk_names d') p = Some i \<and> dk_data d' i = [])"
  using call unfolding dk_create_def
proof (cases rule: dk_callE)
  case (fails e)
  then show ?thesis using ok by (simp add: same_files_keeps)
next
  case (works d0)
  note same = same_filesD [OF works(1)]
  have ok0: "dk_ok d0" using ok by (simp add: same)
  have "keeps {} d0 d' \<and> (\<forall>i. r = Inr i \<longrightarrow> hm_get (dk_names d') p = Some i \<and> dk_data d' i = [])"
  proof (cases "path_parent p \<in> set (dk_dirs d0)")
    case False
    then show ?thesis using works(3) ok0 by (auto simp: keeps_refl)
  next
    case dir: True
    show ?thesis
    proof (cases "hm_get (dk_names d0) p")
      case (Some i)
      then have r: "r = Inr i" and d': "d' = d0\<lparr>dk_data := (dk_data d0)(i := []), dk_synced := (dk_synced d0)(i := False)\<rparr>"
        using works(3) dir by auto
      have "keeps {} d0 d'" by (rule keeps_contents [OF ok0 Some p]) (simp_all add: d')
      then show ?thesis by (simp add: r d' Some)
    next
      case None
      let ?i = "dk_next d0"
      have r: "r = Inr ?i" and d': "d' = (dk_rename_to (hm_insert p ?i (dk_names d0)) d0)
          \<lparr>dk_data := (dk_data d0)(?i := []), dk_synced := (dk_synced d0)(?i := False),
           dk_private := (dk_private d0)(?i := False), dk_next := ?i + 1\<rparr>"
        using works(3) dir None by (auto simp: Let_def)
      have st: "set (dk_states d') = insert (dk_names d') (set (dk_states d0))"
        by (auto simp: d' dk_states_def dk_rename_to_def)
      have get: "hm_get (dk_names d') q = (if q = p then Some ?i else hm_get (dk_names d0) q)" for q
        by (simp add: d' dk_rename_to_def hm_get_insert)
      have fresh: "hm_get m q \<noteq> Some ?i" if "m \<in> set (dk_states d0)" for m q
        using dk_okD(2) [OF ok0 that, of q ?i] by auto
      have "dk_ok d'"
        by (rule dk_ok_push [OF ok0 st, of ?i p])
          (use p fresh fresh [OF states_now] in \<open>auto simp: get split: if_splits\<close>,
           simp_all add: d' dk_rename_to_def hm_wf_insert dk_okD(1) [OF ok0])
      moreover have "map_option (dk_data d') (hm_get m q) = map_option (dk_data d0) (hm_get m q)"
        if "m \<in> set (dk_states d0)" for m q
        using fresh [OF that, of q] by (cases "hm_get m q") (auto simp: d' dk_rename_to_def)
      moreover have "q \<noteq> p" if "\<not> is_temporary q" for q using that p by auto
      ultimately have "keeps {} d0 d'"
        by (auto simp: keeps_def may_hold_def st dk_file_def get)
      then show ?thesis by (simp add: r get) (simp add: d')
    qed
  qed
  then show ?thesis by (simp add: keeps_def same)
qed

lemma keeps_write:
  assumes ok: "dk_ok d" and p: "hm_get (dk_names d) p = Some i" "is_temporary p"
    and call: "dk_write i bytes d = (r, d')"
  shows "keeps {} d d' \<and> dk_names d' = dk_names d \<and> (\<forall>u. r = Inr u \<longrightarrow> dk_data d' i = dk_data d i @ dk_reaches d bytes)"
proof -
  obtain e d0 where b: "dk_begin d = (e, d0)" by fastforce
  note same = dk_begin_same [OF b, THEN conjunct1] and samed = same_filesD [OF dk_begin_same [OF b, THEN conjunct1]]
  have ok0: "dk_ok d0" and p0: "hm_get (dk_names d0) p = Some i" using ok p(1) by (simp_all add: samed)
  have con: "keeps {} d0 (d0\<lparr>dk_data := (dk_data d0)(i := x), dk_synced := (dk_synced d0)(i := False)\<rparr>)" for x
    by (rule keeps_contents [OF ok0 p0 p(2)]) simp_all
  have "keeps {} d0 d' \<and> dk_names d' = dk_names d0"
    using call con keeps_refl [OF ok0] by (auto simp: dk_write_def b split: option.splits)
  moreover have "dk_data d' i = dk_data d0 i @ dk_reaches d bytes" if "r = Inr u" for u
    using call that by (auto simp: dk_write_def b split: option.splits)
  ultimately show ?thesis using same by (simp add: keeps_def samed same_files_def)
qed

lemma keeps_sync:
  assumes ok: "dk_ok d" and p: "hm_get (dk_names d) p = Some i" "is_temporary p"
    and call: "dk_sync i d = (r, d')"
  shows "keeps {} d d' \<and> dk_names d' = dk_names d \<and> dk_data d' = dk_data d \<and> (\<forall>u. r = Inr u \<longrightarrow> dk_synced d' i)"
  using call unfolding dk_sync_def
proof (cases rule: dk_callE)
  case (fails e)
  then show ?thesis using ok by (simp add: same_files_keeps) (simp add: same_files_def)
next
  case (works d0)
  note same = same_filesD [OF works(1)]
  have d': "d' = d0\<lparr>dk_synced := (dk_synced d0)(i := True)\<rparr>" using works(3) by simp
  have "keeps {} d0 d'"
    by (rule keeps_contents [of d0 p i d' "dk_data d0 i" True]) (use ok p in \<open>simp_all add: same d'\<close>)
  then show ?thesis using works(1) by (simp add: keeps_def same) (simp add: d' same_files_def)
qed

text \<open>A synchronised file renamed within its directory.\<close>

lemma keeps_rename:
  assumes ok: "dk_ok d" and dir: "path_parent q = path_parent p" and q: "\<not> is_temporary q"
    and sync: "\<And>i. hm_get (dk_names d) p = Some i \<Longrightarrow> dk_synced d i"
    and call: "dk_rename p q d = (r, d')"
  shows "keeps {p, q} d d' \<and> dk_data d' = dk_data d
    \<and> (\<forall>u. r = Inr u \<longrightarrow> dk_file d p \<noteq> None
        \<and> dk_names d' = hm_insert q (the (hm_get (dk_names d) p)) (hm_remove p (dk_names d))
        \<and> may_hold d' q \<subseteq> insert (dk_file d p) (may_hold d q)
        \<and> (p \<noteq> q \<longrightarrow> may_hold d' p \<subseteq> insert None (may_hold d p)))
    \<and> (\<forall>e. r = Inl e \<longrightarrow> same_files d d')"
  using call unfolding dk_rename_def
proof (cases rule: dk_callE)
  case (fails e)
  then show ?thesis using ok by (simp add: same_files_keeps) (simp add: same_files_def)
next
  case (works d0)
  note same = same_filesD [OF works(1)]
  have ok0: "dk_ok d0" using ok by (simp add: same)
  show ?thesis
  proof (cases "\<exists>i. hm_get (dk_names d) p = Some i \<and> path_parent q \<in> set (dk_dirs d0)")
    case False
    then have "d' = d0 \<and> (\<exists>e. r = Inl e)" using works(3) by (auto simp: same split: option.splits if_splits)
    then show ?thesis using ok works(1) by (auto simp: same_files_keeps) (simp add: same_files_def)
  next
    case True
    then obtain i where i: "hm_get (dk_names d0) p = Some i" "path_parent q \<in> set (dk_dirs d0)"
      by (auto simp: same)
    have r: "r = Inr ()" and d': "d' = dk_rename_to (hm_insert q i (hm_remove p (dk_names d0))) d0"
      using works(3) i by auto
    have st: "set (dk_states d') = insert (dk_names d') (set (dk_states d0))"
      by (auto simp: d' dk_states_def dk_rename_to_def)
    have get: "hm_get (dk_names d') s = (if s = q then Some i else if s = p then None else hm_get (dk_names d0) s)" for s
      by (simp add: d' dk_rename_to_def hm_get_insert hm_get_remove)
    have data: "dk_data d' = dk_data d0" by (simp add: d' dk_rename_to_def)
    have sync0: "dk_synced d0 i" using sync [of i] i(1) works(1) by (simp add: same) (simp add: same_files_def)
    have "dk_ok d'"
    proof (rule dk_ok_push [OF ok0 st, of i q])
      show "s = q" if "hm_get (dk_names d') s = Some i" for s
        using that dk_okD(4) [OF ok0 states_now i(1), of s] by (auto simp: get split: if_splits)
      show "path_parent s = path_parent q" if "m \<in> set (dk_states d0)" "hm_get m s = Some i" for m s
        using dk_okD(5) [OF ok0 that(1) states_now that(2) i(1)] dir by simp
      show "hm_get (dk_names d0) s = Some j \<or> s = q \<and> j = i" if "hm_get (dk_names d') s = Some j" for s j
        using that by (auto simp: get split: if_splits)
    qed (use q sync0 dk_okD(2) [OF ok0 states_now i(1)] in
        \<open>simp_all add: d' dk_rename_to_def hm_wf_insert hm_wf_remove dk_okD(1) [OF ok0]\<close>)
    moreover have hold: "may_hold d' s = insert (dk_file d' s) (may_hold d0 s)" for s
      by (simp add: may_hold_def st data dk_file_def)
    moreover have mem: "dk_file d0 s \<in> may_hold d0 s" for s
      by (auto simp: may_hold_def dk_file_def)
    moreover have fil: "dk_file d' s = (if s = q then dk_file d0 p else if s = p then None else dk_file d0 s)" for s
      using i(1) by (simp add: dk_file_def get data)
    ultimately have "keeps {p, q} d0 d'" by (auto simp: keeps_def)
    moreover have "dk_data d0 = dk_data d" using works(1) by (simp add: same_files_def)
    moreover have "dk_file d p \<noteq> None" using i(1) by (simp add: dk_file_def same)
    moreover have "dk_names d' = hm_insert q (the (hm_get (dk_names d) p)) (hm_remove p (dk_names d))"
      using i(1) by (simp add: d' dk_rename_to_def same)
    moreover have "may_hold d' q = insert (dk_file d p) (may_hold d q)"
      "p \<noteq> q \<Longrightarrow> may_hold d' p = insert None (may_hold d p)"
      by (simp_all add: hold fil same)
    ultimately show ?thesis by (simp add: keeps_def same r data)
  qed
qed

lemma keeps_remove:
  assumes ok: "dk_ok d" and call: "dk_remove p d = (r, d')"
  shows "keeps {p} d d' \<and> dk_data d' = dk_data d \<and> may_hold d' p \<subseteq> insert None (may_hold d p)
    \<and> (\<forall>u. r = Inr u \<longrightarrow> dk_names d' = hm_remove p (dk_names d))
    \<and> (\<forall>e. r = Inl e \<longrightarrow> same_files d d')"
  using call unfolding dk_remove_def
proof (cases rule: dk_callE)
  case (fails e)
  then show ?thesis using ok by (auto simp: same_files_keeps same_filesD) (simp add: same_files_def)
next
  case (works d0)
  note same = same_filesD [OF works(1)]
  have ok0: "dk_ok d0" using ok by (simp add: same)
  show ?thesis
  proof (cases "hm_get (dk_names d) p")
    case None
    then have "d' = d0" "r = Inl not_found_error" using works(3) by (auto simp: same)
    then show ?thesis using ok works(1) by (auto simp: same_files_keeps same) (simp add: same_files_def)
  next
    case (Some i)
    then have i: "hm_get (dk_names d0) p = Some i" by (simp add: same)
    have r: "r = Inr ()" and d': "d' = dk_rename_to (hm_remove p (dk_names d0)) d0" using works(3) i by auto
    have st: "set (dk_states d') = insert (dk_names d') (set (dk_states d0))"
      by (auto simp: d' dk_states_def dk_rename_to_def)
    have get: "hm_get (dk_names d') s = (if s = p then None else hm_get (dk_names d0) s)" for s
      by (simp add: d' dk_rename_to_def hm_get_remove)
    have data: "dk_data d' = dk_data d0" by (simp add: d' dk_rename_to_def)
    have "dk_ok d'"
    proof (rule dk_ok_push [OF ok0 st, of i p])
      show "path_parent s = path_parent p" if "m \<in> set (dk_states d0)" "hm_get m s = Some i" for m s
        using dk_okD(5) [OF ok0 that(1) states_now that(2) i] .
      show "is_temporary s" if "m \<in> set (dk_states d0)" "hm_get m s = Some i" "is_temporary p" for m s
        using dk_okD(6) [OF ok0 that(1,2) i that(3)] .
      show "hm_get (dk_names d0) s = Some j \<or> s = p \<and> j = i" if "hm_get (dk_names d') s = Some j" for s j
        using that by (auto simp: get split: if_splits)
      show "\<not> is_temporary p \<Longrightarrow> dk_synced d' i"
        using dk_okD(3) [OF ok0 states_now i] by (simp add: d' dk_rename_to_def)
    qed (use dk_okD(2) [OF ok0 states_now i] in
        \<open>simp_all add: get\<close>, simp_all add: d' dk_rename_to_def hm_wf_remove dk_okD(1) [OF ok0])
    moreover have hold: "may_hold d' s = insert (dk_file d' s) (may_hold d0 s)" for s
      by (simp add: may_hold_def st data dk_file_def)
    moreover have mem: "dk_file d0 s \<in> may_hold d0 s" for s
      by (auto simp: may_hold_def dk_file_def)
    moreover have fil: "dk_file d' s = (if s = p then None else dk_file d0 s)" for s
      by (simp add: dk_file_def get data)
    ultimately have "keeps {p} d0 d'" by (auto simp: keeps_def)
    moreover have "dk_data d0 = dk_data d" using works(1) by (simp add: same_files_def)
    moreover have "dk_names d' = hm_remove p (dk_names d)" by (simp add: d' dk_rename_to_def same)
    moreover have "may_hold d' p = insert None (may_hold d p)" by (simp add: hold fil same)
    ultimately show ?thesis by (simp add: keeps_def same r data)
  qed
qed

lemma get_settle:
  "hm_get (settle dir now m) q = (if path_parent q = dir then hm_get now q else hm_get m q)"
proof -
  have f: "hm_get (filter (\<lambda>e. P (fst e)) m) q = (if P q then hm_get m q else None)" for P and m :: names
    by (induction m) auto
  show ?thesis
    by (simp add: settle_def map_add_def f [of "\<lambda>p. path_parent p = dir"]
        f [of "\<lambda>p. path_parent p \<noteq> dir"] split: option.split)
qed

text \<open>A synchronised directory holds what is there.\<close>

lemma keeps_sync_dir:
  assumes ok: "dk_ok d" and call: "dk_sync_dir dir d = (r, d')"
  shows "keeps {} d d' \<and> (\<forall>q. may_hold d' q \<subseteq> may_hold d q) \<and> dk_file d' = dk_file d
    \<and> dk_names d' = dk_names d \<and> dk_data d' = dk_data d
    \<and> (\<forall>u. r = Inr u \<longrightarrow> (\<forall>q. path_parent q = dir \<longrightarrow> may_hold d' q = {dk_file d q}))"
  using call unfolding dk_sync_dir_def
proof (cases rule: dk_callE)
  case (fails e)
  then show ?thesis using ok by (simp add: same_files_keeps same_filesD) (simp add: same_files_def)
next
  case (works d0)
  note same = same_filesD [OF works(1)]
  have ok0: "dk_ok d0" using ok by (simp add: same)
  have d': "d' = d0\<lparr>dk_past := map (settle dir (dk_names d0)) (dk_past d0)\<rparr>" and r: "r = Inr ()" using works(3) by auto
  have st: "\<exists>m0 \<in> set (dk_states d0). \<forall>q. hm_get m q = (if path_parent q = dir then hm_get (dk_names d0) q else hm_get m0 q)"
    if "m \<in> set (dk_states d')" for m
    using that by (auto simp: d' dk_states_def get_settle)
  have src: "\<exists>m0 \<in> set (dk_states d0). hm_get m0 q = Some i" if m: "m \<in> set (dk_states d')" and q: "hm_get m q = Some i" for m q i
  proof -
    obtain m0 where m0: "m0 \<in> set (dk_states d0)"
      "\<And>q. hm_get m q = (if path_parent q = dir then hm_get (dk_names d0) q else hm_get m0 q)"
      using st [OF m] by blast
    show ?thesis using q m0(1) states_now [of d0] by (auto simp: m0(2) split: if_splits)
  qed
  have "dk_ok d'"
  proof (rule dk_okI)
    show "hm_wf (dk_names d')" using dk_okD(1) [OF ok0] by (simp add: d')
    show "i < dk_next d'" if "m \<in> set (dk_states d')" "hm_get m q = Some i" for m q i
      using src [OF that] dk_okD(2) [OF ok0] by (auto simp: d')
    show "dk_synced d' i" if "m \<in> set (dk_states d')" "hm_get m q = Some i" "\<not> is_temporary q" for m q i
      using src [OF that(1,2)] dk_okD(3) [OF ok0 _ _ that(3)] by (auto simp: d')
    show "q = q'" if m: "m \<in> set (dk_states d')" and q: "hm_get m q = Some i" "hm_get m q' = Some i" for m q q' i
    proof -
      obtain m0 where m0: "m0 \<in> set (dk_states d0)"
        "\<And>q. hm_get m q = (if path_parent q = dir then hm_get (dk_names d0) q else hm_get m0 q)"
        using st [OF m] by blast
      show ?thesis using q dk_okD(4) [OF ok0 states_now, of q i q'] dk_okD(4) [OF ok0 m0(1), of q i q']
          dk_okD(5) [OF ok0 states_now m0(1), of q i q'] dk_okD(5) [OF ok0 m0(1) states_now, of q i q']
        by (auto simp: m0(2) split: if_splits)
    qed
    show "path_parent q = path_parent q'" if "m \<in> set (dk_states d')" "m' \<in> set (dk_states d')"
      "hm_get m q = Some i" "hm_get m' q' = Some i" for m m' q q' i
      using src [OF that(1,3)] src [OF that(2,4)] dk_okD(5) [OF ok0] by blast
    show "is_temporary q" if "m \<in> set (dk_states d')" "hm_get m q = Some i"
      "hm_get (dk_names d') q' = Some i" "is_temporary q'" for m q q' i
      using src [OF that(1,2)] that(3,4) dk_okD(6) [OF ok0] by (auto simp: d')
  qed
  moreover have "may_hold d' q = (if path_parent q = dir then {dk_file d0 q} else may_hold d0 q)" for q
  proof (cases "path_parent q = dir")
    case True
    then show ?thesis by (auto simp: may_hold_def d' dk_states_def get_settle dk_file_def)
  next
    case False
    then show ?thesis by (simp add: may_hold_def d' dk_states_def image_image get_settle)
  qed
  moreover have "dk_file d0 q \<in> may_hold d0 q" for q
    by (auto simp: may_hold_def dk_file_def)
  moreover have "dk_file d' = dk_file d0" by (simp add: d' dk_file_def [abs_def])
  moreover have "dk_names d' = dk_names d0" "dk_data d' = dk_data d0" by (simp_all add: d')
  moreover have "dk_data d0 = dk_data d" using works(1) by (simp add: same_files_def)
  ultimately show ?thesis by (auto simp: keeps_def same)
qed

text \<open>What is there after the power failed is what the disk could hold.\<close>

lemma survives_ok:
  assumes ok: "dk_ok d" and sv: "survives d d'"
  shows "dk_ok d'" "\<not> is_temporary q \<Longrightarrow> dk_file d' q \<in> may_hold d q"
    "may_hold d' q = {dk_file d' q}"
proof -
  obtain pick where pick: "\<And>dir. pick dir \<in> set (dk_states d)"
    "\<And>p. hm_get (dk_names d') p = hm_get (pick (path_parent p)) p"
    using sv by (auto simp: survives_def)
  have st: "dk_states d' = [dk_names d']" and rest: "hm_wf (dk_names d')" "dk_next d' = dk_next d"
    "\<And>i. dk_synced d' i" "\<And>i. dk_synced d i \<Longrightarrow> dk_data d' i = dk_data d i"
    using sv by (simp_all add: survives_def dk_states_def)
  have one: "p = q" if "hm_get (dk_names d') p = Some i" "hm_get (dk_names d') q = Some i" for p q i
  proof -
    have p: "hm_get (pick (path_parent p)) p = Some i" and q: "hm_get (pick (path_parent q)) q = Some i"
      using that pick(2) by metis+
    have same: "path_parent p = path_parent q" by (rule dk_okD(5) [OF ok pick(1) pick(1) p q])
    show ?thesis by (rule dk_okD(4) [OF ok pick(1) p]) (use q same in simp)
  qed
  have lt: "i < dk_next d'" if "hm_get (dk_names d') p = Some i" for p i
    unfolding rest(2)
    by (rule dk_okD(2) [OF ok pick(1) [of "path_parent p"], of p]) (use that pick(2) [of p] in simp)
  show "dk_ok d'"
  proof (rule dk_okI)
    show "is_temporary p" if "m \<in> set (dk_states d')" "hm_get m p = Some i" "hm_get (dk_names d') q = Some i"
      "is_temporary q" for m p q i
      using that one [of p i q] by (simp add: st)
    show "path_parent p = path_parent q" if "m \<in> set (dk_states d')" "m' \<in> set (dk_states d')"
      "hm_get m p = Some i" "hm_get m' q = Some i" for m m' p q i
      using that one [of p i q] by (simp add: st)
  qed (use rest(1,3) lt one in \<open>auto simp: st\<close>)
  show "may_hold d' q = {dk_file d' q}" by (simp add: may_hold_def st dk_file_def)
  assume q: "\<not> is_temporary q"
  show "dk_file d' q \<in> may_hold d q"
  proof (cases "hm_get (dk_names d') q")
    case None
    then have "hm_get (pick (path_parent q)) q = None" by (simp add: pick(2))
    then show ?thesis using None pick(1) [of "path_parent q"]
      by (auto simp: may_hold_def dk_file_def intro!: image_eqI [of _ _ "pick (path_parent q)"])
  next
    case (Some i)
    then have i: "hm_get (pick (path_parent q)) q = Some i" by (simp add: pick(2))
    have "dk_data d' i = dk_data d i" by (rule rest(4)) (rule dk_okD(3) [OF ok pick(1) i q])
    then show ?thesis using Some i pick(1) [of "path_parent q"]
      by (auto simp: may_hold_def dk_file_def intro!: image_eqI [of _ _ "pick (path_parent q)"])
  qed
qed

end
