(* ===== verification/File_Store.thy ===== *)
theory File_Store
  imports File_System Store "HOL-Library.List_Lexorder" "HOL-Library.Char_ord"
begin

text \<open>
  The store on disk, \<open>rszigbee-core/src/store/file.rs\<close>: one file per record, replaced whole; what is
  corrupt is moved aside, except the network. JSON is an argument, and so are the clock and the
  text \<open>{:?}\<close> prints of a string.
\<close>

section \<open>The store and its files\<close>

record 'a json_form =
  js_write :: "'a \<Rightarrow> string + u8 list"
  js_read :: "u8 list \<Rightarrow> string + 'a"

record store_json =
  sj_network :: "persisted_network json_form"
  sj_device :: "persisted_device json_form"
  sj_group :: "persisted_group json_form"

text \<open>
  The store together with the world it runs in: the root, the JSON library, the clock as it reads
  when the n-th time stamp is drawn, and the disk.
\<close>

record file_store =
  fl_root :: string
  fl_json :: store_json
  fl_clock :: "u64 \<Rightarrow> system_time"
  fl_disk :: disk

definition SCHEMA :: nat where "SCHEMA = 1"

definition network_path :: path where "network_path = ''network.json''"

definition device_path :: "ieee \<Rightarrow> path" where
  "device_path i = ''devices/'' @ ieee_display i @ ''.json''"

definition group_path :: "group_id \<Rightarrow> path" where
  "group_path g = ''groups/'' @ show_dec (unat (group_raw g)) @ ''.json''"

definition backup_path :: "string \<Rightarrow> path" where
  "backup_path ident = ''backups/'' @ ident @ ''.json''"

text \<open>A path as it is displayed: joined to the root.\<close>

definition path_display :: "string \<Rightarrow> path \<Rightarrow> string" where
  "path_display root p =
     (if root = [] then p else if p = [] then root
      else if last root = CHR ''/'' then root @ p else root @ CHR ''/'' # p)"

definition store_error_display :: "store_error \<Rightarrow> string" where
  "store_error_display e =
     (case e of
        SeUnavailable t \<Rightarrow> ''store unavailable: '' @ t
      | SeCorrupt l t \<Rightarrow> ''stored data is corrupt at '' @ l @ '': '' @ t
      | SeBackupNotFound i \<Rightarrow> ''backup '' @ [CHR 0x27] @ i @ [CHR 0x27] @ '' not found''
      | SeIo t \<Rightarrow> ''io error: '' @ t)"

section \<open>Reading and writing files\<close>

type_synonym 'a disk_step = "disk \<Rightarrow> (store_error + 'a) \<times> disk"

text \<open>\<open>?\<close> after a call of the file system, with its error mapped.\<close>

definition io_then ::
  "(io_error + 'a) \<times> disk \<Rightarrow> (io_error \<Rightarrow> store_error) \<Rightarrow> ('a \<Rightarrow> 'b disk_step) \<Rightarrow> (store_error + 'b) \<times> disk" where
  "io_then x err k = (case x of (Inl e, d) \<Rightarrow> (Inl (err e), d) | (Inr a, d) \<Rightarrow> k a d)"

definition sync_parent :: "path \<Rightarrow> disk \<Rightarrow> disk" where
  "sync_parent p d =
     (case dk_open_dir (path_parent p) d of
        (Inr _, d) \<Rightarrow> snd (dk_sync_dir (path_parent p) d)
      | (Inl _, d) \<Rightarrow> d)"

definition write_atomic :: "string \<Rightarrow> path \<Rightarrow> u8 list \<Rightarrow> unit disk_step" where
  "write_atomic root p bytes d =
     (let tmp = with_extension p ''tmp'';
          io = (\<lambda>what e. SeIo (what @ '' '' @ path_display root p @ '': '' @ io_text e)) in
      io_then (dk_create tmp d) (io ''cannot create a temporary file for'') (\<lambda>f d.
      io_then (dk_write f bytes d) (io ''cannot write'') (\<lambda>_ d.
      io_then (dk_sync f d) (io ''cannot fsync'') (\<lambda>_ d.
      io_then (dk_rename tmp p d) (io ''cannot rename into place'') (\<lambda>_ d.
        (Inr (), sync_parent p d))))))"

definition read_json :: "string \<Rightarrow> 'a json_form \<Rightarrow> path \<Rightarrow> 'a disk_step" where
  "read_json root j p d =
     io_then (dk_read p d) (\<lambda>e. SeIo (''cannot read '' @ path_display root p @ '': '' @ io_text e)) (\<lambda>bytes d.
       (map_err (SeCorrupt (path_display root p)) (js_read j bytes), d))"

definition write_json :: "string \<Rightarrow> 'a json_form \<Rightarrow> path \<Rightarrow> 'a \<Rightarrow> unit disk_step" where
  "write_json root j p v d =
     (case js_write j v of
        Inl e \<Rightarrow> (Inl (SeIo (''cannot serialise '' @ path_display root p @ '': '' @ e)), d)
      | Inr bytes \<Rightarrow> write_atomic root p bytes d)"

definition remove_if_present :: "string \<Rightarrow> path \<Rightarrow> unit disk_step" where
  "remove_if_present root p d =
     (case dk_remove p d of
        (Inr _, d) \<Rightarrow> (Inr (), d)
      | (Inl e, d) \<Rightarrow>
          if io_not_found e then (Inr (), d)
          else (Inl (SeIo (''cannot remove '' @ path_display root p @ '': '' @ io_text e)), d))"

text \<open>Drawing a time stamp advances the counter.\<close>

definition draw_stamp :: "(u64 \<Rightarrow> system_time) \<Rightarrow> disk \<Rightarrow> string \<times> disk" where
  "draw_stamp clock d =
     (timestamp (clock (dk_counter d)) (dk_counter d), d\<lparr>dk_counter := dk_counter d + 1\<rparr>)"

definition quarantine :: "(u64 \<Rightarrow> system_time) \<Rightarrow> path \<Rightarrow> disk \<Rightarrow> disk" where
  "quarantine clock p d =
     (case draw_stamp clock d of (stamp, d) \<Rightarrow>
        snd (dk_rename p (with_extension p (''corrupt-'' @ stamp)) d))"

definition restrict_permissions :: "path \<Rightarrow> disk \<Rightarrow> disk" where
  "restrict_permissions p d = snd (dk_set_private p d)"

text \<open>The loop over the entries of a directory.\<close>

primrec load_entries ::
  "string \<Rightarrow> 'a json_form \<Rightarrow> (u64 \<Rightarrow> system_time) \<Rightarrow> path \<Rightarrow> path list \<Rightarrow> 'a list \<Rightarrow> 'a list disk_step" where
  "load_entries root j clock dir [] out d =
     io_then (dk_next_entry d) (\<lambda>e. SeIo (''cannot walk '' @ path_display root dir @ '': '' @ io_text e)) (\<lambda>_ d.
       (Inr out, d))"
| "load_entries root j clock dir (p # ps) out d =
     io_then (dk_next_entry d) (\<lambda>e. SeIo (''cannot walk '' @ path_display root dir @ '': '' @ io_text e)) (\<lambda>_ d.
       if path_extension p \<noteq> Some ''json'' then load_entries root j clock dir ps out d
       else case read_json root j p d of
         (Inr v, d) \<Rightarrow> load_entries root j clock dir ps (out @ [v]) d
       | (Inl _, d) \<Rightarrow> load_entries root j clock dir ps out (quarantine clock p d))"

definition load_dir :: "string \<Rightarrow> 'a json_form \<Rightarrow> (u64 \<Rightarrow> system_time) \<Rightarrow> path \<Rightarrow> 'a list disk_step" where
  "load_dir root j clock dir d =
     (case dk_list dir d of
        (Inr ps, d) \<Rightarrow> load_entries root j clock dir ps [] d
      | (Inl e, d) \<Rightarrow>
          if io_not_found e then (Inr [], d)
          else (Inl (SeIo (''cannot list '' @ path_display root dir @ '': '' @ io_text e)), d))"

section \<open>Opening\<close>

primrec create_dirs :: "string \<Rightarrow> path list \<Rightarrow> unit disk_step" where
  "create_dirs root [] d = (Inr (), d)"
| "create_dirs root (sub # subs) d =
     io_then (dk_create_dir sub d) (\<lambda>e. SeIo (''cannot create '' @ root @ '': '' @ io_text e)) (\<lambda>_ d.
       create_dirs root subs d)"

text \<open>\<open>read_to_string\<close>: bytes that are not UTF-8 are an error of another kind.\<close>

definition read_to_string :: "path \<Rightarrow> string io_call" where
  "read_to_string p d =
     (case dk_read p d of
        (Inl e, d) \<Rightarrow> (Inl e, d)
      | (Inr bytes, d) \<Rightarrow>
          (ok_or (IoError False ''stream did not contain valid UTF-8'') (from_utf8 bytes), d))"

definition check_schema :: "(string \<Rightarrow> string) \<Rightarrow> string \<Rightarrow> unit disk_step" where
  "check_schema debug root d =
     (case read_to_string ''schema'' d of
        (Inr text, d) \<Rightarrow>
          (case parse_dec (2 ^ 32 - 1) (str_trim text) of
             None \<Rightarrow>
               (Inl (SeCorrupt (path_display root ''schema'')
                  (''expected an integer, found '' @ debug (str_trim text))), d)
           | Some found \<Rightarrow>
               if found > SCHEMA
               then (Inl (SeCorrupt (path_display root ''schema'')
                  (''on-disk schema is version '' @ show_dec found @ '', this build understands ''
                   @ show_dec SCHEMA
                   @ ''. Refusing to read a newer format rather than risk mangling it.'')), d)
               else (Inr (), d))
      | (Inl e, d) \<Rightarrow>
          if io_not_found e then write_atomic root ''schema'' (str_bytes (show_dec SCHEMA)) d
          else (Inl (SeIo (''cannot read the schema marker: '' @ io_text e)), d))"

definition fl_open ::
  "(string \<Rightarrow> string) \<Rightarrow> store_json \<Rightarrow> (u64 \<Rightarrow> system_time) \<Rightarrow> string \<Rightarrow> disk
     \<Rightarrow> (store_error + file_store) \<times> disk" where
  "fl_open debug j clock root d =
     (case create_dirs root ['''', ''devices'', ''groups'', ''backups''] d of
        (Inl e, d) \<Rightarrow> (Inl e, d)
      | (Inr _, d) \<Rightarrow>
          (case check_schema debug root d of
             (Inl e, d) \<Rightarrow> (Inl e, d)
           | (Inr _, d) \<Rightarrow>
               (Inr \<lparr>fl_root = root, fl_json = j, fl_clock = clock, fl_disk = d\<rparr>, d)))"

section \<open>The operations of the store\<close>

definition fl_lift :: "'a disk_step \<Rightarrow> file_store \<Rightarrow> (store_error + 'a) \<times> file_store" where
  "fl_lift f s = (case f (fl_disk s) of (r, d) \<Rightarrow> (r, s\<lparr>fl_disk := d\<rparr>))"

definition load_network_step :: "string \<Rightarrow> persisted_network json_form \<Rightarrow> persisted_network option disk_step" where
  "load_network_step root j d =
     (let corrupt = (\<lambda>e. Inl (SeCorrupt (path_display root network_path) (store_error_display e
            @ ''. Network identity cannot be regenerated: without it the network is lost. ''
            @ ''Restore a backup rather than deleting this file.''))) in
      case read_json root j network_path d of
        (Inr n, d) \<Rightarrow> (Inr (Some n), d)
      | (Inl (SeIo t), d) \<Rightarrow>
          (case dk_exists network_path d of
             (False, d) \<Rightarrow> (Inr None, d)
           | (True, d) \<Rightarrow> (corrupt (SeIo t), d))
      | (Inl e, d) \<Rightarrow> (corrupt e, d))"

definition fl_load_network :: "file_store \<Rightarrow> (store_error + persisted_network option) \<times> file_store" where
  "fl_load_network s = fl_lift (load_network_step (fl_root s) (sj_network (fl_json s))) s"

definition fl_save_network :: "persisted_network \<Rightarrow> file_store \<Rightarrow> (store_error + unit) \<times> file_store" where
  "fl_save_network n s =
     fl_lift (write_json (fl_root s) (sj_network (fl_json s)) network_path n) s"

definition fl_load_devices :: "file_store \<Rightarrow> (store_error + persisted_device list) \<times> file_store" where
  "fl_load_devices s =
     fl_lift (load_dir (fl_root s) (sj_device (fl_json s)) (fl_clock s) ''devices'') s"

definition fl_upsert_device :: "persisted_device \<Rightarrow> file_store \<Rightarrow> (store_error + unit) \<times> file_store" where
  "fl_upsert_device v s =
     fl_lift (write_json (fl_root s) (sj_device (fl_json s)) (device_path (pdv_ieee v)) v) s"

definition fl_delete_device :: "ieee \<Rightarrow> file_store \<Rightarrow> (store_error + unit) \<times> file_store" where
  "fl_delete_device i s = fl_lift (remove_if_present (fl_root s) (device_path i)) s"

definition fl_load_groups :: "file_store \<Rightarrow> (store_error + persisted_group list) \<times> file_store" where
  "fl_load_groups s =
     fl_lift (load_dir (fl_root s) (sj_group (fl_json s)) (fl_clock s) ''groups'') s"

definition fl_upsert_group :: "persisted_group \<Rightarrow> file_store \<Rightarrow> (store_error + unit) \<times> file_store" where
  "fl_upsert_group g s =
     fl_lift (write_json (fl_root s) (sj_group (fl_json s)) (group_path (pgr_id g)) g) s"

definition fl_delete_group :: "group_id \<Rightarrow> file_store \<Rightarrow> (store_error + unit) \<times> file_store" where
  "fl_delete_group g s = fl_lift (remove_if_present (fl_root s) (group_path g)) s"

definition save_backup_step ::
  "string \<Rightarrow> (u64 \<Rightarrow> system_time) \<Rightarrow> string \<Rightarrow> ieee \<Rightarrow> u8 list \<Rightarrow> string disk_step" where
  "save_backup_step root clock adapter coordinator bytes d =
     (case draw_stamp clock d of (stamp, d) \<Rightarrow>
        (let ident = backup_name stamp adapter coordinator; p = backup_path ident in
         case write_atomic root p bytes d of
           (Inl e, d) \<Rightarrow> (Inl e, d)
         | (Inr _, d) \<Rightarrow> (Inr ident, restrict_permissions p d)))"

definition fl_save_backup ::
  "string \<Rightarrow> ieee \<Rightarrow> u8 list \<Rightarrow> file_store \<Rightarrow> (store_error + string) \<times> file_store" where
  "fl_save_backup adapter coordinator bytes s =
     fl_lift (save_backup_step (fl_root s) (fl_clock s) adapter coordinator bytes) s"

primrec list_entries :: "path list \<Rightarrow> backup_meta list \<Rightarrow> backup_meta list disk_step" where
  "list_entries [] out d =
     io_then (dk_next_entry d) (\<lambda>e. SeIo (''cannot walk backups: '' @ io_text e)) (\<lambda>_ d. (Inr out, d))"
| "list_entries (p # ps) out d =
     io_then (dk_next_entry d) (\<lambda>e. SeIo (''cannot walk backups: '' @ io_text e)) (\<lambda>_ d.
       if path_extension p \<noteq> Some ''json'' then list_entries ps out d
       else case parse_backup_id (path_stem p) of
         Some meta \<Rightarrow> list_entries ps (out @ [meta]) d
       | None \<Rightarrow> list_entries ps out d)"

text \<open>A stable sort, greatest identifier first.\<close>

definition newest_first :: "backup_meta list \<Rightarrow> backup_meta list" where
  "newest_first ms = rev (sort_key bm_id (rev ms))"

definition list_backups_step :: "backup_meta list disk_step" where
  "list_backups_step d =
     (case dk_list ''backups'' d of
        (Inr ps, d) \<Rightarrow>
          (case list_entries ps [] d of
             (Inr out, d) \<Rightarrow> (Inr (newest_first out), d)
           | (Inl e, d) \<Rightarrow> (Inl e, d))
      | (Inl e, d) \<Rightarrow>
          if io_not_found e then (Inr [], d)
          else (Inl (SeIo (''cannot list backups: '' @ io_text e)), d))"

definition fl_list_backups :: "file_store \<Rightarrow> (store_error + backup_meta list) \<times> file_store" where
  "fl_list_backups s = fl_lift list_backups_step s"

definition load_backup_step :: "string \<Rightarrow> u8 list disk_step" where
  "load_backup_step ident d =
     (if \<not> backup_id_ok ident then (Inl (SeBackupNotFound ident), d)
      else io_then (dk_read (backup_path ident) d) (\<lambda>_. SeBackupNotFound ident) (\<lambda>bytes d. (Inr bytes, d)))"

definition fl_load_backup :: "string \<Rightarrow> file_store \<Rightarrow> (store_error + u8 list) \<times> file_store" where
  "fl_load_backup ident s = fl_lift (load_backup_step ident) s"

definition fl_flush :: "file_store \<Rightarrow> (store_error + unit) \<times> file_store" where
  "fl_flush s = (Inr (), s)"

section \<open>Names of files\<close>

lemma path_split:
  assumes "CHR ''/'' \<notin> set n"
  shows "path_parent (d @ CHR ''/'' # n) = d" "path_name (d @ CHR ''/'' # n) = n"
    "path_parent n = []" "path_name n = n"
  by (simp_all add: path_parent_def path_name_def rsplit_once_append [OF assms] rsplit_once_absent [OF assms])

lemma path_cases:
  obtains pre n where "p = pre @ n" "path_name p = n" "CHR ''/'' \<notin> set n"
    "\<forall>n'. CHR ''/'' \<notin> set n' \<longrightarrow> path_name (pre @ n') = n' \<and> path_parent (pre @ n') = path_parent p"
proof (cases "CHR ''/'' \<in> set p")
  case False
  then show ?thesis using that [of "[]" p] by (simp add: path_split)
next
  case True
  then obtain d n where "p = d @ CHR ''/'' # n" "CHR ''/'' \<notin> set n"
    using split_list_last by metis
  then show ?thesis using that [of "d @ [CHR ''/'']" n] by (simp add: path_split)
qed

lemma dotted_name:
  assumes "CHR ''.'' \<notin> set e" "e \<noteq> []"
  shows "b @ CHR ''.'' # e \<noteq> ''..''"
proof
  assume "b @ CHR ''.'' # e = ''..''"
  then have "last (b @ CHR ''.'' # e) = CHR ''.''" by (simp only:) simp
  then have "last e = CHR ''.''" using assms(2) by simp
  then show False using assms last_in_set by metis
qed

lemma split_extension_dot:
  assumes "CHR ''.'' \<notin> set e" "e \<noteq> []" "b \<noteq> []"
  shows "split_extension (b @ CHR ''.'' # e) = (b, Some e)"
proof -
  have "b @ CHR ''.'' # e \<noteq> ''..''" using dotted_name [OF assms(1,2)] .
  then show ?thesis using assms by (simp add: split_extension_def rsplit_once_append)
qed

lemma split_extension_stem:
  assumes "n \<noteq> []"
  shows "fst (split_extension n) \<noteq> []" "set (fst (split_extension n)) \<subseteq> set n"
proof -
  have "set h \<subseteq> set n" if "rsplit_once CHR ''.'' n = Some (h, t)" for h t
    using that by (auto simp: rsplit_once_def Let_def dest: in_set_takeD split: if_splits)
  then show "fst (split_extension n) \<noteq> []" "set (fst (split_extension n)) \<subseteq> set n"
    using assms by (auto simp: split_extension_def split: option.split)
qed

text \<open>A new extension leaves the file in its directory.\<close>

lemma with_extension:
  assumes p: "has_name p" and e: "CHR ''.'' \<notin> set e" "CHR ''/'' \<notin> set e" "e \<noteq> []"
  shows "path_parent (with_extension p e) = path_parent p"
    and "path_extension (with_extension p e) = Some e"
    and "path_stem (with_extension p e) = path_stem p"
    and "has_name (with_extension p e)"
proof -
  obtain pre n where n: "p = pre @ n" "path_name p = n" "CHR ''/'' \<notin> set n"
    and pre: "\<forall>n'. CHR ''/'' \<notin> set n' \<longrightarrow> path_name (pre @ n') = n' \<and> path_parent (pre @ n') = path_parent p"
    by (rule path_cases [of p])
  have "n \<noteq> []" using p n(2) by (simp add: has_name_def)
  note stem = split_extension_stem [OF this]
  let ?n = "path_stem p @ CHR ''.'' # e"
  have b: "path_stem p \<noteq> []" "CHR ''/'' \<notin> set ?n" using stem n(3) e(2) by (auto simp: path_stem_def n(2))
  have w: "with_extension p e = pre @ ?n" using p e(3) n(1,2) by (simp add: with_extension_def)
  note parts = pre [rule_format, OF b(2)] and dot = split_extension_dot [OF e(1,3) b(1)]
  show "path_parent (with_extension p e) = path_parent p" "path_extension (with_extension p e) = Some e"
    "path_stem (with_extension p e) = path_stem p"
    using parts dot by (simp_all add: w path_extension_def) (simp add: path_stem_def [of "pre @ _"])
  have "?n \<noteq> ''..''" by (rule dotted_name [OF e(1,3)])
  then show "has_name (with_extension p e)" using parts by (simp add: w has_name_def)
qed

lemma tmp_name:
  assumes "has_name p"
  shows "is_temporary (with_extension p ''tmp'')" "path_parent (with_extension p ''tmp'') = path_parent p"
  using with_extension [OF assms, of "''tmp''"] by (simp_all add: is_temporary_def)

text \<open>The names of the store's own files.\<close>

lemma json_name:
  assumes "CHR ''/'' \<notin> set n" "n \<noteq> []"
  shows "path_parent (d @ CHR ''/'' # n @ ''.json'') = d" "path_extension (d @ CHR ''/'' # n @ ''.json'') = Some ''json''"
    "path_stem (d @ CHR ''/'' # n @ ''.json'') = n" "has_name (d @ CHR ''/'' # n @ ''.json'')"
proof -
  have "CHR ''/'' \<notin> set (n @ ''.json'')" using assms by simp
  note parts = path_split(1,2) [OF this, of d]
  have "split_extension (n @ CHR ''.'' # ''json'') = (n, Some ''json'')"
    by (rule split_extension_dot) (use assms in simp_all)
  with parts show "path_parent (d @ CHR ''/'' # n @ ''.json'') = d"
    "path_extension (d @ CHR ''/'' # n @ ''.json'') = Some ''json''"
    "path_stem (d @ CHR ''/'' # n @ ''.json'') = n" "has_name (d @ CHR ''/'' # n @ ''.json'')"
    using assms(2) by (simp_all add: path_extension_def path_stem_def has_name_def)
qed

lemma device_path_name:
  "path_parent (device_path i) = ''devices''" "path_extension (device_path i) = Some ''json''"
  "has_name (device_path i)" "\<not> is_temporary (device_path i)"
proof -
  have p: "device_path i = ''devices'' @ CHR ''/'' # ieee_display i @ ''.json''" by (simp add: device_path_def)
  show "path_parent (device_path i) = ''devices''" "path_extension (device_path i) = Some ''json''"
    "has_name (device_path i)"
    unfolding p by (rule json_name [OF ieee_display_no_slash ieee_display_nonempty])+
  then show "\<not> is_temporary (device_path i)" by (simp add: is_temporary_def)
qed

lemma device_path_inj: "device_path i = device_path j \<longleftrightarrow> i = j"
proof
  assume "device_path i = device_path j"
  then have "ieee_display i = ieee_display j" by (simp add: device_path_def)
  then have "ieee_parse (ieee_display i) = ieee_parse (ieee_display j)" by simp
  then show "i = j" by (simp add: ieee_parse_display)
qed simp

lemma group_path_name:
  "path_parent (group_path g) = ''groups''" "path_extension (group_path g) = Some ''json''"
  "has_name (group_path g)" "\<not> is_temporary (group_path g)"
proof -
  have "c \<noteq> CHR ''/''" if "c \<in> set (show_dec n)" for c n
    using show_dec_digits [OF that] dec_char_digit by auto
  then have s: "CHR ''/'' \<notin> set (show_dec n)" for n by blast
  have p: "group_path g = ''groups'' @ CHR ''/'' # show_dec (unat (group_raw g)) @ ''.json''"
    by (simp add: group_path_def)
  show "path_parent (group_path g) = ''groups''" "path_extension (group_path g) = Some ''json''"
    "has_name (group_path g)"
    unfolding p by (rule json_name [OF s show_dec_nonempty])+
  then show "\<not> is_temporary (group_path g)" by (simp add: is_temporary_def)
qed

lemma network_path_name:
  "path_parent network_path = []" "path_extension network_path = Some ''json''"
  "has_name network_path" "\<not> is_temporary network_path"
proof -
  have "split_extension (''network'' @ CHR ''.'' # ''json'') = (''network'', Some ''json'')"
    by (rule split_extension_dot) simp_all
  then have "split_extension network_path = (''network'', Some ''json'')" by (simp add: network_path_def)
  moreover have "path_name network_path = network_path" "path_parent network_path = []"
    by (simp_all add: path_split network_path_def)
  ultimately show "path_parent network_path = []" "path_extension network_path = Some ''json''"
    "has_name network_path" "\<not> is_temporary network_path"
    by (simp_all add: path_extension_def has_name_def is_temporary_def) (simp_all add: network_path_def)
qed

section \<open>Directories stay\<close>

lemma call_dirs:
  assumes "\<And>d. dk_dirs (snd (f d)) = dk_dirs d"
  shows "dk_dirs (snd (dk_call f d)) = dk_dirs d"
proof -
  obtain r d' where c: "dk_call f d = (r, d')" by fastforce
  then show ?thesis
  proof (cases rule: dk_callE)
    case (works d0)
    then show ?thesis using assms [of d0] by (simp add: c)
  qed (simp add: c)
qed

lemma begin_dirs: "dk_dirs (snd (dk_begin d)) = dk_dirs d"
  using dk_begin_same [of d] by (metis prod.collapse)

lemma keep_dirs [simp]:
  "dk_dirs (snd (dk_create p d)) = dk_dirs d" "dk_dirs (snd (dk_write i bytes d)) = dk_dirs d"
  "dk_dirs (snd (dk_sync i d)) = dk_dirs d" "dk_dirs (snd (dk_rename p q d)) = dk_dirs d"
  "dk_dirs (snd (dk_open_dir p d)) = dk_dirs d" "dk_dirs (snd (dk_sync_dir p d)) = dk_dirs d"
  "dk_dirs (snd (dk_remove p d)) = dk_dirs d"
  using begin_dirs [of d]
  by (auto simp: dk_create_def dk_write_def dk_sync_def dk_rename_def dk_open_dir_def dk_sync_dir_def
      dk_remove_def dk_rename_to_def Let_def intro!: call_dirs split: option.split prod.splits)

lemma io_then_dirs:
  assumes "dk_dirs (snd x) = D" "\<And>a d. dk_dirs d = D \<Longrightarrow> dk_dirs (snd (k a d)) = D"
  shows "dk_dirs (snd (io_then x err k)) = D"
  using assms by (auto simp: io_then_def split: prod.split sum.split)

lemma sync_parent_dirs [simp]: "dk_dirs (sync_parent p d) = dk_dirs d"
  using keep_dirs(5) [of "path_parent p" d]
  by (auto simp del: keep_dirs(5) simp: sync_parent_def split: prod.split sum.split)

lemma write_atomic_dirs [simp]: "dk_dirs (snd (write_atomic root p bytes d)) = dk_dirs d"
  unfolding write_atomic_def Let_def by (intro io_then_dirs) simp_all

lemma store_dirs [simp]:
  "dk_dirs (snd (write_json root j p v d)) = dk_dirs d" "dk_dirs (snd (remove_if_present root p d)) = dk_dirs d"
  using keep_dirs(7) [of p d]
  by (auto simp del: keep_dirs(7) simp: write_json_def remove_if_present_def split: sum.split prod.splits)

section \<open>Outcomes are used up\<close>

lemma io_then_later:
  assumes "later d (snd x)" "\<And>a d'. later d d' \<Longrightarrow> later d (snd (k a d'))"
  shows "later d (snd (io_then x err k))"
  using assms by (auto simp: io_then_def split: prod.split sum.split)

lemma after_calls:
  assumes "later d d'"
  shows "later d (snd (dk_create p d'))" "later d (snd (dk_write i bytes d'))" "later d (snd (dk_sync i d'))"
    "later d (snd (dk_rename p q d'))" "later d (snd (dk_open_dir p d'))" "later d (snd (dk_sync_dir p d'))"
    "later d (snd (dk_remove p d'))" "later d (snd (dk_read p d'))" "later d (snd (dk_exists p d'))"
    "later d (snd (dk_list p d'))" "later d (snd (dk_next_entry d'))" "later d (snd (dk_set_private p d'))"
    "later d (d'\<lparr>dk_counter := n\<rparr>)"
  by (rule later_trans [OF assms later_calls(1)] later_trans [OF assms later_calls(2)]
      later_trans [OF assms later_calls(3)] later_trans [OF assms later_calls(4)]
      later_trans [OF assms later_calls(5)] later_trans [OF assms later_calls(6)]
      later_trans [OF assms later_calls(7)] later_trans [OF assms later_calls(8)]
      later_trans [OF assms later_calls(9)] later_trans [OF assms later_calls(10)]
      later_trans [OF assms later_calls(11)] later_trans [OF assms later_calls(12)])+
    (use assms in \<open>simp add: later_def\<close>)

lemma later_sync_parent: "later d d' \<Longrightarrow> later d (sync_parent p d')"
proof -
  assume d: "later d d'"
  obtain r e where o: "dk_open_dir (path_parent p) d' = (r, e)" by fastforce
  then have "later d e" using after_calls(5) [OF d, of "path_parent p"] by simp
  then show ?thesis by (auto simp: sync_parent_def o after_calls split: sum.split)
qed

lemma later_write_atomic: "later d d' \<Longrightarrow> later d (snd (write_atomic root p bytes d'))"
  unfolding write_atomic_def Let_def
  by (intro io_then_later after_calls) (simp_all add: later_sync_parent)

lemma later_write_json: "later d d' \<Longrightarrow> later d (snd (write_json root j p v d'))"
  by (simp add: write_json_def later_write_atomic split: sum.split)

lemma later_read_json: "later d d' \<Longrightarrow> later d (snd (read_json root j p d'))"
  unfolding read_json_def by (intro io_then_later after_calls) simp_all

lemma later_remove: "later d d' \<Longrightarrow> later d (snd (remove_if_present root p d'))"
  using after_calls(7) [of d d' p]
  by (auto simp: remove_if_present_def split: prod.splits sum.split)

lemma later_stamp: "later d d' \<Longrightarrow> later d (snd (draw_stamp clock d'))"
  by (simp add: draw_stamp_def after_calls)

lemma later_quarantine: "later d d' \<Longrightarrow> later d (quarantine clock p d')"
  by (auto simp: quarantine_def draw_stamp_def after_calls)

lemma later_load_entries: "later d d' \<Longrightarrow> later d (snd (load_entries root j clock dir ps out d'))"
proof (induction ps arbitrary: out d')
  case Nil
  then show ?case by (auto intro!: io_then_later after_calls)
next
  case (Cons p ps)
  have "later d (snd (case read_json root j p e of
      (Inr v, d) \<Rightarrow> load_entries root j clock dir ps (out @ [v]) d
    | (Inl _, d) \<Rightarrow> load_entries root j clock dir ps out (quarantine clock p d)))" if "later d e" for e
    using later_read_json [OF that, of root j p] Cons.IH later_quarantine
    by (auto split: prod.split sum.split)
  then show ?case using Cons by (auto intro!: io_then_later after_calls)
qed

lemma later_load_dir: "later d d' \<Longrightarrow> later d (snd (load_dir root j clock dir d'))"
  using after_calls(10) [of d d' dir]
  by (auto simp: load_dir_def later_load_entries split: prod.splits sum.split)

lemma later_load_network: "later d d' \<Longrightarrow> later d (snd (load_network_step root j d'))"
  using later_read_json [of d d' root j network_path]
  by (auto simp: load_network_step_def Let_def
      split: prod.splits sum.split store_error.split bool.split
      dest: after_calls(9) [of _ _ network_path])

lemma later_save_backup: "later d d' \<Longrightarrow> later d (snd (save_backup_step root clock a c bytes d'))"
proof -
  assume d: "later d d'"
  obtain stamp e where st: "draw_stamp clock d' = (stamp, e)" by fastforce
  then have "later d e" using later_stamp [OF d, of clock] by simp
  from later_write_atomic [OF this, of root "backup_path (backup_name stamp a c)" bytes]
  show ?thesis
    by (auto simp: save_backup_step_def st Let_def restrict_permissions_def after_calls split: prod.split sum.split)
qed

lemma later_list_entries: "later d d' \<Longrightarrow> later d (snd (list_entries ps out d'))"
proof (induction ps arbitrary: out d')
  case Nil
  then show ?case by (auto intro!: io_then_later after_calls)
next
  case (Cons p ps)
  then show ?case by (auto intro!: io_then_later after_calls split: option.split)
qed

lemma later_list_backups: "later d d' \<Longrightarrow> later d (snd (list_backups_step d'))"
proof -
  assume d: "later d d'"
  obtain x e where l: "dk_list ''backups'' d' = (x, e)" by fastforce
  then have e: "later d e" using after_calls(10) [OF d, of "''backups''"] by simp
  show ?thesis
    using e later_list_entries [OF e] by (auto simp: list_backups_step_def l split: sum.split prod.split)
      (metis snd_conv)+
qed

lemma later_load_backup: "later d d' \<Longrightarrow> later d (snd (load_backup_step i d'))"
  unfolding load_backup_step_def by (auto intro!: io_then_later after_calls)

section \<open>Files are replaced whole\<close>

lemma sync_parent_keeps:
  assumes "dk_ok d"
  shows "keeps {} d (sync_parent p d) \<and> may_hold (sync_parent p d) q \<subseteq> may_hold d q
    \<and> dk_file (sync_parent p d) = dk_file d"
proof -
  obtain r d1 where o: "dk_open_dir (path_parent p) d = (r, d1)" by fastforce
  then have "same_files d d1"
    unfolding dk_open_dir_def by (cases rule: dk_callE) auto
  note same = this and eq = same_filesD [OF this]
  obtain r' d2 where c: "dk_sync_dir (path_parent p) d1 = (r', d2)" by fastforce
  have "dk_ok d1" using assms by (simp add: eq)
  note k = keeps_sync_dir [OF this c]
  have "keeps {} d1 d1" by (rule keeps_refl) (rule \<open>dk_ok d1\<close>)
  then show ?thesis
    using k by (auto simp: sync_parent_def o c keeps_def eq split: sum.split)
qed

text \<open>
  However it ends, a write leaves the old contents or the new ones under the name, and all other
  names alone; it ends well exactly when the new contents are there. They are whole unless a write
  fails unseen.
\<close>

lemma write_atomic_keeps:
  assumes ok: "dk_ok d" and p: "has_name p" "\<not> is_temporary p" and call: "write_atomic root p bytes d = (r, d')"
  shows "keeps {p} d d' \<and> may_hold d' p \<subseteq> Some ` pieces (fails_unseen d) bytes \<union> may_hold d p
    \<and> (case r of Inr _ \<Rightarrow> dk_file d' p \<in> Some ` pieces (fails_unseen d) bytes | Inl _ \<Rightarrow> dk_file d' p = dk_file d p)"
proof -
  let ?tmp = "with_extension p ''tmp''"
  note tmp = tmp_name [OF p(1)]
  have stop: ?thesis if "keeps {} d d'" "r = Inl e" for e
    using that p(2) keeps_mono [of "{}" d d' "{p}"] keepsD(1,2) [OF that(1) p(2)] by auto
  obtain r1 d1 where c1: "dk_create ?tmp d = (r1, d1)" by fastforce
  note k1 = keeps_create [OF ok tmp(1) c1]
  show ?thesis
  proof (cases r1)
    case (Inl e)
    then show ?thesis using k1 call stop by (auto simp: write_atomic_def Let_def io_then_def c1)
  next
    case (Inr f)
    then have f: "hm_get (dk_names d1) ?tmp = Some f" "dk_data d1 f = []" using k1 by auto
    have ok1: "dk_ok d1" using k1 keepsD(3) by blast
    have late: "later d d1" using later_calls(1) [of d ?tmp] by (simp add: c1)
    define x where "x = dk_reaches d1 bytes"
    have x: "x \<in> pieces (fails_unseen d) bytes"
      using reaches_piece [of d1 bytes] pieces_mono later_unseen [OF late] unfolding x_def by blast
    obtain r2 d2 where c2: "dk_write f bytes d1 = (r2, d2)" by fastforce
    note k2 = keeps_write [OF ok1 f(1) tmp(1) c2]
    have t2: "keeps {} d d2" using keeps_trans k1 k2 by blast
    show ?thesis
    proof (cases r2)
      case Inl
      then show ?thesis using t2 call stop by (auto simp: write_atomic_def Let_def io_then_def c1 c2 Inr)
    next
      case r2: (Inr u)
      then have f2: "hm_get (dk_names d2) ?tmp = Some f" "dk_data d2 f = x" using k2 f by (auto simp: x_def)
      have ok2: "dk_ok d2" using k2 keepsD(3) by blast
      obtain r3 d3 where c3: "dk_sync f d2 = (r3, d3)" by fastforce
      note k3 = keeps_sync [OF ok2 f2(1) tmp(1) c3]
      have t3: "keeps {} d d3" using keeps_trans t2 k3 by blast
      show ?thesis
      proof (cases r3)
        case Inl
        then show ?thesis using t3 call stop by (auto simp: write_atomic_def Let_def io_then_def c1 c2 c3 Inr r2)
      next
        case r3: (Inr u')
        then have f3: "hm_get (dk_names d3) ?tmp = Some f" "dk_data d3 f = x" "dk_synced d3 f" using k3 f2 by auto
        have ok3: "dk_ok d3" using k3 keepsD(3) by blast
        obtain r4 d4 where c4: "dk_rename ?tmp p d3 = (r4, d4)" by fastforce
        note k4 = keeps_rename [OF ok3 tmp(2) [symmetric] p(2) _ c4]
        have k4: "keeps {?tmp, p} d3 d4 \<and> dk_data d4 = dk_data d3
            \<and> (\<forall>u. r4 = Inr u \<longrightarrow> dk_names d4 = hm_insert p (the (hm_get (dk_names d3) ?tmp)) (hm_remove ?tmp (dk_names d3))
               \<and> may_hold d4 p \<subseteq> insert (dk_file d3 ?tmp) (may_hold d3 p))
            \<and> (\<forall>e. r4 = Inl e \<longrightarrow> same_files d3 d4)"
          using k4 f3 by auto
        show ?thesis
        proof (cases r4)
          case (Inl e)
          then have "keeps {} d3 d4" using k4 ok3 by (auto intro: same_files_keeps)
          then have "keeps {} d d4" using keeps_trans t3 by blast
          then show ?thesis using Inl call stop by (auto simp: write_atomic_def Let_def io_then_def c1 c2 c3 c4 Inr r2 r3)
        next
          case r4: (Inr u'')
          have r: "r = Inr ()" and d': "d' = sync_parent p d4"
            using call by (auto simp: write_atomic_def Let_def io_then_def c1 c2 c3 c4 Inr r2 r3 r4)
          have ok4: "dk_ok d4" using k4 keepsD(3) by blast
          note k5 = sync_parent_keeps [OF ok4, of p]
          have "keeps {p} d3 d4" using k4 tmp(1) by (auto simp: keeps_def)
          with keeps_mono [OF t3, of "{p}"] have "keeps {p} d d4" using keeps_trans by blast
          moreover have "keeps {p} d4 d'" unfolding d' using k5 keeps_mono by blast
          ultimately have "keeps {p} d d'" by (rule keeps_trans)
          moreover have "may_hold d4 p \<subseteq> insert (Some x) (may_hold d3 p)"
            using k4 r4 f3 by (auto simp: dk_file_def)
          moreover have "may_hold d3 p \<subseteq> may_hold d p" using keepsD(1) [OF t3 p(2)] by simp
          moreover have "may_hold d' p \<subseteq> may_hold d4 p" using k5 by (simp add: d')
          moreover have "dk_file d4 p = Some x"
            using k4 r4 f3 by (simp add: dk_file_def hm_get_insert)
          then have "dk_file d' p = Some x" using k5 by (simp add: d')
          ultimately show ?thesis using x unfolding r by auto
        qed
      qed
    qed
  qed
qed

definition written :: "bool \<Rightarrow> 'a json_form \<Rightarrow> 'a \<Rightarrow> u8 list option set" where
  "written u j v = (case js_write j v of Inl _ \<Rightarrow> {} | Inr b \<Rightarrow> Some ` pieces u b)"

lemma write_json_keeps:
  assumes ok: "dk_ok d" and p: "has_name p" "\<not> is_temporary p" and call: "write_json root j p v d = (r, d')"
  shows "keeps {p} d d' \<and> may_hold d' p \<subseteq> may_hold d p \<union> written (fails_unseen d) j v"
proof (cases "js_write j v")
  case (Inl e)
  then show ?thesis using call ok by (auto simp: write_json_def keeps_refl)
next
  case (Inr b)
  then have "write_atomic root p b d = (r, d')" using call by (simp add: write_json_def)
  from write_atomic_keeps [OF ok p this] Inr show ?thesis by (auto simp: written_def)
qed

lemma remove_keeps:
  assumes ok: "dk_ok d" and call: "remove_if_present root p d = (r, d')"
  shows "keeps {p} d d' \<and> may_hold d' p \<subseteq> insert None (may_hold d p)"
proof -
  obtain r0 d0 where "dk_remove p d = (r0, d0)" by fastforce
  then show ?thesis
    using keeps_remove [OF ok, of p r0 d0] call
    by (auto simp: remove_if_present_def split: sum.splits if_splits)
qed

text \<open>The name of what is moved aside.\<close>

lemma corrupt_name:
  assumes "has_name p"
  shows "path_parent (with_extension p (''corrupt-'' @ timestamp now n)) = path_parent p"
    "path_extension (with_extension p (''corrupt-'' @ timestamp now n)) = Some (''corrupt-'' @ timestamp now n)"
proof -
  have "c \<noteq> CHR ''.'' \<and> c \<noteq> CHR ''/''" if c: "c \<in> set (show_dec_pad w k)" for c w k
  proof -
    obtain x where "x < 10" "c = dec_char x" using show_dec_pad_digits [OF c] by blast
    then show ?thesis using dec_val_char [of x] by (auto simp: dec_val_def)
  qed
  then have e: "CHR ''.'' \<notin> set (''corrupt-'' @ timestamp now n)" "CHR ''/'' \<notin> set (''corrupt-'' @ timestamp now n)"
    "''corrupt-'' @ timestamp now n \<noteq> []"
    by (auto simp: timestamp_def)
  show "path_parent (with_extension p (''corrupt-'' @ timestamp now n)) = path_parent p"
    "path_extension (with_extension p (''corrupt-'' @ timestamp now n)) = Some (''corrupt-'' @ timestamp now n)"
    by (rule with_extension [OF assms e])+
qed

text \<open>What is moved aside leaves its name; its new name is that of no record.\<close>

lemma quarantine_keeps:
  assumes ok: "dk_ok d" and p: "has_name p" "\<not> is_temporary p"
  shows "keeps {p, with_extension p (''corrupt-'' @ timestamp (clock (dk_counter d)) (dk_counter d))} d (quarantine clock p d)
    \<and> may_hold (quarantine clock p d) p \<subseteq> insert None (may_hold d p)"
proof -
  let ?e = "''corrupt-'' @ timestamp (clock (dk_counter d)) (dk_counter d)"
  let ?d = "d\<lparr>dk_counter := dk_counter d + 1\<rparr>"
  let ?q = "with_extension p ?e"
  note q = corrupt_name [OF p(1), of "clock (dk_counter d)" "dk_counter d"]
  have nt: "\<not> is_temporary ?q" unfolding is_temporary_def q(2) by simp
  have same: "same_files d ?d" by (simp add: same_files_def)
  note eq = same_filesD [OF same]
  obtain r d' where c: "dk_rename p ?q ?d = (r, d')" by fastforce
  have ok': "dk_ok ?d" using ok by (simp add: eq)
  have sync: "dk_synced ?d i" if "hm_get (dk_names ?d) p = Some i" for i
    using dk_okD(3) [OF ok' states_now that p(2)] .
  note k = keeps_rename [OF ok' q(1) nt sync c]
  have d': "quarantine clock p d = d'" by (simp only: quarantine_def draw_stamp_def prod.case c snd_conv)
  have "may_hold d' p \<subseteq> insert None (may_hold d p)"
  proof (cases r)
    case (Inl e)
    then have "same_files ?d d'" using k by auto
    then show ?thesis by (auto simp: same_filesD eq)
  next
    case (Inr u)
    then have "may_hold d' ?q \<subseteq> insert (dk_file d p) (may_hold d ?q)"
      "p \<noteq> ?q \<Longrightarrow> may_hold d' p \<subseteq> insert None (may_hold d p)"
      using k by (simp_all only: eq) blast+
    then show ?thesis using file_may_hold [of d p] by (cases "p = ?q") auto
  qed
  moreover have "keeps {p, ?q} d d'" using k by (simp add: keeps_def eq)
  ultimately show ?thesis by (simp add: d')
qed

lemma json_has_name: "path_extension p = Some e \<Longrightarrow> has_name p"
  by (auto simp: path_extension_def has_name_def split_extension_def rsplit_once_def Let_def split: if_splits)

lemma quarantine_json:
  assumes ok: "dk_ok d" and p: "path_extension p = Some ''json''" and q: "path_extension q = Some ''json''"
  shows "dk_ok (quarantine clock p d)"
    and "may_hold (quarantine clock p d) q \<subseteq> (if q = p then insert None (may_hold d q) else may_hold d q)"
proof -
  let ?e = "''corrupt-'' @ timestamp (clock (dk_counter d)) (dk_counter d)"
  have nt: "\<not> is_temporary p" "\<not> is_temporary q" using p q by (simp_all add: is_temporary_def)
  note k = quarantine_keeps [OF ok json_has_name [OF p] nt(1), of clock]
  show "dk_ok (quarantine clock p d)" using k keepsD(3) by blast
  have "path_extension (with_extension p ?e) = Some ?e" by (rule corrupt_name(2) [OF json_has_name [OF p]])
  then have "q \<noteq> with_extension p ?e" using q by auto
  then show "may_hold (quarantine clock p d) q \<subseteq> (if q = p then insert None (may_hold d q) else may_hold d q)"
    using k nt(2) by (auto simp: keeps_def)
qed

lemma read_json_same: "read_json root j p d = (r, d') \<Longrightarrow> same_files d d'"
proof -
  assume r: "read_json root j p d = (r, d')"
  obtain x d1 where c: "dk_read p d = (x, d1)" by fastforce
  then have "same_files d d1" unfolding dk_read_def by (cases rule: dk_callE) auto
  then show ?thesis using r by (auto simp: read_json_def io_then_def c split: sum.splits)
qed

lemma next_entry_same: "dk_next_entry d = (r, d') \<Longrightarrow> same_files d d'"
  unfolding dk_next_entry_def by (cases rule: dk_callE) auto

lemma load_entries_keeps:
  assumes "load_entries root j clock dir ps out d = (r, d')" "dk_ok d" "\<forall>p \<in> set ps. path_parent p = dir"
    "path_extension q = Some ''json''"
  shows "dk_ok d' \<and> may_hold d' q \<subseteq> (if path_parent q = dir then insert None (may_hold d q) else may_hold d q)"
  using assms
proof (induction ps arbitrary: out d)
  case Nil
  obtain x d1 where c: "dk_next_entry d = (x, d1)" by fastforce
  note eq = same_filesD [OF next_entry_same [OF c]]
  have "d' = d1" using Nil.prems(1) by (auto simp: io_then_def c split: sum.splits)
  then show ?case using Nil.prems(2) by (auto simp: eq)
next
  case (Cons p ps)
  obtain x d1 where c: "dk_next_entry d = (x, d1)" by fastforce
  note eq = same_filesD [OF next_entry_same [OF c]]
  have ok1: "dk_ok d1" using Cons.prems(2) by (simp add: eq)
  note IH = Cons.IH [OF _ _ _ Cons.prems(4)]
  show ?case
  proof (cases x)
    case (Inl e)
    then have "d' = d1" using Cons.prems(1) by (auto simp: io_then_def c)
    then show ?thesis using Cons.prems(2) by (auto simp: eq)
  next
    case x: (Inr u)
    show ?thesis
    proof (cases "path_extension p = Some ''json''")
      case False
      then have "load_entries root j clock dir ps out d1 = (r, d')"
        using Cons.prems(1) by (simp add: io_then_def c x)
      from IH [OF this ok1] Cons.prems(3) show ?thesis by (auto simp: eq)
    next
      case json: True
      obtain y d2 where c2: "read_json root j p d1 = (y, d2)" by fastforce
      note eq2 = same_filesD [OF read_json_same [OF c2]]
      have ok2: "dk_ok d2" using ok1 by (simp add: eq2)
      show ?thesis
      proof (cases y)
        case (Inr v)
        then have "load_entries root j clock dir ps (out @ [v]) d2 = (r, d')"
          using Cons.prems(1) json by (simp add: io_then_def c x c2)
        from IH [OF this ok2] Cons.prems(3) show ?thesis by (auto simp: eq eq2)
      next
        case (Inl e)
        note z = quarantine_json [OF ok2 json Cons.prems(4), of clock]
        have "load_entries root j clock dir ps out (quarantine clock p d2) = (r, d')"
          using Cons.prems(1) json Inl by (simp add: io_then_def c x c2)
        from IH [OF this z(1)] Cons.prems(3) z(2) show ?thesis
          by (auto simp: eq eq2 split: if_splits)
      qed
    qed
  qed
qed

lemma load_dir_keeps:
  assumes call: "load_dir root j clock dir d = (r, d')" and ok: "dk_ok d" and q: "path_extension q = Some ''json''"
  shows "dk_ok d' \<and> may_hold d' q \<subseteq> (if path_parent q = dir then insert None (may_hold d q) else may_hold d q)"
proof -
  obtain x d1 where c: "dk_list dir d = (x, d1)" by fastforce
  then have same: "same_files d d1 \<and> (\<forall>ps. x = Inr ps \<longrightarrow> (\<forall>p \<in> set ps. path_parent p = dir))"
    unfolding dk_list_def by (cases rule: dk_callE) (auto split: if_splits)
  note eq = same_filesD [OF same [THEN conjunct1]]
  show ?thesis
  proof (cases x)
    case (Inl e)
    then have "d' = d1" using call by (auto simp: load_dir_def c split: if_splits)
    then show ?thesis using ok by (auto simp: eq)
  next
    case (Inr ps)
    then have "load_entries root j clock dir ps [] d1 = (r, d')" using call by (simp add: load_dir_def c)
    from load_entries_keeps [OF this _ _ q] show ?thesis using ok same Inr by (auto simp: eq)
  qed
qed

lemma backup_path_name:
  "path_parent (backup_path ident) \<notin> {[], ''devices'', ''groups''}" "has_name (backup_path ident)" "\<not> is_temporary (backup_path ident)"
proof -
  obtain pre t where x: "ident = pre @ t" "CHR ''/'' \<notin> set t" "pre = [] \<or> (\<exists>h. pre = h @ [CHR ''/''])"
  proof (cases "CHR ''/'' \<in> set ident")
    case False
    then show ?thesis using that [of "[]" ident] by simp
  next
    case True
    then obtain h t where "ident = h @ CHR ''/'' # t" "CHR ''/'' \<notin> set t" using split_list_last by metis
    then show ?thesis using that [of "h @ [CHR ''/'']" t] by simp
  qed
  have t: "CHR ''/'' \<notin> set (t @ ''.json'')" using x(2) by simp
  have "path_name (backup_path ident) = t @ ''.json'' \<and> path_parent (backup_path ident) \<notin> {[], ''devices'', ''groups''}"
  proof (cases "pre = []")
    case True
    then have "backup_path ident = ''backups'' @ CHR ''/'' # t @ ''.json''" by (simp add: backup_path_def x(1))
    then show ?thesis using path_split(1,2) [OF t, of "''backups''"] by simp
  next
    case False
    then obtain h where "pre = h @ [CHR ''/'']" using x(3) by blast
    then have "backup_path ident = (''backups/'' @ h) @ CHR ''/'' # t @ ''.json''" by (simp add: backup_path_def x(1))
    then show ?thesis using path_split(1,2) [OF t, of "''backups/'' @ h"] by simp
  qed
  note n = this [THEN conjunct1]
  show "path_parent (backup_path ident) \<notin> {[], ''devices'', ''groups''}" using \<open>_ \<and> _\<close> by blast
  have "t @ CHR ''.'' # ''json'' \<noteq> ''..''" by (rule dotted_name) simp_all
  then show "has_name (backup_path ident)" by (simp add: has_name_def n)
  have "split_extension (t @ CHR ''.'' # ''json'') = (if t = [] then (''.json'', None) else (t, Some ''json''))"
    by (simp add: split_extension_dot) (simp add: split_extension_def rsplit_once_def)
  then show "\<not> is_temporary (backup_path ident)" by (simp add: is_temporary_def path_extension_def n)
qed

section \<open>Runs of the store\<close>

datatype store_op =
    Op_Load_Network
  | Op_Save_Network persisted_network
  | Op_Load_Devices
  | Op_Upsert_Device persisted_device
  | Op_Delete_Device ieee
  | Op_Load_Groups
  | Op_Upsert_Group persisted_group
  | Op_Delete_Group group_id
  | Op_Save_Backup string ieee "u8 list"
  | Op_List_Backups
  | Op_Load_Backup string
  | Op_Flush

primrec fl_op :: "store_op \<Rightarrow> file_store \<Rightarrow> file_store" where
  "fl_op Op_Load_Network s = snd (fl_load_network s)"
| "fl_op (Op_Save_Network n) s = snd (fl_save_network n s)"
| "fl_op Op_Load_Devices s = snd (fl_load_devices s)"
| "fl_op (Op_Upsert_Device v) s = snd (fl_upsert_device v s)"
| "fl_op (Op_Delete_Device i) s = snd (fl_delete_device i s)"
| "fl_op Op_Load_Groups s = snd (fl_load_groups s)"
| "fl_op (Op_Upsert_Group g) s = snd (fl_upsert_group g s)"
| "fl_op (Op_Delete_Group g) s = snd (fl_delete_group g s)"
| "fl_op (Op_Save_Backup a c bytes) s = snd (fl_save_backup a c bytes s)"
| "fl_op Op_List_Backups s = snd (fl_list_backups s)"
| "fl_op (Op_Load_Backup i) s = snd (fl_load_backup i s)"
| "fl_op Op_Flush s = snd (fl_flush s)"

definition fl_run :: "store_op list \<Rightarrow> file_store \<Rightarrow> file_store" where
  "fl_run ops s = fold fl_op ops s"

text \<open>The files of the records, and what an operation may put there.\<close>

definition stored_path :: "path \<Rightarrow> bool" where
  "stored_path p \<longleftrightarrow> path_extension p = Some ''json'' \<and> path_parent p \<in> {[], ''devices'', ''groups''}"

definition record_path :: "path \<Rightarrow> bool" where
  "record_path p \<longleftrightarrow> path_parent p = ''devices'' \<and> path_extension p = Some ''json''"

definition op_puts :: "bool \<Rightarrow> store_json \<Rightarrow> store_op \<Rightarrow> path \<Rightarrow> u8 list option set" where
  "op_puts u j op p =
     (case op of
        Op_Save_Network n \<Rightarrow> (if p = network_path then written u (sj_network j) n else {})
      | Op_Upsert_Device v \<Rightarrow> (if p = device_path (pdv_ieee v) then written u (sj_device j) v else {})
      | Op_Delete_Device i \<Rightarrow> (if p = device_path i then {None} else {})
      | Op_Load_Devices \<Rightarrow> (if path_parent p = ''devices'' then {None} else {})
      | Op_Upsert_Group g \<Rightarrow> (if p = group_path (pgr_id g) then written u (sj_group j) g else {})
      | Op_Delete_Group g \<Rightarrow> (if p = group_path g then {None} else {})
      | Op_Load_Groups \<Rightarrow> (if path_parent p = ''groups'' then {None} else {})
      | _ \<Rightarrow> {})"

lemma record_path_stored: "record_path p \<Longrightarrow> stored_path p"
  by (simp add: record_path_def stored_path_def)

lemma written_mono: "(u \<longrightarrow> u') \<Longrightarrow> written u j v \<subseteq> written u' j v"
  using pieces_mono [of u u'] by (auto simp: written_def split: sum.split)

lemma op_puts_mono: "(u \<longrightarrow> u') \<Longrightarrow> op_puts u j op p \<subseteq> op_puts u' j op p"
  by (auto simp: op_puts_def split: store_op.split intro: subsetD [OF written_mono])

lemma writtenE:
  assumes "x \<in> written u j v"
  obtains b y where "js_write j v = Inr b" "x = Some y" "y \<in> pieces u b"
  using assms by (auto simp: written_def split: sum.splits)

lemma op_puts_device:
  "Some b \<in> op_puts u j op p \<Longrightarrow> record_path p
    \<Longrightarrow> \<exists>v. op = Op_Upsert_Device v \<and> p = device_path (pdv_ieee v) \<and> Some b \<in> written u (sj_device j) v"
  by (cases op) (auto simp: op_puts_def record_path_def network_path_name group_path_name split: if_splits)

lemma op_puts_network:
  "x \<in> op_puts u j op network_path \<Longrightarrow> \<exists>n. op = Op_Save_Network n \<and> x \<in> written u (sj_network j) n"
  by (cases op)
    (auto simp: op_puts_def network_path_name dest: arg_cong [of network_path _ path_parent]
      simp: device_path_name group_path_name split: if_splits)

lemma fl_lift_disk [simp]:
  "fl_disk (snd (fl_lift f s)) = snd (f (fl_disk s))"
  "fl_json (snd (fl_lift f s)) = fl_json s" "fl_root (snd (fl_lift f s)) = fl_root s"
  "fl_clock (snd (fl_lift f s)) = fl_clock s"
  "fst (fl_lift f s) = fst (f (fl_disk s))"
  by (simp_all add: fl_lift_def split: prod.split)

lemmas fl_ops = fl_load_network_def fl_save_network_def fl_load_devices_def fl_upsert_device_def
  fl_delete_device_def fl_load_groups_def fl_upsert_group_def fl_delete_group_def fl_save_backup_def
  fl_list_backups_def fl_load_backup_def fl_flush_def

lemma fl_op_world [simp]:
  "fl_json (fl_op op s) = fl_json s" "fl_root (fl_op op s) = fl_root s" "fl_clock (fl_op op s) = fl_clock s"
  by (cases op; simp add: fl_ops)+

lemma keeps_record:
  assumes "keeps ps d d'" "stored_path p" "p \<notin> ps"
  shows "may_hold d' p \<subseteq> may_hold d p"
  using assms by (auto simp: keeps_def stored_path_def is_temporary_def)

lemma exists_same: "dk_exists p d = (b, d') \<Longrightarrow> same_files d d'"
  by (auto simp: dk_exists_def dest!: dk_begin_same split: prod.splits option.splits)

lemma load_network_same: "same_files d (snd (load_network_step root j d))"
proof -
  obtain r d1 where c: "read_json root j network_path d = (r, d1)" by fastforce
  obtain b d2 where e: "dk_exists network_path d1 = (b, d2)" by fastforce
  have "same_files d d1" "same_files d1 d2" using read_json_same [OF c] exists_same [OF e] .
  moreover from this have "same_files d d2" by (simp add: same_files_def)
  ultimately show ?thesis
    by (simp add: load_network_step_def Let_def c e split: sum.split store_error.split bool.split)
qed

lemma list_entries_same: "same_files d (snd (list_entries ps out d))"
proof (induction ps arbitrary: out d)
  case Nil
  obtain r d1 where c: "dk_next_entry d = (r, d1)" by fastforce
  then show ?case using next_entry_same [OF c] by (auto simp: io_then_def c split: sum.split)
next
  case (Cons p ps)
  obtain r d1 where c: "dk_next_entry d = (r, d1)" by fastforce
  have "same_files d (snd (list_entries ps out' d1))" for out'
    using Cons [of d1 out'] next_entry_same [OF c] by (simp add: same_files_def)
  then show ?case using next_entry_same [OF c] by (auto simp: io_then_def c split: sum.split option.split)
qed

lemma list_backups_same: "same_files d (snd (list_backups_step d))"
proof -
  obtain r d1 where c: "dk_list ''backups'' d = (r, d1)" by fastforce
  then have s1: "same_files d d1" unfolding dk_list_def by (cases rule: dk_callE) auto
  have "same_files d (snd (list_entries ps [] d1))" for ps
    using list_entries_same [of d1 ps "[]"] s1 by (simp add: same_files_def)
  then show ?thesis using s1
    by (auto simp: list_backups_step_def c split: sum.split prod.split) (metis snd_conv)+
qed

lemma load_backup_same: "same_files d (snd (load_backup_step i d))"
proof -
  obtain r d1 where c: "dk_read (backup_path i) d = (r, d1)" by fastforce
  then have "same_files d d1" unfolding dk_read_def by (cases rule: dk_callE) auto
  then show ?thesis by (auto simp: load_backup_step_def io_then_def c split: sum.split)
qed

lemma save_backup_keeps:
  assumes ok: "dk_ok d" and p: "stored_path p"
  shows "dk_ok (snd (save_backup_step root clock a c bytes d))
    \<and> may_hold (snd (save_backup_step root clock a c bytes d)) p \<subseteq> may_hold d p"
proof -
  obtain stamp d1 where st: "draw_stamp clock d = (stamp, d1)" by fastforce
  then have "same_files d d1" by (auto simp: draw_stamp_def same_files_def)
  note eq1 = same_filesD [OF this]
  let ?b = "backup_path (backup_name stamp a c)"
  obtain r d2 where w: "write_atomic root ?b bytes d1 = (r, d2)" by fastforce
  have ok1: "dk_ok d1" using ok by (simp add: eq1)
  note k = write_atomic_keeps [OF ok1 backup_path_name(2,3) w, THEN conjunct1]
  have "p \<noteq> ?b" using p backup_path_name(1) unfolding stored_path_def by blast
  then have "may_hold d2 p \<subseteq> may_hold d p" using keeps_record [OF k p] by (simp add: eq1)
  moreover have "dk_ok d2" by (rule keepsD(3) [OF k])
  moreover obtain r3 d3 where s: "dk_set_private ?b d2 = (r3, d3)" by fastforce
  moreover from s have "same_files d2 d3"
    unfolding dk_set_private_def by (cases rule: dk_callE) (auto simp: same_files_def split: option.splits)
  note eq3 = same_filesD [OF this]
  ultimately show ?thesis
    by (simp add: save_backup_step_def st w Let_def restrict_permissions_def s eq3 split: sum.split)
qed

lemma fl_op_keeps:
  assumes ok: "dk_ok (fl_disk s)" and p: "stored_path p"
  shows "dk_ok (fl_disk (fl_op op s))
    \<and> may_hold (fl_disk (fl_op op s)) p \<subseteq> may_hold (fl_disk s) p \<union> op_puts (fails_unseen (fl_disk s)) (fl_json s) op p"
proof -
  have same: ?thesis if "same_files (fl_disk s) (fl_disk (fl_op op s))"
    using ok by (auto simp: same_filesD [OF that])
  have json: "path_extension p = Some ''json''"
    using p by (simp add: stored_path_def)
  have one: ?thesis if "keeps {q} (fl_disk s) (fl_disk (fl_op op s))"
    "p = q \<Longrightarrow> may_hold (fl_disk (fl_op op s)) q \<subseteq> may_hold (fl_disk s) q \<union> op_puts (fails_unseen (fl_disk s)) (fl_json s) op q" for q
    using keepsD(3) [OF that(1)] keeps_record [OF that(1) p] that(2) by (cases "p = q") auto
  show ?thesis
  proof (cases op)
    case Op_Load_Network
    then show ?thesis by (intro same) (simp add: fl_ops load_network_same)
  next
    case (Op_Save_Network n)
    obtain r d' where c: "write_json (fl_root s) (sj_network (fl_json s)) network_path n (fl_disk s) = (r, d')" by fastforce
    from write_json_keeps [OF ok network_path_name(3,4) c] Op_Save_Network show ?thesis
      by (intro one [of network_path]) (simp_all add: fl_ops c op_puts_def)
  next
    case Op_Load_Devices
    obtain r d' where c: "load_dir (fl_root s) (sj_device (fl_json s)) (fl_clock s) ''devices'' (fl_disk s) = (r, d')" by fastforce
    from load_dir_keeps [OF c ok json] Op_Load_Devices show ?thesis
      by (auto simp: fl_ops c op_puts_def split: if_splits)
  next
    case (Op_Upsert_Device v)
    obtain r d' where c: "write_json (fl_root s) (sj_device (fl_json s)) (device_path (pdv_ieee v)) v (fl_disk s) = (r, d')" by fastforce
    from write_json_keeps [OF ok device_path_name(3,4) c] Op_Upsert_Device show ?thesis
      by (intro one [of "device_path (pdv_ieee v)"]) (simp_all add: fl_ops c op_puts_def)
  next
    case (Op_Delete_Device i)
    obtain r d' where c: "remove_if_present (fl_root s) (device_path i) (fl_disk s) = (r, d')" by fastforce
    from remove_keeps [OF ok c] Op_Delete_Device show ?thesis
      by (intro one [of "device_path i"]) (simp_all add: fl_ops c op_puts_def)
  next
    case Op_Load_Groups
    obtain r d' where c: "load_dir (fl_root s) (sj_group (fl_json s)) (fl_clock s) ''groups'' (fl_disk s) = (r, d')" by fastforce
    from load_dir_keeps [OF c ok json] Op_Load_Groups show ?thesis
      by (auto simp: fl_ops c op_puts_def split: if_splits)
  next
    case (Op_Upsert_Group g)
    obtain r d' where c: "write_json (fl_root s) (sj_group (fl_json s)) (group_path (pgr_id g)) g (fl_disk s) = (r, d')" by fastforce
    from write_json_keeps [OF ok group_path_name(3,4) c] Op_Upsert_Group show ?thesis
      by (intro one [of "group_path (pgr_id g)"]) (simp_all add: fl_ops c op_puts_def)
  next
    case (Op_Delete_Group g)
    obtain r d' where c: "remove_if_present (fl_root s) (group_path g) (fl_disk s) = (r, d')" by fastforce
    from remove_keeps [OF ok c] Op_Delete_Group show ?thesis
      by (intro one [of "group_path g"]) (simp_all add: fl_ops c op_puts_def)
  next
    case (Op_Save_Backup a c bytes)
    then show ?thesis
      using save_backup_keeps [OF ok p, of "fl_root s" "fl_clock s" a c bytes] by (auto simp: fl_ops)
  next
    case Op_List_Backups
    then show ?thesis by (intro same) (simp add: fl_ops list_backups_same)
  next
    case (Op_Load_Backup i)
    then show ?thesis by (intro same) (simp add: fl_ops load_backup_same)
  next
    case Op_Flush
    then show ?thesis by (intro same) (simp add: fl_ops)
  qed
qed

lemma fl_op_later: "later (fl_disk s) (fl_disk (fl_op op s))"
  by (cases op)
    (simp_all add: fl_ops later_load_network later_write_json later_load_dir later_remove later_save_backup
      later_list_backups later_load_backup)

lemma fl_run_keeps:
  assumes "dk_ok (fl_disk s)" "stored_path p"
  shows "dk_ok (fl_disk (fl_run ops s)) \<and> fl_json (fl_run ops s) = fl_json s
    \<and> may_hold (fl_disk (fl_run ops s)) p
        \<subseteq> may_hold (fl_disk s) p \<union> (\<Union>op \<in> set ops. op_puts (fails_unseen (fl_disk s)) (fl_json s) op p)"
  using assms(1)
proof (induction ops arbitrary: s)
  case Nil
  then show ?case by (simp add: fl_run_def)
next
  case (Cons op ops)
  note k = fl_op_keeps [OF Cons.prems assms(2), of op]
  have "fl_run (op # ops) s = fl_run ops (fl_op op s)" by (simp add: fl_run_def)
  moreover have "op_puts (fails_unseen (fl_disk (fl_op op s))) (fl_json s) x p
      \<subseteq> op_puts (fails_unseen (fl_disk s)) (fl_json s) x p" for x
    using op_puts_mono later_unseen [OF fl_op_later] by blast
  moreover note IH = Cons.IH [OF k [THEN conjunct1]]
  ultimately have "may_hold (fl_disk (fl_run (op # ops) s)) p
      \<subseteq> may_hold (fl_disk s) p \<union> (\<Union>x \<in> set (op # ops). op_puts (fails_unseen (fl_disk s)) (fl_json s) x p)"
    using k by (simp only: fl_op_world) (fastforce dest!: subsetD)
  with IH \<open>fl_run (op # ops) s = _\<close> show ?case by simp
qed

section \<open>Reading the records back\<close>

definition quiet :: "disk \<Rightarrow> bool" where
  "quiet d \<longleftrightarrow> dk_up d \<and> dk_outcomes d = []"

lemma quiet_call [simp]: "quiet d \<Longrightarrow> dk_begin d = (None, d)" "quiet d \<Longrightarrow> dk_call f d = f d"
  by (simp_all add: quiet_def dk_begin_def dk_call_def)

lemma quiet_pieces: "quiet d \<Longrightarrow> pieces (fails_unseen d) bytes = {bytes}"
  by (simp add: quiet_def fails_unseen_def pieces_def)

text \<open>The record in a file, if it can be read.\<close>

definition record_of :: "'a json_form \<Rightarrow> disk \<Rightarrow> path \<Rightarrow> 'a option" where
  "record_of j d p =
     (case dk_file d p of
        None \<Rightarrow> None
      | Some b \<Rightarrow> (case js_read j b of Inl _ \<Rightarrow> None | Inr v \<Rightarrow> Some v))"

lemma record_of_Some: "record_of j d p = Some v \<longleftrightarrow> (\<exists>b. dk_file d p = Some b \<and> js_read j b = Inr v)"
  by (auto simp: record_of_def split: option.splits sum.splits)

lemma read_json_quiet:
  assumes "quiet d"
  shows "\<exists>e. read_json root j p d = (case record_of j d p of Some v \<Rightarrow> Inr v | None \<Rightarrow> Inl e, d)"
  using assms
  by (auto simp: read_json_def io_then_def dk_read_def ok_or_def map_err_def record_of_def
      split: option.split sum.split)

text \<open>What cannot be read is moved aside, and everything else stays what it is.\<close>

lemma quarantine_quiet:
  assumes q: "quiet d" and ok: "dk_ok d" and p: "path_extension p = Some ''json''"
  shows "quiet (quarantine clock p d)" "dk_ok (quarantine clock p d)"
    "path_extension r = Some ''json'' \<Longrightarrow> r \<noteq> p \<Longrightarrow> dk_file (quarantine clock p d) r = dk_file d r"
proof -
  have nt: "\<not> is_temporary p" using p by (simp add: is_temporary_def)
  note k = quarantine_keeps [OF ok json_has_name [OF p] nt, of clock]
  show "dk_ok (quarantine clock p d)" using k keepsD(3) by blast
  show "quiet (quarantine clock p d)"
    using q by (auto simp: quarantine_def draw_stamp_def dk_rename_def dk_call_def dk_begin_def quiet_def
        dk_rename_to_def split: option.split)
  assume r: "path_extension r = Some ''json''" "r \<noteq> p"
  let ?e = "''corrupt-'' @ timestamp (clock (dk_counter d)) (dk_counter d)"
  have "path_extension (with_extension p ?e) = Some ?e" by (rule corrupt_name(2) [OF json_has_name [OF p]])
  then have "r \<noteq> with_extension p ?e" using r(1) by auto
  then show "dk_file (quarantine clock p d) r = dk_file d r"
    using k r by (intro keepsD(2) [OF k [THEN conjunct1]]) (auto simp: is_temporary_def)
qed

lemma map_filter_same: "(\<And>x. x \<in> set xs \<Longrightarrow> f x = g x) \<Longrightarrow> List.map_filter f xs = List.map_filter g xs"
  by (induction xs) (simp_all add: map_filter_simps split: option.split)

lemma load_entries_quiet:
  assumes "quiet d" "dk_ok d" "distinct ps"
  shows "\<exists>d'. load_entries root j clock dir ps out d
      = (Inr (out @ List.map_filter (record_of j d) (filter (\<lambda>p. path_extension p = Some ''json'') ps)), d')
    \<and> ((\<forall>p \<in> set ps. path_extension p = Some ''json'' \<longrightarrow> record_of j d p \<noteq> None) \<longrightarrow> d' = d)"
  using assms
proof (induction ps arbitrary: out d)
  case Nil
  then show ?case by (simp add: io_then_def dk_next_entry_def map_filter_simps)
next
  case (Cons p ps)
  let ?js = "filter (\<lambda>p. path_extension p = Some ''json'') ps"
  note q = Cons.prems(1) and dist = Cons.prems(3)
  show ?case
  proof (cases "path_extension p = Some ''json''")
    case False
    then show ?thesis using q Cons.IH [OF Cons.prems(1,2), of out] dist
      by (simp add: io_then_def dk_next_entry_def)
  next
    case json: True
    obtain e where rd: "read_json root j p d = (case record_of j d p of Some v \<Rightarrow> Inr v | None \<Rightarrow> Inl e, d)"
      using read_json_quiet [OF q] by blast
    show ?thesis
    proof (cases "record_of j d p")
      case (Some v)
      then show ?thesis using q Cons.IH [OF Cons.prems(1,2), of "out @ [v]"] dist json rd
        by (auto simp: io_then_def dk_next_entry_def map_filter_simps)
    next
      case None
      let ?d = "quarantine clock p d"
      note z = quarantine_quiet [OF q Cons.prems(2) json, where clock = clock]
      have "record_of j ?d r = record_of j d r" if "r \<in> set ?js" for r
      proof -
        have "r \<noteq> p" using that dist by auto
        then show ?thesis using z(3) [of r] that by (simp add: record_of_def)
      qed
      then have "List.map_filter (record_of j ?d) ?js = List.map_filter (record_of j d) ?js"
        by (rule map_filter_same)
      then show ?thesis using q Cons.IH [OF z(1,2), of out] dist json rd None
        by (auto simp: io_then_def dk_next_entry_def map_filter_simps)
    qed
  qed
qed

lemma record_path_device [simp]: "record_path (device_path i)"
  by (simp add: record_path_def device_path_name)

text \<open>
  Loading gives every record that can be read, once each, when each is where it belongs; and leaves
  the disk alone when all can be read.
\<close>

lemma load_devices_quiet:
  assumes q: "quiet d" "dk_ok d" "''devices'' \<in> set (dk_dirs d)"
    and rd: "\<And>p v. record_path p \<Longrightarrow> record_of j d p = Some v \<Longrightarrow> p = device_path (pdv_ieee v)"
  shows "\<exists>ds d'. load_dir root j clock ''devices'' d = (Inr ds, d') \<and> distinct (map pdv_ieee ds)
    \<and> (\<forall>v. v \<in> set ds \<longleftrightarrow> record_of j d (device_path (pdv_ieee v)) = Some v)
    \<and> ((\<forall>p. record_path p \<longrightarrow> dk_file d p \<noteq> None \<longrightarrow> record_of j d p \<noteq> None) \<longrightarrow> d' = d)"
proof -
  let ?l = "filter (\<lambda>p. path_parent p = ''devices'') (map fst (dk_names d))"
  let ?ps = "filter record_path (map fst (dk_names d))"
  let ?ds = "List.map_filter (record_of j d) ?ps"
  have names: "p \<in> set (map fst (dk_names d)) \<longleftrightarrow> dk_file d p \<noteq> None" for p
    by (simp add: dk_file_def map_of_eq_None_iff)
  have ps: "filter (\<lambda>p. path_extension p = Some ''json'') ?l = ?ps"
    by (simp add: record_path_def [abs_def] conj_commute)
  have dist: "distinct (map fst (dk_names d))" using dk_okD(1) [OF q(2)] by (simp add: hm_wf_def)
  obtain d' where d': "load_entries root j clock ''devices'' ?l [] d = (Inr ?ds, d')"
    "(\<forall>p \<in> set ?l. path_extension p = Some ''json'' \<longrightarrow> record_of j d p \<noteq> None) \<longrightarrow> d' = d"
    using load_entries_quiet [OF q(1,2), of ?l root j clock "''devices''" "[]"] dist unfolding ps by auto
  have load: "load_dir root j clock ''devices'' d = (Inr ?ds, d')"
    using q d'(1) by (simp add: load_dir_def dk_list_def)
  have mem: "v \<in> set ?ds \<longleftrightarrow> record_of j d (device_path (pdv_ieee v)) = Some v" for v
  proof
    assume "v \<in> set ?ds"
    then obtain p where "record_path p" "record_of j d p = Some v" by (auto simp: List.map_filter_def)
    then show "record_of j d (device_path (pdv_ieee v)) = Some v" using rd by metis
  next
    assume v: "record_of j d (device_path (pdv_ieee v)) = Some v"
    then have "device_path (pdv_ieee v) \<in> set ?ps" using names by (auto simp: record_of_Some)
    then show "v \<in> set ?ds" using v by (force simp: List.map_filter_def)
  qed
  have "map device_path (map pdv_ieee (List.map_filter (record_of j d) (filter record_path ps)))
      = filter (\<lambda>p. record_of j d p \<noteq> None) (filter record_path ps)" for ps
    using rd by (induction ps) (auto simp: map_filter_simps split: option.split)
  then have "map device_path (map pdv_ieee ?ds) = filter (\<lambda>p. record_of j d p \<noteq> None) ?ps" .
  then have "distinct (map device_path (map pdv_ieee ?ds))" using dist by simp
  then have "distinct (map pdv_ieee ?ds)" by (metis distinct_map)
  then show ?thesis using load mem d'(2) names by (auto simp: record_path_def)
qed

text \<open>Every record on the disk can be read and is where it belongs.\<close>

definition records_read :: "persisted_device json_form \<Rightarrow> disk \<Rightarrow> bool" where
  "records_read j d \<longleftrightarrow> (\<forall>p b. record_path p \<longrightarrow> dk_file d p = Some b \<longrightarrow>
     (\<exists>v. js_read j b = Inr v \<and> p = device_path (pdv_ieee v)))"

lemma records_read_of:
  assumes "records_read j d" "record_path p"
  shows "record_of j d p = Some v \<Longrightarrow> p = device_path (pdv_ieee v)"
    "dk_file d p \<noteq> None \<Longrightarrow> record_of j d p \<noteq> None"
  using assms by (fastforce simp: records_read_def record_of_Some)+

section \<open>Records survive\<close>

text \<open>A cut-off text is no record: no proper beginning of what is written can be read.\<close>

definition js_whole :: "'a json_form \<Rightarrow> bool" where
  "js_whole j \<longleftrightarrow> (\<forall>v b n. js_write j v = Inr b \<longrightarrow> js_read j b = Inr v
     \<and> (n < length b \<longrightarrow> (\<exists>e. js_read j (take n b) = Inl e)))"

lemma written_read:
  assumes "js_whole j" "Some x \<in> written u j v"
  shows "js_read j x = Inr v \<or> u \<and> (\<exists>e. js_read j x = Inl e)"
proof -
  obtain b where b: "js_write j v = Inr b" "x \<in> pieces u b" using assms(2) by (auto elim: writtenE)
  from b(2) show ?thesis by (cases rule: pieceE) (use assms(1) b(1) in \<open>auto simp: js_whole_def\<close>)
qed


text \<open>A JSON library that writes two records, and a disk that holds one of them.\<close>

definition two_records :: "'a \<Rightarrow> 'a \<Rightarrow> 'a json_form" where
  "two_records a b =
     \<lparr>js_write = (\<lambda>v. if v = a then Inr [1] else if v = b then Inr [2] else Inl ''neither''),
      js_read = (\<lambda>x. if x = [1] then Inr a else if x = [2] then Inr b else Inl ''neither'')\<rparr>"

lemma two_records_whole: "js_whole (two_records a b)"
  by (auto simp: two_records_def js_whole_def split: if_splits)

definition one_file :: "path \<Rightarrow> io_outcome list \<Rightarrow> disk" where
  "one_file p os = dk_empty\<lparr>dk_outcomes := os, dk_dirs := [[], ''devices''],
     dk_names := [(p, 0)], dk_data := (\<lambda>_. [1]), dk_synced := (\<lambda>_. True), dk_next := 1\<rparr>"

lemma one_file_simps [simp]:
  "dk_names (one_file p os) = [(p, 0)]" "dk_past (one_file p os) = []"
  "dk_dirs (one_file p os) = [[], ''devices'']" "dk_states (one_file p os) = [[(p, 0)]]"
  "dk_file (one_file p os) q = (if q = p then Some [1] else None)"
  "may_hold (one_file p os) q = {dk_file (one_file p os) q}"
  by (simp_all add: one_file_def dk_empty_def dk_states_def dk_file_def may_hold_def)

lemma one_file_ok: "dk_ok (one_file p os)"
  by (auto simp: dk_ok_def hm_wf_def split: if_splits) (auto simp: one_file_def)

definition stored_network :: persisted_network where
  "stored_network = \<lparr>pnw_pan_id = 1, pnw_extended_pan_id = 2, pnw_channel = 11, pnw_nwk_update_id = 0,
     pnw_coordinator_ieee = Ieee 7, pnw_key_sequence = 0, pnw_frame_counter = 5, pnw_network_key = None\<rparr>"

definition example_store :: "persisted_device \<Rightarrow> persisted_device \<Rightarrow> disk \<Rightarrow> file_store" where
  "example_store a b d = \<lparr>fl_root = ''/data'',
     fl_json = \<lparr>sj_network = two_records stored_network stored_network, sj_device = two_records a b,
       sj_group = \<lparr>js_write = (\<lambda>_. Inl ''no''), js_read = (\<lambda>_. Inl ''no'')\<rparr>\<rparr>,
     fl_clock = (\<lambda>_. 0), fl_disk = d\<rparr>"

lemma survives_now:
  assumes "hm_wf (dk_names d)"
  shows "survives d (d\<lparr>dk_up := True, dk_outcomes := [], dk_past := [], dk_synced := (\<lambda>_. True)\<rparr>)"
  using assms by (auto simp: survives_def dk_states_def intro!: exI [of _ "\<lambda>_. dk_names d"])


section \<open>The file store keeps the contract of a store\<close>

lemma quiet_calls:
  assumes "quiet d"
  shows "dk_open_dir dir d = (if dir \<in> set (dk_dirs d) then Inr () else Inl not_found_error, d)"
    "quiet (snd (dk_sync_dir dir d))"
  using assms by (auto simp: dk_open_dir_def dk_sync_dir_def) (simp add: quiet_def)

lemma write_atomic_quiet:
  assumes q: "quiet d" and dir: "path_parent p \<in> set (dk_dirs d)" and p: "has_name p"
  shows "\<exists>d'. write_atomic root p bytes d = (Inr (), d') \<and> quiet d'"
proof -
  let ?tmp = "with_extension p ''tmp''"
  note tmp = tmp_name(2) [OF p]
  obtain f d1 where c1: "dk_create ?tmp d = (Inr f, d1)" and q1: "quiet d1" "dk_dirs d1 = dk_dirs d"
    "hm_get (dk_names d1) ?tmp = Some f"
    using q dir by (cases "hm_get (dk_names d) ?tmp")
      (auto simp: dk_create_def tmp quiet_def dk_rename_to_def Let_def hm_get_insert dk_call_def dk_begin_def)
  obtain d2 where c2: "dk_write f bytes d1 = (Inr (), d2)" and q2: "quiet d2" "dk_dirs d2 = dk_dirs d"
    "hm_get (dk_names d2) ?tmp = Some f"
    using q1 by (auto simp: dk_write_def) (simp add: quiet_def)
  obtain d3 where c3: "dk_sync f d2 = (Inr (), d3)" and q3: "quiet d3" "dk_dirs d3 = dk_dirs d"
    "hm_get (dk_names d3) ?tmp = Some f"
    using q2 by (auto simp: dk_sync_def) (simp add: quiet_def)
  obtain d4 where c4: "dk_rename ?tmp p d3 = (Inr (), d4)" and q4: "quiet d4" "dk_dirs d4 = dk_dirs d"
    using q3 dir by (auto simp: dk_rename_def dk_rename_to_def) (simp add: quiet_def)
  have "quiet (sync_parent p d4)"
    using q4 dir by (auto simp: sync_parent_def quiet_calls(1) quiet_calls(2) split: prod.split)
  then show ?thesis by (simp add: write_atomic_def Let_def io_then_def c1 c2 c3 c4)
qed

lemma remove_quiet:
  assumes "quiet d"
  shows "\<exists>d'. remove_if_present root p d = (Inr (), d') \<and> quiet d'
    \<and> (\<forall>q. dk_file d' q = (if q = p then None else dk_file d q))"
proof (cases "hm_get (dk_names d) p")
  case None
  then show ?thesis using assms
    by (auto simp: remove_if_present_def dk_remove_def not_found_error_def dk_file_def)
next
  case (Some i)
  then show ?thesis using assms
    by (auto simp: remove_if_present_def dk_remove_def dk_rename_to_def dk_file_def hm_get_remove quiet_def
        dk_call_def dk_begin_def)
qed

definition fl_ok :: "file_store \<Rightarrow> bool" where
  "fl_ok s \<longleftrightarrow> quiet (fl_disk s) \<and> dk_ok (fl_disk s) \<and> ''devices'' \<in> set (dk_dirs (fl_disk s))
     \<and> records_read (sj_device (fl_json s)) (fl_disk s)"

text \<open>The JSON library writes this record, and reads what it wrote.\<close>

definition fl_storable :: "persisted_device \<Rightarrow> file_store \<Rightarrow> bool" where
  "fl_storable v s \<longleftrightarrow>
     (\<exists>b. js_write (sj_device (fl_json s)) v = Inr b \<and> js_read (sj_device (fl_json s)) b = Inr v)"

definition fl_result :: "(store_error + unit) \<times> file_store \<Rightarrow> store_error + file_store" where
  "fl_result x = (case x of (Inl e, _) \<Rightarrow> Inl e | (Inr _, s) \<Rightarrow> Inr s)"

lemma fl_result_Inr [simp]: "fl_result x = Inr s \<longleftrightarrow> x = (Inr (), s)"
  by (auto simp: fl_result_def split: prod.split sum.split)

lemma fl_load_ok:
  assumes "fl_ok s"
  shows "\<exists>ds. fl_load_devices s = (Inr ds, s) \<and> distinct (map pdv_ieee ds) \<and> (\<forall>v. v \<in> set ds \<longleftrightarrow>
    (\<exists>b. dk_file (fl_disk s) (device_path (pdv_ieee v)) = Some b \<and> js_read (sj_device (fl_json s)) b = Inr v))"
proof -
  have ok: "quiet (fl_disk s)" "dk_ok (fl_disk s)" "''devices'' \<in> set (dk_dirs (fl_disk s))"
    "records_read (sj_device (fl_json s)) (fl_disk s)" using assms by (simp_all add: fl_ok_def)
  note rd = records_read_of [OF ok(4)]
  obtain ds d' where "load_dir (fl_root s) (sj_device (fl_json s)) (fl_clock s) ''devices'' (fl_disk s) = (Inr ds, d')"
    "distinct (map pdv_ieee ds)"
    "\<And>v. v \<in> set ds \<longleftrightarrow> record_of (sj_device (fl_json s)) (fl_disk s) (device_path (pdv_ieee v)) = Some v"
    "d' = fl_disk s"
    using load_devices_quiet [OF ok(1-3) rd(1), where root = "fl_root s" and clock = "fl_clock s"] rd(2) by blast
  then show ?thesis by (simp add: fl_load_devices_def fl_lift_def record_of_Some)
qed

lemma fl_upsert_ok:
  assumes ok: "fl_ok s" and b: "js_write (sj_device (fl_json s)) v = Inr b" "js_read (sj_device (fl_json s)) b = Inr v"
  shows "\<exists>s'. fl_upsert_device v s = (Inr (), s') \<and> fl_ok s' \<and> fl_json s' = fl_json s
    \<and> (\<forall>i. dk_file (fl_disk s') (device_path i)
        = (if i = pdv_ieee v then Some b else dk_file (fl_disk s) (device_path i)))"
proof -
  let ?p = "device_path (pdv_ieee v)" and ?d = "fl_disk s"
  have d: "quiet ?d" "dk_ok ?d" "''devices'' \<in> set (dk_dirs ?d)" "records_read (sj_device (fl_json s)) ?d"
    using ok by (simp_all add: fl_ok_def)
  obtain d' where w: "write_atomic (fl_root s) ?p b ?d = (Inr (), d')" "quiet d'"
    using write_atomic_quiet [OF d(1) _ device_path_name(3)] d(3) device_path_name(1) by metis
  note k = write_atomic_keeps [OF d(2) device_path_name(3,4) w(1)]
  have at: "dk_file d' ?p = Some b"
    using k by (simp add: quiet_pieces [OF d(1)])
  have other: "dk_file d' q = dk_file ?d q" if "record_path q" "q \<noteq> ?p" for q
    using k that by (auto simp: keeps_def record_path_def is_temporary_def)
  have "records_read (sj_device (fl_json s)) d'"
    unfolding records_read_def
  proof (intro allI impI)
    fix q x assume q: "record_path q" "dk_file d' q = Some x"
    show "\<exists>v. js_read (sj_device (fl_json s)) x = Inr v \<and> q = device_path (pdv_ieee v)"
    proof (cases "q = ?p")
      case True
      then show ?thesis using q(2) at b(2) by auto
    next
      case False
      then show ?thesis using q other [OF q(1) False] d(4) by (simp add: records_read_def)
    qed
  qed
  moreover have "dk_dirs d' = dk_dirs ?d"
    using write_atomic_dirs [of "fl_root s" ?p b ?d] by (simp add: w(1))
  moreover have "dk_ok d'" using k keepsD(3) by blast
  ultimately have "fl_ok (s\<lparr>fl_disk := d'\<rparr>)" using d(3) w(2) by (simp add: fl_ok_def)
  moreover have "fl_upsert_device v s = (Inr (), s\<lparr>fl_disk := d'\<rparr>)"
    by (simp add: fl_upsert_device_def fl_lift_def write_json_def b(1) w(1))
  ultimately show ?thesis using at other by (auto simp: device_path_inj)
qed

lemma fl_delete_ok:
  assumes ok: "fl_ok s"
  shows "\<exists>s'. fl_delete_device i s = (Inr (), s') \<and> fl_ok s' \<and> fl_json s' = fl_json s
    \<and> (\<forall>j. dk_file (fl_disk s') (device_path j)
        = (if j = i then None else dk_file (fl_disk s) (device_path j)))"
proof -
  let ?d = "fl_disk s"
  have d: "quiet ?d" "dk_ok ?d" "''devices'' \<in> set (dk_dirs ?d)" "records_read (sj_device (fl_json s)) ?d"
    using ok by (simp_all add: fl_ok_def)
  obtain d' where w: "remove_if_present (fl_root s) (device_path i) ?d = (Inr (), d')" "quiet d'"
    "\<And>q. dk_file d' q = (if q = device_path i then None else dk_file ?d q)"
    using remove_quiet [OF d(1)] by metis
  have "dk_ok d'" using remove_keeps [OF d(2) w(1)] keepsD(3) by blast
  moreover have "dk_dirs d' = dk_dirs ?d"
    using store_dirs(2) [of "fl_root s" "device_path i" ?d] by (simp add: w(1))
  moreover have "records_read (sj_device (fl_json s)) d'" using d(4) by (simp add: records_read_def w(3))
  ultimately have "fl_ok (s\<lparr>fl_disk := d'\<rparr>)" using d(3) w(2) by (simp add: fl_ok_def)
  moreover have "fl_delete_device i s = (Inr (), s\<lparr>fl_disk := d'\<rparr>)"
    by (simp add: fl_delete_device_def fl_lift_def w(1))
  ultimately show ?thesis by (auto simp: w(3) device_path_inj)
qed

interpretation fl: zigbee_store "\<lambda>v s. fl_result (fl_upsert_device v s)"
  "\<lambda>i s. fl_result (fl_delete_device i s)" "\<lambda>s. fst (fl_load_devices s)" fl_ok fl_storable
proof
  fix s assume "fl_ok s"
  then show "\<exists>ds. fst (fl_load_devices s) = Inr ds \<and> distinct (map pdv_ieee ds)"
    using fl_load_ok by fastforce
next
  fix s v ds assume ok: "fl_ok s" and v: "fl_storable v s" and ds: "fst (fl_load_devices s) = Inr ds"
  obtain b where b: "js_write (sj_device (fl_json s)) v = Inr b" "js_read (sj_device (fl_json s)) b = Inr v"
    using v by (auto simp: fl_storable_def)
  obtain s' where s': "fl_upsert_device v s = (Inr (), s')" "fl_ok s'" "fl_json s' = fl_json s"
    "\<And>i. dk_file (fl_disk s') (device_path i) = (if i = pdv_ieee v then Some b else dk_file (fl_disk s) (device_path i))"
    using fl_upsert_ok [OF ok b] by blast
  obtain ds' where ds': "fl_load_devices s' = (Inr ds', s')"
    "\<And>w. w \<in> set ds' \<longleftrightarrow> (\<exists>x. dk_file (fl_disk s') (device_path (pdv_ieee w)) = Some x \<and> js_read (sj_device (fl_json s)) x = Inr w)"
    using fl_load_ok [OF s'(2)] s'(3) by auto
  have "w \<in> set ds \<longleftrightarrow> (\<exists>x. dk_file (fl_disk s) (device_path (pdv_ieee w)) = Some x \<and> js_read (sj_device (fl_json s)) x = Inr w)" for w
    using fl_load_ok [OF ok] ds by auto
  then have "set ds' = insert v {x \<in> set ds. pdv_ieee x \<noteq> pdv_ieee v}"
    using b(2) by (auto simp: ds'(2) s'(4) split: if_splits)
  then show "\<exists>s' ds'. fl_result (fl_upsert_device v s) = Inr s' \<and> fl_ok s' \<and> fst (fl_load_devices s') = Inr ds'
      \<and> set ds' = insert v {x \<in> set ds. pdv_ieee x \<noteq> pdv_ieee v}"
    using s'(1,2) ds'(1) by auto
next
  fix s i ds assume ok: "fl_ok s" and ds: "fst (fl_load_devices s) = Inr ds"
  obtain s' where s': "fl_delete_device i s = (Inr (), s')" "fl_ok s'" "fl_json s' = fl_json s"
    "\<And>j. dk_file (fl_disk s') (device_path j) = (if j = i then None else dk_file (fl_disk s) (device_path j))"
    using fl_delete_ok [OF ok] by blast
  obtain ds' where ds': "fl_load_devices s' = (Inr ds', s')"
    "\<And>w. w \<in> set ds' \<longleftrightarrow> (\<exists>x. dk_file (fl_disk s') (device_path (pdv_ieee w)) = Some x \<and> js_read (sj_device (fl_json s)) x = Inr w)"
    using fl_load_ok [OF s'(2)] s'(3) by auto
  have "w \<in> set ds \<longleftrightarrow> (\<exists>x. dk_file (fl_disk s) (device_path (pdv_ieee w)) = Some x \<and> js_read (sj_device (fl_json s)) x = Inr w)" for w
    using fl_load_ok [OF ok] ds by auto
  then have "set ds' = {x \<in> set ds. pdv_ieee x \<noteq> i}"
    by (auto simp: ds'(2) s'(4) split: if_splits)
  then show "\<exists>s' ds'. fl_result (fl_delete_device i s) = Inr s' \<and> fl_ok s' \<and> fst (fl_load_devices s') = Inr ds'
      \<and> set ds' = {x \<in> set ds. pdv_ieee x \<noteq> i}"
    using s'(1,2) ds'(1) by auto
qed

text \<open>
  C13: as long as its files can be used, the file store implements the same table from permanent address
  to record as the in-memory store: storing a record the JSON library writes and reads changes the
  entry of that device alone, deleting clears the entry of that device alone, and both succeed and
  leave the store in order.
\<close>

theorem file_store_refines_table:
  assumes "fl_ok s"
  shows "(fl_storable v s \<longrightarrow> (\<exists>s'. fl_upsert_device v s = (Inr (), s') \<and> fl_ok s'
      \<and> fl.table s' = (fl.table s)(pdv_ieee v \<mapsto> v)))
    \<and> (\<exists>s'. fl_delete_device i s = (Inr (), s') \<and> fl_ok s' \<and> fl.table s' = (fl.table s)(i := None))"
  using fl.table_upsert [OF assms, of v] fl.table_delete [OF assms, of i] by simp

theorem file_store_refines_table_witness:
  "let a = pdv_new (Ieee 1) (Nwk 10); b = pdv_new (Ieee 2) (Nwk 20);
       s = example_store a b (one_file (device_path (Ieee 1)) [])
   in fl_storable b s \<and> (\<exists>s'. fl_upsert_device b s = (Inr (), s') \<and> fl.table s' = (fl.table s)(Ieee 2 \<mapsto> b))"
proof -
  define a b where "a = pdv_new (Ieee 1) (Nwk 10)" and "b = pdv_new (Ieee 2) (Nwk 20)"
  define s where "s = example_store a b (one_file (device_path (Ieee 1)) [])"
  have ieee: "pdv_ieee a = Ieee 1" "pdv_ieee b = Ieee 2" by (simp_all add: a_def b_def pdv_new_def)
  have s: "fl_disk s = one_file (device_path (Ieee 1)) []" "sj_device (fl_json s) = two_records a b"
    by (simp_all add: s_def example_store_def)
  have "quiet (fl_disk s)" by (simp add: quiet_def s one_file_def dk_empty_def)
  moreover have "records_read (two_records a b) (fl_disk s)"
    by (auto simp: records_read_def s two_records_def ieee)
  ultimately have ok: "fl_ok s" by (simp add: fl_ok_def s one_file_ok)
  have ab: "a \<noteq> b" using ieee by auto
  have "fl_storable b s" using ab by (simp add: fl_storable_def s two_records_def)
  then have "fl_storable b s \<and> (\<exists>s'. fl_upsert_device b s = (Inr (), s') \<and> fl.table s' = (fl.table s)(Ieee 2 \<mapsto> b))"
    using file_store_refines_table [OF ok, of b "Ieee 2"] ieee by auto
  then show ?thesis by (simp only: Let_def a_def b_def s_def)
qed

section \<open>The network\<close>

lemma load_network_quiet:
  assumes "quiet d"
  shows "load_network_step root j d =
    (case dk_file d network_path of
       None \<Rightarrow> Inr None
     | Some b \<Rightarrow>
         (case js_read j b of
            Inr n \<Rightarrow> Inr (Some n)
          | Inl e \<Rightarrow> Inl (SeCorrupt (path_display root network_path)
              (store_error_display (SeCorrupt (path_display root network_path) e)
               @ ''. Network identity cannot be regenerated: without it the network is lost. ''
               @ ''Restore a backup rather than deleting this file.''))), d)"
  using assms
  by (auto simp: load_network_step_def Let_def read_json_def io_then_def dk_read_def ok_or_def map_err_def
      dk_exists_def dk_file_def split: option.split sum.split)



section \<open>What the file store does not keep\<close>

text \<open>
  A write that fails unseen: the temporary file holds only the first bytes, synchronising it works,
  and it is renamed over the network that was there. The store reports success, and the network
  cannot be read any more.
\<close>

lemma short_write_destroys_network:
  assumes d: "dk_up d" "dk_outcomes d = [Works, Cut_Short k]" "[] \<in> set (dk_dirs d)"
    and s: "fl_disk s = d" "js_write (sj_network (fl_json s)) n = Inr b"
      "js_read (sj_network (fl_json s)) (take k b) = Inl e"
  shows "\<exists>s' l t. fl_save_network n s = (Inr (), s') \<and> fst (fl_load_network s') = Inl (SeCorrupt l t)"
proof -
  let ?tmp = "with_extension network_path ''tmp''"
  note tmp = tmp_name(2) [OF network_path_name(3)]
  have dir: "path_parent network_path \<in> set (dk_dirs d)" using d(3) by (simp add: network_path_name)
  obtain f d1 where c1: "dk_create ?tmp d = (Inr f, d1)" and q1: "dk_up d1" "dk_outcomes d1 = [Cut_Short k]"
    "dk_dirs d1 = dk_dirs d" "hm_get (dk_names d1) ?tmp = Some f" "dk_data d1 f = []"
    using d dir by (cases "hm_get (dk_names d) ?tmp")
      (auto simp: dk_create_def tmp dk_rename_to_def Let_def hm_get_insert dk_call_def dk_begin_def)
  obtain d2 where c2: "dk_write f b d1 = (Inr (), d2)" and q2: "quiet d2" "dk_dirs d2 = dk_dirs d"
    "hm_get (dk_names d2) ?tmp = Some f" "dk_data d2 f = take k b"
    using q1 by (auto simp: dk_write_def dk_begin_def dk_reaches_def quiet_def)
  obtain d3 where c3: "dk_sync f d2 = (Inr (), d3)" and q3: "quiet d3" "dk_dirs d3 = dk_dirs d"
    "hm_get (dk_names d3) ?tmp = Some f" "dk_data d3 f = take k b"
    using q2 by (auto simp: dk_sync_def) (simp add: quiet_def)
  obtain d4 where c4: "dk_rename ?tmp network_path d3 = (Inr (), d4)" and q4: "quiet d4" "dk_dirs d4 = dk_dirs d"
    "dk_file d4 network_path = Some (take k b)"
    using q3 dir by (auto simp: dk_rename_def dk_rename_to_def dk_file_def hm_get_insert) (simp add: quiet_def)
  have q5: "quiet (sync_parent network_path d4)" "dk_file (sync_parent network_path d4) network_path = Some (take k b)"
    using q4 dir
    by (simp_all add: sync_parent_def quiet_calls(1) dk_sync_dir_def dk_file_def split: prod.split)
      (simp add: quiet_def)
  have w: "write_atomic (fl_root s) network_path b d = (Inr (), sync_parent network_path d4)"
    by (simp add: write_atomic_def Let_def io_then_def c1 c2 c3 c4)
  have "fl_save_network n s = (Inr (), s\<lparr>fl_disk := sync_parent network_path d4\<rparr>)"
    by (simp add: fl_save_network_def fl_lift_def write_json_def s(1,2) w)
  moreover have "\<exists>l t. fst (fl_load_network (s\<lparr>fl_disk := sync_parent network_path d4\<rparr>)) = Inl (SeCorrupt l t)"
    using load_network_quiet [OF q5(1), of "fl_root s" "sj_network (fl_json s)"] q5(2) s(3)
    by (simp add: fl_load_network_def)
  ultimately show ?thesis by blast
qed

text \<open>
  The file that holds the network key is made with the permissions every file gets; only backups
  are restricted to their owner.
\<close>

lemma network_file_not_private:
  assumes d: "quiet d" "[] \<in> set (dk_dirs d)" "hm_get (dk_names d) (with_extension network_path ''tmp'') = None"
    and n: "js_write j n = Inr b" and call: "write_json root j network_path n d = (r, d')"
  shows "\<exists>i. hm_get (dk_names d') network_path = Some i \<and> \<not> dk_private d' i"
proof -
  let ?t = "with_extension network_path ''tmp''"
  have t: "path_parent ?t = []" "network_path \<noteq> ?t"
    using tmp_name [OF network_path_name(3)] network_path_name by auto
  have "dk_names (sync_parent p d0) = dk_names d0 \<and> dk_private (sync_parent p d0) = dk_private d0"
    if "quiet d0" for p d0
    using that by (auto simp: sync_parent_def dk_open_dir_def dk_sync_dir_def split: prod.split)
  then show ?thesis
    using call d n t network_path_name(1)
    by (auto simp: write_json_def write_atomic_def Let_def io_then_def dk_create_def dk_write_def dk_sync_def
        dk_rename_def dk_rename_to_def hm_get_insert hm_get_remove quiet_def dk_call_def dk_begin_def)
qed

text \<open>
  A deletion is not made durable: the power can fail after the store reported it done, and the device
  is back.
\<close>

lemma deleted_device_returns:
  "let a = pdv_new (Ieee 1) (Nwk 10); s = example_store a a (one_file (device_path (Ieee 1)) []) in
   \<exists>s' d. fl_delete_device (Ieee 1) s = (Inr (), s') \<and> survives (fl_disk s') d
     \<and> dk_file d (device_path (Ieee 1)) = Some [1]"
proof -
  let ?a = "pdv_new (Ieee 1) (Nwk 10)" and ?p = "device_path (Ieee 1)"
  let ?d = "one_file ?p []"
  define d' where "d' = ?d\<lparr>dk_names := [], dk_past := [[(?p, 0)]]\<rparr>"
  have q: "quiet ?d" by (simp add: quiet_def one_file_def dk_empty_def)
  have "remove_if_present ''/data'' ?p ?d = (Inr (), d')"
    using q by (simp add: remove_if_present_def dk_remove_def dk_rename_to_def d'_def hm_remove_def)
  then have del: "fl_delete_device (Ieee 1) (example_store ?a ?a ?d)
      = (Inr (), (example_store ?a ?a ?d)\<lparr>fl_disk := d'\<rparr>)"
    by (simp add: fl_delete_device_def fl_lift_def example_store_def)
  have "survives d' ?d"
    by (auto simp: survives_def d'_def dk_states_def hm_wf_def intro!: exI [of _ "\<lambda>_. [(?p, 0)]"])
      (auto simp: one_file_def dk_empty_def)
  with del show ?thesis
    by (auto simp: Let_def example_store_def intro!: exI [of _ ?d])
qed

text \<open>
  A record that cannot be read right now is moved aside like a corrupt one: after one failed read the
  device is no longer stored.
\<close>

lemma unread_device_moved_aside:
  "let a = pdv_new (Ieee 1) (Nwk 10);
       s = example_store a a (one_file (device_path (Ieee 1)) [Works, Works, Fails (IoError False ''busy'') 0]) in
   fst (fl_load_devices s) = Inr [] \<and> dk_file (fl_disk (snd (fl_load_devices s))) (device_path (Ieee 1)) = None"
proof -
  let ?p = "device_path (Ieee 1)"
  define q where "q = with_extension ?p (''corrupt-'' @ timestamp 0 0)"
  note name = corrupt_name [OF device_path_name(3), of "Ieee 1" 0 0, folded q_def]
  have q: "q \<noteq> ?p" "path_parent q = ''devices''"
    using name device_path_name [of "Ieee 1"] by auto
  show ?thesis
    using q device_path_name [of "Ieee 1"]
    by (simp add: Let_def example_store_def fl_load_devices_def load_dir_def dk_list_def dk_call_def dk_begin_def
        one_file_def dk_empty_def io_then_def dk_next_entry_def read_json_def dk_read_def quarantine_def
        draw_stamp_def dk_rename_def dk_rename_to_def dk_file_def hm_get_insert hm_get_remove)
      (auto simp: q_def)
qed

text \<open>
  When neither reading the network's file nor looking for it works, the store says that there is no
  network, whatever the file holds.
\<close>

lemma unreachable_network_is_none:
  "let a = pdv_new (Ieee 1) (Nwk 10);
       s = example_store a a (one_file network_path [Fails e m, Fails e' m']) in
   fst (fl_load_network s) = Inr None \<and> dk_file (fl_disk s) network_path = Some [1]"
  by (simp add: Let_def example_store_def fl_load_network_def load_network_step_def read_json_def io_then_def
      dk_read_def dk_call_def dk_begin_def dk_exists_def one_file_def dk_empty_def dk_file_def)

section \<open>Backups on disk are kept\<close>

lemma hyphen_split:
  assumes "CHR ''-'' \<notin> set a" "CHR ''-'' \<notin> set b"
  shows "a @ CHR ''-'' # x = b @ CHR ''-'' # y \<longleftrightarrow> a = b \<and> x = y"
proof
  assume eq: "a @ CHR ''-'' # x = b @ CHR ''-'' # y"
  have t: "takeWhile (\<lambda>c. c \<noteq> CHR ''-'') (s @ CHR ''-'' # z) = s" if "CHR ''-'' \<notin> set s" for s z
    using that by (subst takeWhile_append2) auto
  from eq have "takeWhile (\<lambda>c. c \<noteq> CHR ''-'') (a @ CHR ''-'' # x) = takeWhile (\<lambda>c. c \<noteq> CHR ''-'') (b @ CHR ''-'' # y)"
    by (simp only:)
  then have "a = b" by (simp only: t [OF assms(1)] t [OF assms(2)])
  with eq show "a = b \<and> x = y" by simp
qed simp

text \<open>Two backups of one process never share a name, whatever the clock does: their counters differ.\<close>

lemma backup_name_counter:
  assumes "backup_name (timestamp now n) a i = backup_name (timestamp now' n') a' i'"
  shows "n = n' \<and> epoch_millis now = epoch_millis now'"
proof -
  have inj: "x = y" if "show_dec_pad w (unat x) = show_dec_pad w (unat y)" for w and x y :: u64
  proof -
    have "unat z \<le> usize_max" for z :: u64
    proof -
      have "unat z < 2 ^ 64" using unsigned_less [of z] by simp
      then show ?thesis by simp
    qed
    from parse_show_dec_pad [OF this [of x], of w] parse_show_dec_pad [OF this [of y], of w]
    have "Some (unat x) = Some (unat y)" unfolding that by (simp only:)
    then show ?thesis by (simp add: word_unat_eq_iff)
  qed
  have "show_dec_pad 13 (unat (epoch_millis now)) = show_dec_pad 13 (unat (epoch_millis now'))
      \<and> show_dec_pad 4 (unat n) = show_dec_pad 4 (unat n')"
    using assms by (simp add: backup_name_def timestamp_def hyphen_split show_dec_pad_no_hyphen)
  then show ?thesis using inj by blast
qed

text \<open>A saved backup loads back, is its owner's alone, and leaves every other final name alone.\<close>

lemma backup_kept:
  assumes d: "quiet d" "dk_ok d" and p: "path_parent (backup_path (backup_name stamp a c)) \<in> set (dk_dirs d)"
    and st: "draw_stamp clock d = (stamp, d0)" and ident: "backup_id_ok (backup_name stamp a c)"
  shows "\<exists>d'. save_backup_step root clock a c bytes d = (Inr (backup_name stamp a c), d')
    \<and> load_backup_step (backup_name stamp a c) d' = (Inr bytes, d')
    \<and> (\<forall>q. q \<noteq> backup_path (backup_name stamp a c) \<longrightarrow> \<not> is_temporary q \<longrightarrow> dk_file d' q = dk_file d q)"
proof -
  let ?id = "backup_name stamp a c" and ?p = "backup_path (backup_name stamp a c)"
  have same: "same_files d d0" and q0: "quiet d0" and dirs: "dk_dirs d0 = dk_dirs d"
    using st d(1) by (auto simp: draw_stamp_def same_files_def quiet_def)
  note eq = same_filesD [OF same]
  have ok0: "dk_ok d0" using d(2) by (simp add: eq)
  obtain d1 where w: "write_atomic root ?p bytes d0 = (Inr (), d1)" "quiet d1"
    using write_atomic_quiet [OF q0 _ backup_path_name(2)] p dirs by metis
  note k = write_atomic_keeps [OF ok0 backup_path_name(2,3) w(1)]
  then obtain i where i: "hm_get (dk_names d1) ?p = Some i" by (auto simp: dk_file_def)
  let ?d = "d1\<lparr>dk_private := (dk_private d1)(i := True)\<rparr>"
  have q: "quiet ?d" "dk_file ?d = dk_file d1"
    using w(2) by (simp_all add: quiet_def dk_file_def [abs_def])
  have "save_backup_step root clock a c bytes d = (Inr ?id, ?d)"
    using w i by (simp add: save_backup_step_def st Let_def restrict_permissions_def dk_set_private_def)
  moreover have "load_backup_step ?id ?d = (Inr bytes, ?d)"
    using ident q k by (simp add: load_backup_step_def io_then_def dk_read_def ok_or_def quiet_pieces [OF q0])
  moreover have "\<forall>s. s \<noteq> ?p \<longrightarrow> \<not> is_temporary s \<longrightarrow> dk_file ?d s = dk_file d s"
    unfolding q(2) eq(3) [symmetric] using k [THEN conjunct1] keepsD(2) by blast
  ultimately show ?thesis by blast
qed

section \<open>Opening a store\<close>

lemma create_dirs_quiet:
  "quiet d \<Longrightarrow> create_dirs root subs d = (Inr (), d\<lparr>dk_dirs := fold List.insert subs (dk_dirs d)\<rparr>)"
  by (induction subs arbitrary: d) (simp_all add: io_then_def dk_create_dir_def quiet_def dk_call_def dk_begin_def)

text \<open>A store opened on nothing is in order and has no network and no device.\<close>

lemma open_fresh:
  "\<exists>s d. fl_open debug j clock root dk_empty = (Inr s, d) \<and> fl_ok s
    \<and> fst (fl_load_network s) = Inr None \<and> fst (fl_load_devices s) = Inr []"
proof -
  let ?d = "dk_empty\<lparr>dk_dirs := fold List.insert [[], ''devices'', ''groups'', ''backups''] []\<rparr>"
  have q: "quiet ?d" by (simp add: quiet_def dk_empty_def)
  have ok: "dk_ok ?d" by (simp add: dk_ok_def dk_states_def dk_empty_def hm_wf_def)
  have none: "dk_file ?d p = None" for p by (simp add: dk_file_def dk_empty_def)
  have schema: "has_name ''schema''" "\<not> is_temporary ''schema''" "path_parent ''schema'' = []"
    by code_simp+
  have dirs: "create_dirs root ['''', ''devices'', ''groups'', ''backups''] dk_empty = (Inr (), ?d)"
    by (subst create_dirs_quiet) (simp_all add: quiet_def dk_empty_def)
  obtain d where w: "write_atomic root ''schema'' (str_bytes (show_dec SCHEMA)) ?d = (Inr (), d)" "quiet d"
    using write_atomic_quiet [OF q _ schema(1)] schema(3) by fastforce
  note k = write_atomic_keeps [OF ok schema(1,2) w(1)]
  have "dk_dirs d = dk_dirs ?d"
    using write_atomic_dirs [of root "''schema''" "str_bytes (show_dec SCHEMA)" ?d] by (simp only: w(1) snd_conv)
  then have ddirs: "''devices'' \<in> set (dk_dirs d)" by simp
  have gone: "dk_file d p = None" if "path_extension p = Some ''json''" for p
  proof -
    have "p \<noteq> ''schema''" using that by (auto simp: path_extension_def) (code_simp)
    moreover have "\<not> is_temporary p" using that by (simp add: is_temporary_def)
    ultimately show ?thesis using k none by (simp add: keeps_def)
  qed
  define s where "s = \<lparr>fl_root = root, fl_json = j, fl_clock = clock, fl_disk = d\<rparr>"
  have "check_schema debug root ?d = (Inr (), d)"
    using q none w(1) by (simp add: check_schema_def read_to_string_def dk_read_def ok_or_def not_found_error_def)
  then have "fl_open debug j clock root dk_empty = (Inr s, d)"
    unfolding fl_open_def dirs s_def by (simp only: prod.case sum.case)
  moreover have "fl_ok s"
    using w(2) k ddirs gone by (simp add: fl_ok_def s_def keeps_def records_read_def record_path_def)
  moreover have "fst (fl_load_network s) = Inr None"
    using gone [OF network_path_name(2)] w(2)
    by (simp add: fl_load_network_def s_def load_network_quiet)
  moreover have "fst (fl_load_devices s) = Inr []"
    using fl_load_ok [OF \<open>fl_ok s\<close>] gone [OF device_path_name(2)] by (auto simp: s_def)
  ultimately show ?thesis by blast
qed

text \<open>A newer format is refused, and nothing on the disk changes but the directories.\<close>

lemma open_newer_refused:
  assumes "quiet d" "dk_file d ''schema'' = Some bytes" "from_utf8 bytes = Some text"
    "parse_dec (2 ^ 32 - 1) (str_trim text) = Some found" "SCHEMA < found"
  shows "\<exists>e d'. fl_open debug j clock root d = (Inl (SeCorrupt (path_display root ''schema'') e), d')
    \<and> same_files d d'"
proof -
  let ?d = "d\<lparr>dk_dirs := fold List.insert ['''', ''devices'', ''groups'', ''backups''] (dk_dirs d)\<rparr>"
  have "quiet ?d" "dk_file ?d = dk_file d" using assms(1) by (simp_all add: quiet_def dk_file_def [abs_def])
  then obtain e where "check_schema debug root ?d = (Inl (SeCorrupt (path_display root ''schema'') e), ?d)"
    using assms by (simp add: check_schema_def read_to_string_def dk_read_def ok_or_def)
  then have "fl_open debug j clock root d = (Inl (SeCorrupt (path_display root ''schema'') e), ?d)"
    unfolding fl_open_def create_dirs_quiet [OF assms(1)] by (simp only: prod.case sum.case)
  moreover have "same_files d ?d" by (simp add: same_files_def)
  ultimately show ?thesis by blast
qed

end
