(* ===== verification/Inventory.thy ===== *)
theory Inventory
  imports Std_Maps Reachability Store
begin

text \<open>
  The device table, \<open>rszigbee-core/src/runtime/inventory.rs\<close>: devices by permanent address, the
  index from short to permanent address, and the mapping to and from stored records.
\<close>

section \<open>Definitions\<close>

record inv_entry =
  en_info :: device_info
  en_reachability :: reachability_info
  en_next_check :: next_check
  en_passthrough :: "(string \<times> string) list"

record inventory =
  iv_devices :: "(ieee, inv_entry) btree"
  iv_by_nwk :: "(nwk, ieee) hashmap"

definition iv_new :: inventory where
  "iv_new = \<lparr>iv_devices = [], iv_by_nwk = []\<rparr>"

definition iv_get :: "ieee \<Rightarrow> inventory \<Rightarrow> inv_entry option" where
  "iv_get i v = bt_get (iv_devices v) i"

text \<open>\<open>get_mut\<close> with what the caller writes through the reference.\<close>

definition iv_modify :: "ieee \<Rightarrow> (inv_entry \<Rightarrow> inv_entry) \<Rightarrow> inventory \<Rightarrow> inventory" where
  "iv_modify i f v =
     (case bt_get (iv_devices v) i of
        None \<Rightarrow> v
      | Some e \<Rightarrow> v\<lparr>iv_devices := bt_insert i (f e) (iv_devices v)\<rparr>)"

definition iv_resolve :: "nwk \<Rightarrow> inventory \<Rightarrow> ieee option" where
  "iv_resolve n v = hm_get (iv_by_nwk v) n"

definition iv_all :: "inventory \<Rightarrow> inv_entry list" where
  "iv_all v = bt_values (iv_devices v)"

definition iv_snapshot :: "inventory \<Rightarrow> device_info list" where
  "iv_snapshot v = map en_info (bt_values (iv_devices v))"

abbreviation en_nwk :: "inv_entry \<Rightarrow> nwk" where
  "en_nwk e \<equiv> di_nwk (en_info e)"

definition iv_insert :: "inv_entry \<Rightarrow> inventory \<Rightarrow> inventory" where
  "iv_insert e v =
     (let i = di_ieee (en_info e);
          idx = (case bt_get (iv_devices v) i of
                   Some previous \<Rightarrow> hm_remove (en_nwk previous) (iv_by_nwk v)
                 | None \<Rightarrow> iv_by_nwk v)
      in \<lparr>iv_devices = bt_insert i e (iv_devices v), iv_by_nwk = hm_insert (en_nwk e) i idx\<rparr>)"

definition iv_set_nwk :: "ieee \<Rightarrow> nwk \<Rightarrow> inventory \<Rightarrow> nwk option \<times> inventory" where
  "iv_set_nwk i n v =
     (case bt_get (iv_devices v) i of
        None \<Rightarrow> (None, v)
      | Some e \<Rightarrow>
          (let previous = en_nwk e in
           if previous = n then (None, v)
           else (Some previous,
                 \<lparr>iv_devices = bt_insert i (e\<lparr>en_info := (en_info e)\<lparr>di_nwk := n\<rparr>\<rparr>) (iv_devices v),
                  iv_by_nwk = hm_insert n i (hm_remove previous (iv_by_nwk v))\<rparr>)))"

definition iv_remove :: "ieee \<Rightarrow> inventory \<Rightarrow> inv_entry option \<times> inventory" where
  "iv_remove i v =
     (case bt_get (iv_devices v) i of
        None \<Rightarrow> (None, v)
      | Some e \<Rightarrow> (Some e, \<lparr>iv_devices = bt_remove i (iv_devices v),
                          iv_by_nwk = hm_remove (en_nwk e) (iv_by_nwk v)\<rparr>))"

definition endpoint_from_persisted :: "persisted_endpoint \<Rightarrow> endpoint_info" where
  "endpoint_from_persisted e =
     \<lparr>ep_id = pep_id e, ep_profile = pep_profile e, ep_device_id = pep_device_id e,
      ep_input_clusters = pep_input_clusters e, ep_output_clusters = pep_output_clusters e\<rparr>"

definition entry_from_persisted :: "persisted_device \<Rightarrow> inv_entry" where
  "entry_from_persisted p =
     (let info = di_new (pdv_ieee p) (pdv_nwk p) (pdv_kind p);
          info = info\<lparr>di_power_source := pdv_power_source p, di_interview := pdv_interview p,
            di_basic := pdv_basic p,
            di_endpoints := map endpoint_from_persisted (pdv_endpoints p),
            di_checkin_interval := map_option (\<lambda>s. secs (unat s)) (pdv_checkin_interval_secs p),
            di_last_seen := map_option (\<lambda>ms. int (millis (unat ms))) (pdv_last_seen_epoch_ms p)\<rparr>
      in \<lparr>en_info = info, en_reachability = ri_default, en_next_check = NcAwaitTraffic,
          en_passthrough = pdv_passthrough p\<rparr>)"

definition endpoint_to_persisted :: "endpoint_info \<Rightarrow> persisted_endpoint" where
  "endpoint_to_persisted e =
     \<lparr>pep_id = ep_id e, pep_profile = ep_profile e, pep_device_id = ep_device_id e,
      pep_input_clusters = ep_input_clusters e, pep_output_clusters = ep_output_clusters e\<rparr>"

definition persisted_from_entry :: "inv_entry \<Rightarrow> persisted_device" where
  "persisted_from_entry e =
     (let d = en_info e in
      \<lparr>pdv_ieee = di_ieee d, pdv_nwk = di_nwk d, pdv_kind = di_kind d,
       pdv_power_source = di_power_source d, pdv_interview = di_interview d, pdv_basic = di_basic d,
       pdv_endpoints = map endpoint_to_persisted (di_endpoints d),
       pdv_checkin_interval_secs = map_option (\<lambda>t. let s = t div 1000000000 in
         if s < 2 ^ 32 then of_nat s else - 1) (di_checkin_interval d),
       pdv_last_seen_epoch_ms = Option.bind (di_last_seen d) (\<lambda>t.
         Option.bind (duration_since t 0) (\<lambda>since.
         if since div 1000000 < 2 ^ 64 then Some (of_nat (since div 1000000)) else None)),
       pdv_passthrough = en_passthrough e\<rparr>)"

definition new_entry :: "ieee \<Rightarrow> nwk \<Rightarrow> system_time \<Rightarrow> inv_entry" where
  "new_entry i n now =
     \<lparr>en_info = (di_new i n DkUnknown)\<lparr>di_last_seen := Some now\<rparr>,
      en_reachability = ri_record_traffic now ri_default,
      en_next_check = NcAwaitTraffic, en_passthrough = []\<rparr>"

section \<open>The index is sound\<close>

text \<open>
  A device is stored under its own address, and an index entry names a device that has that short
  address now.
\<close>

definition iv_sound :: "inventory \<Rightarrow> bool" where
  "iv_sound v \<longleftrightarrow> bt_wf (iv_devices v) \<and> hm_wf (iv_by_nwk v)
     \<and> (\<forall>i e. iv_get i v = Some e \<longrightarrow> di_ieee (en_info e) = i)
     \<and> (\<forall>n i. iv_resolve n v = Some i \<longrightarrow> (\<exists>e. iv_get i v = Some e \<and> en_nwk e = n))"

text \<open>The index is exact when moreover every device is found under its short address.\<close>

definition iv_exact :: "inventory \<Rightarrow> bool" where
  "iv_exact v \<longleftrightarrow> iv_sound v
     \<and> (\<forall>i e. iv_get i v = Some e \<longrightarrow> iv_resolve (en_nwk e) v = Some i)"

lemma iv_soundI:
  assumes "bt_wf (iv_devices v)" "hm_wf (iv_by_nwk v)"
    "\<And>i e. iv_get i v = Some e \<Longrightarrow> di_ieee (en_info e) = i"
    "\<And>n i. iv_resolve n v = Some i \<Longrightarrow> \<exists>e. iv_get i v = Some e \<and> en_nwk e = n"
  shows "iv_sound v"
  using assms by (simp add: iv_sound_def)

lemma iv_sound_resolve:
  assumes "iv_sound v" "iv_resolve n v = Some i"
  obtains e where "iv_get i v = Some e" "en_nwk e = n"
  using assms unfolding iv_sound_def by blast

lemma iv_sound_key: "iv_sound v \<Longrightarrow> iv_get i v = Some e \<Longrightarrow> di_ieee (en_info e) = i"
  by (simp add: iv_sound_def)

lemma iv_sound_wf: "iv_sound v \<Longrightarrow> bt_wf (iv_devices v) \<and> hm_wf (iv_by_nwk v)"
  by (simp add: iv_sound_def)

lemma iv_new_exact: "iv_exact iv_new"
  by (simp add: iv_exact_def iv_sound_def iv_new_def iv_get_def iv_resolve_def hm_wf_def bt_wf_def)

lemma iv_get_insert: "iv_get i (iv_insert e v) = (if i = di_ieee (en_info e) then Some e else iv_get i v)"
  by (simp add: iv_get_def iv_insert_def Let_def map_simps)

lemma iv_resolve_insert:
  "iv_resolve n (iv_insert e v) =
     (if n = en_nwk e then Some (di_ieee (en_info e))
      else if \<exists>p. iv_get (di_ieee (en_info e)) v = Some p \<and> en_nwk p = n then None
      else iv_resolve n v)"
  by (simp add: iv_resolve_def iv_insert_def iv_get_def Let_def map_simps split: option.split)

lemma iv_insert_sound:
  assumes "iv_sound v"
  shows "iv_sound (iv_insert e v)"
proof (rule iv_soundI)
  show "bt_wf (iv_devices (iv_insert e v))" "hm_wf (iv_by_nwk (iv_insert e v))"
    using iv_sound_wf [OF assms]
    by (simp_all add: iv_insert_def Let_def bt_wf_insert hm_wf_insert hm_wf_remove split: option.split)
next
  fix i e'
  assume "iv_get i (iv_insert e v) = Some e'"
  then show "di_ieee (en_info e') = i"
    using iv_sound_key [OF assms] by (auto simp: iv_get_insert split: if_splits)
next
  fix n i
  assume r: "iv_resolve n (iv_insert e v) = Some i"
  show "\<exists>e'. iv_get i (iv_insert e v) = Some e' \<and> en_nwk e' = n"
  proof (cases "n = en_nwk e")
    case True
    with r show ?thesis by (simp add: iv_resolve_insert iv_get_insert)
  next
    case False
    with r have old: "iv_resolve n v = Some i"
      and no: "\<not> (\<exists>p. iv_get (di_ieee (en_info e)) v = Some p \<and> en_nwk p = n)"
      by (simp_all add: iv_resolve_insert split: if_splits)
    from iv_sound_resolve [OF assms old] obtain e' where "iv_get i v = Some e'" "en_nwk e' = n" .
    with no show ?thesis by (auto simp: iv_get_insert)
  qed
qed

lemma iv_set_nwk_cases:
  obtains "iv_get i v = None" "iv_set_nwk i n v = (None, v)"
  | e where "iv_get i v = Some e" "en_nwk e = n" "iv_set_nwk i n v = (None, v)"
  | e v' where "iv_get i v = Some e" "en_nwk e \<noteq> n" "iv_set_nwk i n v = (Some (en_nwk e), v')"
      "iv_devices v' = bt_insert i (e\<lparr>en_info := (en_info e)\<lparr>di_nwk := n\<rparr>\<rparr>) (iv_devices v)"
      "iv_by_nwk v' = hm_insert n i (hm_remove (en_nwk e) (iv_by_nwk v))"
proof (cases "iv_get i v")
  case None
  then show ?thesis using that(1) by (simp add: iv_set_nwk_def iv_get_def)
next
  case (Some e)
  show ?thesis
  proof (cases "en_nwk e = n")
    case True
    with Some show ?thesis using that(2) by (simp add: iv_set_nwk_def iv_get_def Let_def)
  next
    case False
    show ?thesis
      by (rule that(3) [OF Some False,
            of "\<lparr>iv_devices = bt_insert i (e\<lparr>en_info := (en_info e)\<lparr>di_nwk := n\<rparr>\<rparr>) (iv_devices v),
                 iv_by_nwk = hm_insert n i (hm_remove (en_nwk e) (iv_by_nwk v))\<rparr>"])
        (use Some False in \<open>simp_all add: iv_set_nwk_def iv_get_def Let_def\<close>)
  qed
qed

lemma iv_set_nwk_sound:
  assumes "iv_sound v"
  shows "iv_sound (snd (iv_set_nwk i n v))"
proof (cases rule: iv_set_nwk_cases [of i v n])
  case (3 e v')
  have get: "iv_get j v' = (if j = i then Some (e\<lparr>en_info := (en_info e)\<lparr>di_nwk := n\<rparr>\<rparr>) else iv_get j v)" for j
    by (simp add: iv_get_def 3(4) map_simps)
  have res: "iv_resolve m v' = (if m = n then Some i else if m = en_nwk e then None else iv_resolve m v)" for m
    by (simp add: iv_resolve_def 3(5) map_simps)
  have "iv_sound v'"
  proof (rule iv_soundI)
    show "bt_wf (iv_devices v')" "hm_wf (iv_by_nwk v')"
      using iv_sound_wf [OF assms]
      by (simp_all add: 3(4,5) bt_wf_insert hm_wf_insert hm_wf_remove)
  next
    fix j e'
    assume "iv_get j v' = Some e'"
    then show "di_ieee (en_info e') = j"
      using iv_sound_key [OF assms] iv_sound_key [OF assms 3(1)] by (auto simp: get split: if_splits)
  next
    fix m j
    assume r: "iv_resolve m v' = Some j"
    show "\<exists>e'. iv_get j v' = Some e' \<and> en_nwk e' = m"
    proof (cases "m = n")
      case True
      with r show ?thesis by (simp add: res get)
    next
      case False
      with r have old: "iv_resolve m v = Some j" and m: "m \<noteq> en_nwk e"
        by (simp_all add: res split: if_splits)
      from iv_sound_resolve [OF assms old] obtain e' where e': "iv_get j v = Some e'" "en_nwk e' = m" .
      then have "j \<noteq> i" using 3(1) m by auto
      with e' show ?thesis by (simp add: get)
    qed
  qed
  with 3 show ?thesis by simp
qed (use assms in simp_all)

lemma iv_remove_some:
  assumes "iv_get i v = Some e"
  shows "fst (iv_remove i v) = Some e"
    and "iv_get j (snd (iv_remove i v)) = (if j = i then None else iv_get j v)"
    and "iv_resolve m (snd (iv_remove i v)) = (if m = en_nwk e then None else iv_resolve m v)"
  using assms by (simp_all add: iv_remove_def iv_get_def iv_resolve_def map_simps)

lemma iv_remove_none: "iv_get i v = None \<Longrightarrow> iv_remove i v = (None, v)"
  by (simp add: iv_remove_def iv_get_def)

lemma iv_remove_sound:
  assumes "iv_sound v"
  shows "iv_sound (snd (iv_remove i v))"
proof (cases "iv_get i v")
  case None
  with assms show ?thesis by (simp add: iv_remove_none)
next
  case (Some e)
  show ?thesis
  proof (rule iv_soundI)
    show "bt_wf (iv_devices (snd (iv_remove i v)))" "hm_wf (iv_by_nwk (snd (iv_remove i v)))"
      using iv_sound_wf [OF assms] Some
      by (simp_all add: iv_remove_def iv_get_def bt_wf_remove hm_wf_remove)
  next
    fix j e'
    assume "iv_get j (snd (iv_remove i v)) = Some e'"
    then show "di_ieee (en_info e') = j"
      using iv_sound_key [OF assms] by (simp add: iv_remove_some [OF Some] split: if_splits)
  next
    fix m j
    assume "iv_resolve m (snd (iv_remove i v)) = Some j"
    then have old: "iv_resolve m v = Some j" and m: "m \<noteq> en_nwk e"
      by (simp_all add: iv_remove_some [OF Some] split: if_splits)
    from iv_sound_resolve [OF assms old] obtain e' where e': "iv_get j v = Some e'" "en_nwk e' = m" .
    with Some m have "j \<noteq> i" by auto
    with e' show "\<exists>e'. iv_get j (snd (iv_remove i v)) = Some e' \<and> en_nwk e' = m"
      by (simp add: iv_remove_some [OF Some])
  qed
qed

section \<open>Histories of the table\<close>

datatype inv_op = OpInsert inv_entry | OpSetNwk ieee nwk | OpRemove ieee

primrec iv_step :: "inv_op \<Rightarrow> inventory \<Rightarrow> inventory" where
  "iv_step (OpInsert e) v = iv_insert e v"
| "iv_step (OpSetNwk i n) v = snd (iv_set_nwk i n v)"
| "iv_step (OpRemove i) v = snd (iv_remove i v)"

definition iv_run :: "inv_op list \<Rightarrow> inventory \<Rightarrow> inventory" where
  "iv_run ops v = fold iv_step ops v"

text \<open>An operation takes no short address that another device still has on record.\<close>

definition nwk_free :: "ieee \<Rightarrow> nwk \<Rightarrow> inventory \<Rightarrow> bool" where
  "nwk_free i n v \<longleftrightarrow> list_all (\<lambda>d. di_ieee d = i \<or> di_nwk d \<noteq> n) (iv_snapshot v)"

primrec op_fresh :: "inv_op \<Rightarrow> inventory \<Rightarrow> bool" where
  "op_fresh (OpInsert e) v = nwk_free (di_ieee (en_info e)) (en_nwk e) v"
| "op_fresh (OpSetNwk i n) v = nwk_free i n v"
| "op_fresh (OpRemove i) v = True"

fun run_fresh :: "inv_op list \<Rightarrow> inventory \<Rightarrow> bool" where
  "run_fresh [] v \<longleftrightarrow> True"
| "run_fresh (op # ops) v \<longleftrightarrow> op_fresh op v \<and> run_fresh ops (iv_step op v)"

lemma iv_step_sound: "iv_sound v \<Longrightarrow> iv_sound (iv_step op v)"
  by (cases op) (simp_all add: iv_insert_sound iv_set_nwk_sound iv_remove_sound)

lemma iv_run_sound: "iv_sound v \<Longrightarrow> iv_sound (iv_run ops v)"
  unfolding iv_run_def by (induction ops arbitrary: v) (simp_all add: iv_step_sound)

lemma nwk_freeD:
  assumes "nwk_free i n v" "iv_sound v" "iv_get j v = Some e" "j \<noteq> i"
  shows "en_nwk e \<noteq> n"
proof -
  have "en_info e \<in> set (iv_snapshot v)"
    using map_of_SomeD [OF assms(3) [unfolded iv_get_def]] by (force simp: iv_snapshot_def)
  with assms(1) have "di_ieee (en_info e) = i \<or> en_nwk e \<noteq> n"
    by (simp add: nwk_free_def list_all_iff)
  with iv_sound_key [OF assms(2,3)] assms(4) show ?thesis by simp
qed

lemma iv_step_exact:
  assumes "iv_exact v" "op_fresh op v"
  shows "iv_exact (iv_step op v)"
proof -
  have sound: "iv_sound v" and found: "\<And>i e. iv_get i v = Some e \<Longrightarrow> iv_resolve (en_nwk e) v = Some i"
    using assms(1) by (simp_all add: iv_exact_def)
  have "iv_resolve (en_nwk e) (iv_step op v) = Some i" if g: "iv_get i (iv_step op v) = Some e" for i e
  proof (cases op)
    case (OpInsert x)
    show ?thesis
    proof (cases "i = di_ieee (en_info x)")
      case True
      with g OpInsert show ?thesis by (simp add: iv_get_insert iv_resolve_insert)
    next
      case False
      with g OpInsert have old: "iv_get i v = Some e" by (simp add: iv_get_insert)
      have "en_nwk e \<noteq> en_nwk x"
        by (rule nwk_freeD [OF _ sound old False]) (use assms(2) OpInsert in simp)
      moreover have "en_nwk p \<noteq> en_nwk e" if "iv_get (di_ieee (en_info x)) v = Some p" for p
        using found [OF that] found [OF old] False by auto
      ultimately show ?thesis using OpInsert found [OF old] by (simp add: iv_resolve_insert)
    qed
  next
    case (OpSetNwk j n)
    show ?thesis
    proof (cases rule: iv_set_nwk_cases [of j v n])
      case (3 x v')
      have res: "iv_resolve m v' = (if m = n then Some j else if m = en_nwk x then None else iv_resolve m v)" for m
        by (simp add: iv_resolve_def 3(5) map_simps)
      show ?thesis
      proof (cases "i = j")
        case True
        then have "e = x\<lparr>en_info := (en_info x)\<lparr>di_nwk := n\<rparr>\<rparr>"
          using g OpSetNwk 3 by (simp add: iv_get_def map_simps)
        with True OpSetNwk 3 show ?thesis by (simp add: res)
      next
        case False
        then have old: "iv_get i v = Some e"
          using g OpSetNwk 3 by (simp add: iv_get_def map_simps)
        have "en_nwk e \<noteq> n"
          by (rule nwk_freeD [OF _ sound old False]) (use assms(2) OpSetNwk in simp)
        moreover have "en_nwk e \<noteq> en_nwk x" using found [OF old] found [OF 3(1)] False by auto
        ultimately show ?thesis using OpSetNwk 3 found [OF old] by (simp add: res)
      qed
    qed (use g OpSetNwk found in simp_all)
  next
    case (OpRemove j)
    show ?thesis
    proof (cases "iv_get j v")
      case None
      with g OpRemove found show ?thesis by (simp add: iv_remove_none)
    next
      case (Some x)
      with g OpRemove have "i \<noteq> j" and old: "iv_get i v = Some e"
        by (simp_all add: iv_remove_some [OF Some] split: if_splits)
      then have "en_nwk e \<noteq> en_nwk x" using found [OF old] found [OF Some] by auto
      with OpRemove found [OF old] show ?thesis by (simp add: iv_remove_some [OF Some])
    qed
  qed
  with iv_step_sound [OF sound] show ?thesis by (simp add: iv_exact_def)
qed

section \<open>Properties\<close>

text \<open>
  whatever devices are inserted, readdressed and removed, a short address that resolves
  resolves to a device on record that has that address now, so a frame is never attributed to a
  device by an address it has given up.
\<close>

theorem inventory_index_sound: "iv_sound (iv_run ops iv_new)"
  using iv_new_exact by (simp add: iv_exact_def iv_run_sound)

text \<open>
  C20: as long as no operation gives a device a short address another device still has on record,
  the index is exact: every device is found under the address it has.
\<close>

theorem inventory_index_exact:
  "iv_exact v \<Longrightarrow> run_fresh ops v \<Longrightarrow> iv_exact (iv_run ops v)"
  by (induction ops arbitrary: v) (auto simp: iv_run_def iv_step_exact)

theorem inventory_index_exact_witness:
  "iv_exact (iv_run [OpInsert (new_entry (Ieee 1) (Nwk 10) 0), OpInsert (new_entry (Ieee 2) (Nwk 20) 0),
     OpSetNwk (Ieee 1) (Nwk 11), OpRemove (Ieee 2)] iv_new)"
  by (rule inventory_index_exact [OF iv_new_exact])
    (simp add: nwk_free_def iv_snapshot_def iv_new_def iv_insert_def new_entry_def di_new_def
      less_ieee_def less_eq_ieee_def Let_def iv_set_nwk_def hm_insert_def hm_remove_def)

text \<open>
  readdressing or removing a device also forgets its old short address when another device
  has taken that address over meanwhile: the other device stays on record and can no longer be
  resolved, so its frames are treated as those of an unknown device.
\<close>

theorem inventory_stolen_address:
  assumes a: "iv_get a v = Some ea" and b: "iv_get b v = Some eb" and ne: "a \<noteq> b"
    and same: "en_nwk ea = en_nwk eb" and new: "m \<noteq> en_nwk ea"
  shows "iv_get b (snd (iv_set_nwk a m v)) = Some eb \<and> iv_resolve (en_nwk eb) (snd (iv_set_nwk a m v)) = None
    \<and> iv_get b (snd (iv_remove a v)) = Some eb \<and> iv_resolve (en_nwk eb) (snd (iv_remove a v)) = None"
proof -
  have "iv_get b (snd (iv_set_nwk a m v)) = Some eb \<and> iv_resolve (en_nwk eb) (snd (iv_set_nwk a m v)) = None"
    using a b ne same new by (auto simp: iv_set_nwk_def iv_get_def iv_resolve_def Let_def map_simps)
  then show ?thesis using b ne same by (simp add: iv_remove_some [OF a])
qed

theorem inventory_stolen_address_witness:
  "let v = iv_insert (new_entry (Ieee 2) (Nwk 10) 0) (iv_insert (new_entry (Ieee 1) (Nwk 10) 0) iv_new) in
   iv_resolve (Nwk 10) v = Some (Ieee 2) \<and> iv_resolve (Nwk 10) (snd (iv_set_nwk (Ieee 1) (Nwk 11) v)) = None"
proof -
  let ?v = "iv_insert (new_entry (Ieee 2) (Nwk 10) 0) (iv_insert (new_entry (Ieee 1) (Nwk 10) 0) iv_new)"
  have 1: "iv_get (Ieee 1) ?v = Some (new_entry (Ieee 1) (Nwk 10) 0)"
    and 2: "iv_get (Ieee 2) ?v = Some (new_entry (Ieee 2) (Nwk 10) 0)"
    and r: "iv_resolve (Nwk 10) ?v = Some (Ieee 2)"
    by (simp_all add: iv_get_insert iv_resolve_insert new_entry_def di_new_def)
  from inventory_stolen_address [OF 1 2, of "Nwk 11"] r show ?thesis
    by (simp add: new_entry_def di_new_def)
qed

text \<open>
  Storing what was loaded stores the same record, the interview state and the fields an
  import did not understand included.
\<close>

lemma persisted_roundtrip: "persisted_from_entry (entry_from_persisted p) = p"
proof -
  have "unat c < 2 ^ 32" "unat t < 2 ^ 64" for c :: u32 and t :: u64
    using unsigned_less [of c] unsigned_less [of t] by simp_all
  then have bounds: "unat c < 4294967296" "unat t < 18446744073709551616" for c :: u32 and t :: u64
    by simp_all
  have units: "secs k div 1000000000 = k" "millis k div 1000000 = k"
    "duration_since (int k) 0 = Some k" for k
    by (simp_all add: secs_def millis_def duration_since_def)
  have eps: "endpoint_to_persisted (endpoint_from_persisted e) = e" for e
    by (simp add: endpoint_to_persisted_def endpoint_from_persisted_def)
  show ?thesis
    by (cases p, cases "pdv_checkin_interval_secs p"; cases "pdv_last_seen_epoch_ms p")
      (simp_all add: persisted_from_entry_def entry_from_persisted_def di_new_def comp_def eps
        bounds units Let_def)
qed

text \<open>
  what a restart keeps of a device. Its addresses, kind, endpoints, names and interview state,
  an interview in progress included, are kept; what is known of its reachability, what was
  scheduled and its last link quality are not, and the time it was last heard is kept to the
  millisecond when it is after the epoch.
\<close>

theorem restart_keeps:
  "let e' = entry_from_persisted (persisted_from_entry e); d = en_info e; d' = en_info e' in
   di_ieee d' = di_ieee d \<and> di_nwk d' = di_nwk d \<and> di_kind d' = di_kind d
   \<and> di_power_source d' = di_power_source d \<and> di_interview d' = di_interview d
   \<and> di_basic d' = di_basic d \<and> di_endpoints d' = di_endpoints d \<and> di_link_quality d' = None
   \<and> en_reachability e' = ri_default \<and> en_next_check e' = NcAwaitTraffic
   \<and> en_passthrough e' = en_passthrough e
   \<and> (case di_last_seen d of None \<Rightarrow> di_last_seen d' = None
      | Some t \<Rightarrow> if t < 0 then di_last_seen d' = None
          else if t div 1000000 < 2 ^ 64 then di_last_seen d' = Some (t div 1000000 * 1000000)
          else di_last_seen d' = None)"
proof -
  have eps: "endpoint_from_persisted (endpoint_to_persisted x) = x" for x
    by (simp add: endpoint_to_persisted_def endpoint_from_persisted_def)
  let ?last = "\<lambda>t. map_option (\<lambda>ms :: u64. int (millis (unat ms))) (Option.bind (duration_since t 0) (\<lambda>since.
         if since div 1000000 < 2 ^ 64 then Some (of_nat (since div 1000000)) else None))"
  have neg: "?last t = None" if "t < 0" for t
    using that by (simp add: duration_since_def)
  have pos: "?last t = (if t div 1000000 < 2 ^ 64 then Some (t div 1000000 * 1000000) else None)" if "\<not> t < 0" for t
  proof -
    have int: "int (nat t div 1000000) = t div 1000000"
      using that by (simp add: zdiv_int)
    have "int k = z \<Longrightarrow> k < 2 ^ 64 \<longleftrightarrow> z < 2 ^ 64" for k z by auto
    note bound = this [OF int]
    have "uint (of_nat k :: u64) = int k" if "k < 2 ^ 64" for k
      using that by (simp add: uint_nat unat_of_nat)
    from this [of "nat t div 1000000"] bound int show ?thesis
      using that by (simp add: duration_since_def millis_def)
  qed
  have last: "di_last_seen (en_info (entry_from_persisted (persisted_from_entry e)))
      = Option.bind (di_last_seen (en_info e)) ?last"
    by (cases "di_last_seen (en_info e)")
      (simp_all add: persisted_from_entry_def entry_from_persisted_def Let_def)
  have last': "di_last_seen (en_info (entry_from_persisted (persisted_from_entry e)))
      = (case di_last_seen (en_info e) of None \<Rightarrow> None
         | Some t \<Rightarrow> if t < 0 then None
             else if t div 1000000 < 2 ^ 64 then Some (t div 1000000 * 1000000) else None)"
  proof (cases "di_last_seen (en_info e)")
    case (Some t)
    show ?thesis
      by (cases "t < 0") (simp_all only: last Some bind.simps option.case neg pos if_True if_False not_False_eq_True)
  qed (simp add: last)
  have kept: "di_link_quality (en_info (entry_from_persisted p)) = None"
    "en_reachability (entry_from_persisted p) = ri_default"
    "en_next_check (entry_from_persisted p) = NcAwaitTraffic" for p
    by (simp_all add: entry_from_persisted_def di_new_def Let_def)
  show ?thesis
    unfolding Let_def last' kept
    by (simp add: persisted_from_entry_def entry_from_persisted_def di_new_def comp_def eps Let_def
        split: option.split)
qed

end
