(* ===== verification/F64.thy ===== *)
theory F64
  imports Rz_Prelude "HOL-Library.Log_Nat"
begin

text \<open>
  Floating-point numbers of 64 bits, as the bits the IEEE 754 format gives them: equality,
  the value of a finite number, rounding a rational number to the nearest (ties to even), the
  conversions from and to integers, and scaling by an integer divisor and offset.
\<close>

section \<open>Bits\<close>

type_synonym f64 = "64 word"

text \<open>A NaN differs from everything, itself included, and the two zeros are equal.\<close>

definition f64_is_nan :: "f64 \<Rightarrow> bool" where
  "f64_is_nan x \<longleftrightarrow> 0x7ff0000000000000 < x AND 0x7fffffffffffffff"

definition f64_eq :: "f64 \<Rightarrow> f64 \<Rightarrow> bool" where
  "f64_eq x y \<longleftrightarrow> \<not> f64_is_nan x \<and> \<not> f64_is_nan y
     \<and> (x = y \<or> x AND 0x7fffffffffffffff = 0 \<and> y AND 0x7fffffffffffffff = 0)"

definition f64_exponent :: "f64 \<Rightarrow> nat" where
  "f64_exponent x = unat (drop_bit 52 x AND 0x7ff)"

definition f64_significand :: "f64 \<Rightarrow> nat" where
  "f64_significand x =
     unat (x AND 0xfffffffffffff) + (if f64_exponent x = 0 then 0 else 2 ^ 52)"

definition f64_is_finite :: "f64 \<Rightarrow> bool" where
  "f64_is_finite x \<longleftrightarrow> f64_exponent x \<noteq> 0x7ff"

definition f64_value :: "f64 \<Rightarrow> rat" where
  "f64_value x = (if bit x 63 then - 1 else 1) * of_nat (f64_significand x)
     * 2 powi (int (max 1 (f64_exponent x)) - 1075)"

section \<open>Rounding\<close>

definition round_half_even :: "rat \<Rightarrow> int" where
  "round_half_even q =
     (let f = \<lfloor>q\<rfloor>; d = q - of_int f in
      if d < 1 / 2 \<or> d = 1 / 2 \<and> even f then f else f + 1)"

text \<open>The \<open>e\<close> with \<open>2 powi e \<le> q < 2 powi (e + 1)\<close>.\<close>

definition binary_exponent :: "rat \<Rightarrow> int" where
  "binary_exponent q =
     (let (n, d) = quotient_of q; e = bitlen n - bitlen d in if 2 powi e \<le> q then e else e - 1)"

definition f64_of_parts :: "bool \<Rightarrow> int \<Rightarrow> int \<Rightarrow> f64" where
  "f64_of_parts negative k m =
     of_int (min 0x7ff0000000000000 ((k + 1074) * 2 ^ 52 + m)) + (if negative then 2 ^ 63 else 0)"

definition f64_nearest :: "rat \<Rightarrow> f64" where
  "f64_nearest q =
     (if q = 0 then 0
      else let k = max (binary_exponent \<bar>q\<bar> - 52) (- 1074) in
        f64_of_parts (q < 0) k (round_half_even (\<bar>q\<bar> / 2 powi k)))"

text \<open>\<open>as f64\<close> from an \<open>i64\<close>, and the arithmetic where no operand or result is a special value.\<close>

definition f64_of_i64 :: "i64 \<Rightarrow> f64" where
  "f64_of_i64 i = f64_nearest (of_int (sint i))"

text \<open>
  \<open>f64::round\<close>, halves away from zero, of a finite number; the result is an integer.
\<close>

definition f64_round :: "f64 \<Rightarrow> int" where
  "f64_round x = (let v = f64_value x in if v < 0 then - \<lfloor>- v + 1 / 2\<rfloor> else \<lfloor>v + 1 / 2\<rfloor>)"

text \<open>\<open>as i64\<close> of what \<open>round\<close> gives: saturating, and zero for a NaN.\<close>

definition f64_round_as_i64 :: "f64 \<Rightarrow> i64" where
  "f64_round_as_i64 x =
     (if f64_is_nan x then 0
      else if \<not> f64_is_finite x then (if bit x 63 then 0x8000000000000000 else 0x7fffffffffffffff)
      else of_int (max (- 0x8000000000000000) (min 0x7fffffffffffffff (f64_round x))))"

section \<open>Integers are exact up to two to the 53\<close>


lemma f64_of_parts_fields:
  fixes x :: f64
  assumes "2 ^ 52 \<le> m" "m < 2 ^ 53" "0 \<le> k + 1074" "k + 1074 \<le> 2045"
    and x_def: "x = f64_of_parts negative k m"
  shows "f64_exponent x = nat (k + 1075)" "f64_significand x = nat m" "bit x 63 = negative"
proof -
  define K where "K = nat (k + 1074)"
  define M where "M = nat m - 2 ^ 52"
  have M: "M < 2 ^ 52" "nat m = 2 ^ 52 + M" using assms(1,2) by (simp_all add: M_def)
  have K: "K \<le> 2045" "k + 1074 = int K" using assms(3,4) by (simp_all add: K_def)
  define s :: nat where "s = (if negative then 1 else 0)"
  have m: "m = int (2 ^ 52 + M)" using M assms(1) by linarith
  have bound: "(k + 1074) * 2 ^ 52 + m \<le> 0x7ff0000000000000" using K M by (simp add: m)
  define N where "N = (Suc K + 2048 * s) * 2 ^ 52 + M"
  have "x = of_nat N"
    using bound by (simp add: x_def f64_of_parts_def min_absorb2 K(2) m s_def N_def algebra_simps)
  moreover have "N < 2 ^ 64"
  proof -
    have "N < (Suc K + 2048 * s) * 2 ^ 52 + 2 ^ 52" using M by (simp add: N_def)
    also have "\<dots> = (Suc (Suc K) + 2048 * s) * 2 ^ 52" by simp
    also have "\<dots> \<le> 4096 * 2 ^ 52" using K by (intro mult_le_mono1) (simp add: s_def)
    finally show ?thesis by simp
  qed
  ultimately have "unat x = N" by (simp add: unat_of_nat)
  then have x: "unat x = (Suc K + 2048 * s) * 2 ^ 52 + M" by (simp only: N_def)
  have div: "unat x div 2 ^ 52 = Suc K + 2048 * s"
    unfolding x by (subst div_mult_self3) (use M in simp_all)
  have mod: "unat x mod 2 ^ 52 = M"
    unfolding x by (subst mod_mult_self3) (use M in simp)
  have b: "Suc K + 2048 * s < 4096" using K by (simp add: s_def)
  have e: "f64_exponent x = Suc K"
  proof -
    have "f64_exponent x = unat (take_bit 11 (drop_bit 52 x))"
      by (simp add: f64_exponent_def take_bit_eq_mask mask_eq_exp_minus_1)
    also have "\<dots> = take_bit 11 (drop_bit 52 (unat x))"
      by (simp only: unsigned_take_bit_eq unat_drop_bit_eq)
    also have "\<dots> = (Suc K + 2048 * s) mod 2 ^ 11"
      by (simp only: take_bit_eq_mod drop_bit_eq_div div)
    also have "\<dots> = Suc K" using K by simp
    finally show ?thesis .
  qed
  then show "f64_exponent x = nat (k + 1075)" using K by (simp add: nat_add_distrib) 
  have "unat (x AND 0xfffffffffffff) = unat (take_bit 52 x)"
    by (simp add: take_bit_eq_mask mask_eq_exp_minus_1)
  also have "\<dots> = M" unfolding unsigned_take_bit_eq by (simp only: take_bit_eq_mod mod)
  finally show "f64_significand x = nat m" using M by (simp add: f64_significand_def e)
  have "bit x 63 \<longleftrightarrow> bit (unat x) 63" by (simp add: bit_unsigned_iff)
  also have "\<dots> \<longleftrightarrow> odd (unat x div 2 ^ 52 div 2 ^ 11)" by (simp add: bit_iff_odd flip: div_mult2_eq)
  also have "unat x div 2 ^ 52 div 2 ^ 11 = s" using K by (simp only: div) simp
  finally show "bit x 63 = negative" by (simp add: s_def)
qed


lemma f64_of_parts_value:
  assumes "2 ^ 52 \<le> m" "m < 2 ^ 53" "- 1074 \<le> k" "k \<le> 971"
  shows "f64_value (f64_of_parts negative k m) = (if negative then - 1 else 1) * of_int m * 2 powi k"
    and "f64_is_finite (f64_of_parts negative k m)"
proof -
  note fields = f64_of_parts_fields [OF assms(1,2) _ _ refl, of k negative]
  have "int (max 1 (nat (k + 1075))) - 1075 = k" using assms(3) by simp
  moreover have "of_nat (nat m) = (of_int m :: rat)" using assms(1) by (simp add: of_nat_nat)
  ultimately show "f64_value (f64_of_parts negative k m) = (if negative then - 1 else 1) * of_int m * 2 powi k"
    using fields assms(3,4) by (simp add: f64_value_def)
  show "f64_is_finite (f64_of_parts negative k m)"
    using fields(1) assms(3,4) by (simp add: f64_is_finite_def)
qed

lemma round_half_even_int [simp]: "round_half_even (of_int i) = i"
  by (simp add: round_half_even_def Let_def)

lemma binary_exponent_int:
  assumes "0 < n"
  shows "binary_exponent (of_int n) = bitlen n - 1" "2 ^ nat (bitlen n - 1) \<le> n" "n < 2 ^ nat (bitlen n)"
proof -
  have len: "1 \<le> bitlen n" using bitlen_nonneg [of n] bitlen_eq_zero_iff [of n] assms by linarith
  show b: "2 ^ nat (bitlen n - 1) \<le> n" "n < 2 ^ nat (bitlen n)"
    using bitlen_bounds [OF assms] by simp_all
  have "(2 :: rat) powi (bitlen n - 1) = of_int (2 ^ nat (bitlen n - 1))"
    using len by (simp add: power_int_def)
  then have "(2 :: rat) powi (bitlen n - 1) \<le> of_int n" using b(1) by (simp only: of_int_le_iff)
  then show "binary_exponent (of_int n) = bitlen n - 1"
    by (simp add: binary_exponent_def Let_def bitlen_alt_def [of 1])
qed

lemma f64_nearest_scaled:
  assumes "0 < n" "of_int n = of_int m * (2 :: rat) powi k" "2 ^ 52 \<le> m" "m < 2 ^ 53"
    "k = bitlen n - 53" "k \<le> 971"
    and q: "q = (if negative then - of_int n else of_int n)"
  shows "f64_value (f64_nearest q) = q" "f64_is_finite (f64_nearest q)"
proof -
  have k: "- 1074 \<le> k" using assms(5) bitlen_nonneg [of n] by linarith
  have q': "\<bar>q\<bar> = of_int n" "q \<noteq> 0" "q < 0 \<longleftrightarrow> negative" using assms(1) by (simp_all add: q)
  have "max (binary_exponent \<bar>q\<bar> - 52) (- 1074) = k"
    using k assms(5) by (simp add: q' binary_exponent_int(1) [OF assms(1)])
  moreover have "\<bar>q\<bar> / 2 powi k = of_int m" by (simp add: q' assms(2))
  ultimately have "f64_nearest q = f64_of_parts negative k m"
    by (simp only: f64_nearest_def Let_def q' if_False round_half_even_int)
  with f64_of_parts_value [OF assms(3,4) k assms(6), of negative]
  show "f64_value (f64_nearest q) = q" "f64_is_finite (f64_nearest q)"
    by (simp_all add: q assms(2))
qed

lemma f64_nearest_int:
  assumes "\<bar>i\<bar> \<le> 2 ^ 53"
  shows "f64_value (f64_nearest (of_int i)) = of_int i \<and> f64_is_finite (f64_nearest (of_int i))"
proof (cases "i = 0")
  case True
  then show ?thesis by (simp add: f64_nearest_def f64_value_def f64_significand_def f64_exponent_def f64_is_finite_def)
next
  case False
  define n where "n = \<bar>i\<bar>"
  define b where "b = nat (bitlen n - 1)"
  have n: "0 < n" using False by (simp add: n_def)
  have len: "bitlen n = int b + 1"
    using bitlen_nonneg [of n] bitlen_eq_zero_iff [of n] n by (simp add: b_def)
  have bounds: "2 ^ b \<le> n" "n < 2 ^ Suc b"
  proof -
    have "nat (bitlen n - 1) = b" "nat (bitlen n) = Suc b" using len by simp_all
    with binary_exponent_int(2,3) [OF n] show "2 ^ b \<le> n" "n < 2 ^ Suc b" by (simp_all only:)
  qed
  have q: "of_int i = (if i < 0 then - of_int n else of_int n :: rat)" by (simp add: n_def)
  have "\<exists>m. of_int n = of_int m * (2 :: rat) powi (bitlen n - 53) \<and> 2 ^ 52 \<le> m \<and> m < 2 ^ 53"
  proof (cases "b \<le> 52")
    case True
    define c where "c = 52 - b"
    have c: "b + c = 52" "bitlen n - 53 = - int c" using True by (simp_all add: c_def len)
    have p: "(2 :: int) ^ b * 2 ^ c = 2 ^ 52" "(2 :: int) ^ Suc b * 2 ^ c = 2 ^ 53"
      using c(1) by (simp_all only: power_Suc mult.assoc flip: power_add) simp
    have "2 ^ 52 \<le> n * 2 ^ c" "n * 2 ^ c < 2 ^ 53"
      using mult_right_mono [OF bounds(1), of "2 ^ c"] mult_strict_right_mono [OF bounds(2), of "2 ^ c"]
      unfolding p by simp_all
    then show ?thesis by (intro exI [of _ "n * 2 ^ c"]) (simp add: c(2) power_int_minus)
  next
    case False
    have "(2 :: int) ^ 53 \<le> 2 ^ b" using False by (intro power_increasing) simp_all
    then have "n = 2 ^ 53" "b \<le> 53"
      using bounds(1) assms power_strict_increasing_iff [of "2 :: int" 53 b] by (simp_all add: n_def)
    then have "b = 53" using False by simp
    then have "bitlen n - 53 = 1" unfolding len by simp
    with \<open>n = 2 ^ 53\<close> show ?thesis by (intro exI [of _ "2 ^ 52"]) simp
  qed
  then obtain m where m: "of_int n = of_int m * (2 :: rat) powi (bitlen n - 53)" "2 ^ 52 \<le> m" "m < 2 ^ 53"
    by blast
  have "(2 :: int) ^ b \<le> 2 ^ 53" using bounds(1) assms by (simp add: n_def)
  then have "b \<le> 53" by (subst (asm) power_increasing_iff) simp_all
  then have "bitlen n - 53 \<le> 971" by (simp add: len)
  from f64_nearest_scaled [OF n m refl this q] show ?thesis ..
qed

section \<open>Signed 64-bit integers\<close>

lemma f64_of_i64_exact: "\<bar>sint i\<bar> \<le> 2 ^ 53 \<Longrightarrow> f64_value (f64_of_i64 i) = of_int (sint i)"
  unfolding f64_of_i64_def using f64_nearest_int [of "sint i"] by blast

lemma f64_round_exact: "f64_value x = of_int i \<Longrightarrow> f64_round x = i"
proof -
  assume v: "f64_value x = of_int i"
  have "\<lfloor>of_int j + 1 / 2 :: rat\<rfloor> = j" for j by linarith
  from this [of i] this [of "- i"] v show ?thesis by (simp add: f64_round_def Let_def)
qed

section \<open>The error of rounding\<close>

lemma round_half_even_error: "\<bar>of_int (round_half_even q) - q\<bar> \<le> 1 / 2"
proof -
  have "of_int \<lfloor>q\<rfloor> \<le> q" "q < of_int \<lfloor>q\<rfloor> + 1" by linarith+
  then show ?thesis by (auto simp: round_half_even_def Let_def)
qed

lemma binary_exponent_bounds:
  assumes "0 < q"
  shows "2 powi binary_exponent q \<le> q" "q < 2 powi (binary_exponent q + 1)"
proof -
  obtain n d where nd: "quotient_of q = (n, d)" by fastforce
  have q: "q = of_int n / of_int d" "0 < d" using quotient_of_div [OF nd] quotient_of_denom_pos [OF nd] by simp_all
  have n: "0 < n" using assms q by (simp add: zero_less_divide_iff)
  have pos: "1 \<le> bitlen x" if "0 < x" for x
    using that bitlen_nonneg [of x] bitlen_eq_zero_iff [of x] by linarith
  have lo: "2 powi (bitlen x - 1) \<le> (of_int x :: rat)" and hi: "(of_int x :: rat) < 2 powi bitlen x" if x: "0 < x" for x
  proof -
    have "2 ^ nat (bitlen x - 1) \<le> x" "x < 2 ^ nat (bitlen x)" using bitlen_bounds [OF x] by simp_all
    then have "(of_int (2 ^ nat (bitlen x - 1)) :: rat) \<le> of_int x" "(of_int x :: rat) < of_int (2 ^ nat (bitlen x))"
      by (simp_all only: of_int_le_iff of_int_less_iff)
    then show "2 powi (bitlen x - 1) \<le> (of_int x :: rat)" "(of_int x :: rat) < 2 powi bitlen x"
      using pos [OF x] by (simp_all add: power_int_def)
  qed
  define e where "e = bitlen n - bitlen d"
  have d: "0 < (of_int d :: rat)" using q by simp
  have "2 powi (e - 1) \<le> q"
  proof -
    have "2 powi (e - 1) * (of_int d :: rat) \<le> 2 powi (e - 1) * 2 powi bitlen d"
      using hi [OF q(2)] by (intro mult_left_mono) simp_all
    also have "\<dots> = 2 powi (bitlen n - 1)" by (simp add: e_def flip: power_int_add)
    also have "\<dots> \<le> of_int n" by (rule lo [OF n])
    finally show ?thesis using d by (simp add: q(1) pos_le_divide_eq)
  qed
  moreover have "q < 2 powi (e + 1)"
  proof -
    have "of_int n < (2 powi bitlen n :: rat)" by (rule hi [OF n])
    also have "\<dots> = 2 powi (e + 1) * 2 powi (bitlen d - 1)" by (simp add: e_def flip: power_int_add)
    also have "\<dots> \<le> 2 powi (e + 1) * of_int d" using lo [OF q(2)] by (intro mult_left_mono) simp_all
    finally show ?thesis using d by (simp add: q(1) pos_divide_less_eq)
  qed
  ultimately show "2 powi binary_exponent q \<le> q" "q < 2 powi (binary_exponent q + 1)"
    by (auto simp: binary_exponent_def nd Let_def e_def [symmetric])
qed

text \<open>A number of moderate size is off by at most one part in two to the 53.\<close>

lemma f64_nearest_error:
  assumes "1 \<le> q" "q \<le> 2 ^ 53"
  shows "\<bar>f64_value (f64_nearest q) - q\<bar> \<le> q / 2 ^ 53" "f64_is_finite (f64_nearest q)"
proof -
  define e where "e = binary_exponent q"
  define k where "k = e - 52"
  define m where "m = round_half_even (q / 2 powi k)"
  have q: "0 < q" using assms(1) by simp
  have e: "2 powi e \<le> q" "q < 2 powi (e + 1)" using binary_exponent_bounds [OF q] by (simp_all add: e_def)
  have e0: "0 \<le> e"
  proof (rule ccontr)
    assume "\<not> 0 \<le> e"
    then have "(2 :: rat) powi (e + 1) \<le> 2 powi 0" by (intro power_int_increasing) simp_all
    then show False using e(2) assms(1) by simp
  qed
  have e1: "e \<le> 53"
  proof (rule ccontr)
    assume "\<not> e \<le> 53"
    then have "(2 :: rat) powi 54 \<le> 2 powi e" by (intro power_int_increasing) simp_all
    then show False using e(1) assms(2) by simp
  qed
  have p: "0 < (2 :: rat) powi k" by simp
  have split: "(2 :: rat) powi e = 2 ^ 52 * 2 powi k" "(2 :: rat) powi (e + 1) = 2 ^ 53 * 2 powi k"
    by (simp_all add: k_def power_int_diff power_int_add)
  have r: "2 ^ 52 \<le> q / 2 powi k" "q / 2 powi k < 2 ^ 53"
    using e p by (simp_all add: split pos_le_divide_eq pos_divide_less_eq)
  have err: "\<bar>of_int m - q / 2 powi k\<bar> \<le> 1 / 2" unfolding m_def by (rule round_half_even_error)
  have m: "2 ^ 52 \<le> m" "m \<le> 2 ^ 53"
  proof -
    have "(2 ^ 52 :: rat) - 1 < of_int m" "of_int m < (2 ^ 53 :: rat) + 1" using r err by linarith+
    then have "(of_int (2 ^ 52 - 1) :: rat) < of_int m" "(of_int m :: rat) < of_int (2 ^ 53 + 1)" by simp_all
    then show "2 ^ 52 \<le> m" "m \<le> 2 ^ 53" unfolding of_int_less_iff by simp_all
  qed
  have near: "f64_nearest q = f64_of_parts False k m"
    using q e0 by (simp add: f64_nearest_def Let_def m_def k_def e_def)
  have val: "f64_value (f64_nearest q) = of_int m * 2 powi k \<and> f64_is_finite (f64_nearest q)"
  proof (cases "m = 2 ^ 53")
    case False
    then show ?thesis unfolding near
      using f64_of_parts_value [of m k False] m e0 e1 by (simp add: k_def)
  next
    case True
    have "f64_of_parts False k m = f64_of_parts False (k + 1) (2 ^ 52)"
      by (simp add: f64_of_parts_def True algebra_simps)
    moreover have "- 1074 \<le> k + 1" "k + 1 \<le> 971" using e0 e1 by (simp_all add: k_def)
    moreover have "(2 :: rat) powi (k + 1) = 2 * 2 powi k" by (simp add: power_int_add)
    ultimately show ?thesis unfolding near True
      using f64_of_parts_value [of "2 ^ 52" "k + 1" False] by (simp add: True)
  qed
  then show "f64_is_finite (f64_nearest q)" by simp
  have "\<bar>f64_value (f64_nearest q) - q\<bar> = \<bar>of_int m - q / 2 powi k\<bar> * 2 powi k"
  proof -
    have "of_int m * 2 powi k - q = (of_int m - q / 2 powi k) * 2 powi k" using p by (simp add: left_diff_distrib)
    then show ?thesis using val p by (simp add: abs_mult)
  qed
  also have "\<dots> \<le> 1 / 2 * 2 powi k" using err by (intro mult_right_mono) simp_all
  also have "\<dots> = 2 powi e / 2 ^ 53" by (simp add: split)
  also have "\<dots> \<le> q / 2 ^ 53" using e(1) by (simp add: divide_right_mono)
  finally show "\<bar>f64_value (f64_nearest q) - q\<bar> \<le> q / 2 ^ 53" .
qed

lemma f64_finite_not_nan: "f64_is_finite x \<Longrightarrow> \<not> f64_is_nan x"
proof
  assume fin: "f64_is_finite x" and nan: "f64_is_nan x"
  define n where "n = take_bit 63 (unat x)"
  have "x AND 0x7fffffffffffffff = take_bit 63 x" by (simp add: take_bit_eq_mask mask_eq_exp_minus_1)
  then have "unat (0x7ff0000000000000 :: f64) < unat (take_bit 63 x)"
    using nan by (simp add: f64_is_nan_def word_less_nat_alt)
  moreover have "unat (0x7ff0000000000000 :: f64) = 0x7ff * 2 ^ 52" by simp
  ultimately have "0x7ff * 2 ^ 52 < n" by (simp only: unsigned_take_bit_eq n_def)
  then have "0x7ff \<le> n div 2 ^ 52" by (simp add: less_eq_div_iff_mult_less_eq)
  moreover have "n < 2 ^ 63" unfolding n_def by (rule take_bit_nat_less_exp)
  then have "n div 2 ^ 52 < 2 ^ 11" by (subst div_less_iff_less_mult) simp_all
  ultimately have "n div 2 ^ 52 = 0x7ff" by simp
  moreover have "f64_exponent x = (unat x div 2 ^ 52) mod 2 ^ 11"
  proof -
    have "f64_exponent x = unat (take_bit 11 (drop_bit 52 x))"
      by (simp add: f64_exponent_def take_bit_eq_mask mask_eq_exp_minus_1)
    also have "\<dots> = take_bit 11 (drop_bit 52 (unat x))"
      by (simp only: unsigned_take_bit_eq unat_drop_bit_eq)
    finally show ?thesis by (simp only: take_bit_eq_mod drop_bit_eq_div)
  qed
  moreover have "(unat x div 2 ^ 52) mod 2 ^ 11 = n div 2 ^ 52"
    using drop_bit_take_bit [of 52 63 "unat x"] by (simp only: n_def drop_bit_eq_div take_bit_eq_mod) simp
  ultimately show False using fin by (simp add: f64_is_finite_def)
qed

end
