(* ===== verification/Definition.thy ===== *)
theory Definition
  imports Adapter_Tx F64
begin

text \<open>
  The device definition format and the rules by which a definition claims a device:
  \<open>rszigbee-devices/src/definition.rs\<close> and \<open>matcher.rs\<close>.
\<close>

section \<open>What a match is decided on\<close>

record endpoint_match =
  em_id :: endpoint_id
  em_profile :: "profile_id option"
  em_device_id :: "u16 option"
  em_input_clusters :: "cluster_id list"
  em_output_clusters :: "cluster_id list"

record device_match =
  dm_model_id :: "string option"
  dm_manufacturer_name :: "string option"
  dm_manufacturer_id :: "u16 option"
  dm_application_version :: "u8 option"
  dm_stack_version :: "u8 option"
  dm_zcl_version :: "u8 option"
  dm_hardware_version :: "u8 option"
  dm_date_code :: "string option"
  dm_software_build_id :: "string option"
  dm_power_source :: "u8 option"
  dm_device_type :: "u8 option"
  dm_ieee :: "ieee option"
  dm_endpoints :: "endpoint_match list"

record fingerprint_endpoint =
  fe_id :: endpoint_id
  fe_profile :: "profile_id option"
  fe_device_id :: "u16 option"
  fe_input_clusters :: "cluster_id list option"
  fe_output_clusters :: "cluster_id list option"

text \<open>The priority is an \<open>i32\<close>: an integer, compared and never computed with.\<close>

record fingerprint =
  fp_model_id :: "string option"
  fp_manufacturer_name :: "string option"
  fp_manufacturer_id :: "u16 option"
  fp_application_version :: "u8 option"
  fp_stack_version :: "u8 option"
  fp_zcl_version :: "u8 option"
  fp_hardware_version :: "u8 option"
  fp_date_code :: "string option"
  fp_software_build_id :: "string option"
  fp_power_source :: "u8 option"
  fp_device_type :: "u8 option"
  fp_ieee_prefix :: "string option"
  fp_endpoints :: "fingerprint_endpoint list"
  fp_priority :: int

record match_rules =
  mr_models :: "string list"
  mr_fingerprints :: "fingerprint list"

definition dm_default :: device_match where
  "dm_default =
     \<lparr>dm_model_id = None, dm_manufacturer_name = None, dm_manufacturer_id = None,
      dm_application_version = None, dm_stack_version = None, dm_zcl_version = None,
      dm_hardware_version = None, dm_date_code = None, dm_software_build_id = None,
      dm_power_source = None, dm_device_type = None, dm_ieee = None, dm_endpoints = []\<rparr>"

definition dm_for_model :: "string \<Rightarrow> device_match" where
  "dm_for_model m = dm_default\<lparr>dm_model_id := Some m\<rparr>"

definition dm_with_manufacturer :: "string \<Rightarrow> device_match \<Rightarrow> device_match" where
  "dm_with_manufacturer n d = d\<lparr>dm_manufacturer_name := Some n\<rparr>"

definition endpoint_PRIMARY :: endpoint_id where
  "endpoint_PRIMARY = EndpointId 1"

definition em_default :: endpoint_match where
  "em_default =
     \<lparr>em_id = endpoint_PRIMARY, em_profile = None, em_device_id = None, em_input_clusters = [],
      em_output_clusters = []\<rparr>"

definition em_new :: "endpoint_id \<Rightarrow> endpoint_match" where
  "em_new e = em_default\<lparr>em_id := e\<rparr>"

definition fe_default :: fingerprint_endpoint where
  "fe_default =
     \<lparr>fe_id = endpoint_PRIMARY, fe_profile = None, fe_device_id = None, fe_input_clusters = None,
      fe_output_clusters = None\<rparr>"

definition fe_new :: "endpoint_id \<Rightarrow> fingerprint_endpoint" where
  "fe_new e = fe_default\<lparr>fe_id := e\<rparr>"

definition fp_default :: fingerprint where
  "fp_default =
     \<lparr>fp_model_id = None, fp_manufacturer_name = None, fp_manufacturer_id = None,
      fp_application_version = None, fp_stack_version = None, fp_zcl_version = None,
      fp_hardware_version = None, fp_date_code = None, fp_software_build_id = None,
      fp_power_source = None, fp_device_type = None, fp_ieee_prefix = None, fp_endpoints = [],
      fp_priority = 0\<rparr>"

section \<open>Matching\<close>

definition fp_is_empty :: "fingerprint \<Rightarrow> bool" where
  "fp_is_empty f \<longleftrightarrow>
     fp_model_id f = None \<and> fp_manufacturer_name f = None \<and> fp_manufacturer_id f = None
     \<and> fp_application_version f = None \<and> fp_stack_version f = None \<and> fp_zcl_version f = None
     \<and> fp_hardware_version f = None \<and> fp_date_code f = None \<and> fp_software_build_id f = None
     \<and> fp_power_source f = None \<and> fp_device_type f = None \<and> fp_ieee_prefix f = None
     \<and> fp_endpoints f = []"

definition same_field :: "'a option \<Rightarrow> 'a option \<Rightarrow> bool" where
  "same_field required found = (case required of None \<Rightarrow> True | Some want \<Rightarrow> found = Some want)"

definition set_equal :: "'a list \<Rightarrow> 'a list \<Rightarrow> bool" where
  "set_equal a b \<longleftrightarrow> length a = length b \<and> list_all (\<lambda>x. x \<in> set b) a"

definition endpoint_matches :: "fingerprint_endpoint \<Rightarrow> endpoint_match \<Rightarrow> bool" where
  "endpoint_matches r found \<longleftrightarrow>
     (if \<exists>p. fe_profile r = Some p \<and> em_profile found \<noteq> Some p then False
      else if \<exists>d. fe_device_id r = Some d \<and> em_device_id found \<noteq> Some d then False
      else if \<exists>w. fe_input_clusters r = Some w \<and> \<not> set_equal w (em_input_clusters found) then False
      else if \<exists>w. fe_output_clusters r = Some w \<and> \<not> set_equal w (em_output_clusters found) then False
      else True)"

definition fp_endpoints_match :: "device_match \<Rightarrow> fingerprint \<Rightarrow> bool" where
  "fp_endpoints_match d f \<longleftrightarrow>
     (if fp_endpoints f = [] then True
      else if length (fp_endpoints f) \<noteq> length (dm_endpoints d) then False
      else if \<not> list_all (\<lambda>r. list_ex (\<lambda>e. em_id e = fe_id r) (dm_endpoints d)) (fp_endpoints f) then False
      else list_all (\<lambda>r. case find (\<lambda>e. em_id e = fe_id r) (dm_endpoints d) of
             None \<Rightarrow> False
           | Some found \<Rightarrow> endpoint_matches r found) (fp_endpoints f))"

definition starts_with :: "string \<Rightarrow> string \<Rightarrow> bool" where
  "starts_with p s \<longleftrightarrow> strip_prefix p s \<noteq> None"

definition fp_matches :: "device_match \<Rightarrow> fingerprint \<Rightarrow> bool" where
  "fp_matches d f \<longleftrightarrow>
     (if \<not> same_field (fp_model_id f) (dm_model_id d)
         \<or> \<not> same_field (fp_manufacturer_name f) (dm_manufacturer_name d)
         \<or> \<not> same_field (fp_manufacturer_id f) (dm_manufacturer_id d)
         \<or> \<not> same_field (fp_application_version f) (dm_application_version d)
         \<or> \<not> same_field (fp_stack_version f) (dm_stack_version d)
         \<or> \<not> same_field (fp_zcl_version f) (dm_zcl_version d)
         \<or> \<not> same_field (fp_hardware_version f) (dm_hardware_version d)
         \<or> \<not> same_field (fp_date_code f) (dm_date_code d)
         \<or> \<not> same_field (fp_software_build_id f) (dm_software_build_id d)
         \<or> \<not> same_field (fp_power_source f) (dm_power_source d)
         \<or> \<not> same_field (fp_device_type f) (dm_device_type d)
      then False
      else case fp_ieee_prefix f of
        None \<Rightarrow> fp_endpoints_match d f
      | Some prefix \<Rightarrow>
          (case dm_ieee d of
             None \<Rightarrow> False
           | Some a \<Rightarrow> if starts_with prefix (ieee_display a) then fp_endpoints_match d f else False))"

section \<open>Model strings\<close>

text \<open>\<open>split('\0').next()\<close>: what is before the first NUL, the whole string when there is none.\<close>

definition normalise_model :: "string \<Rightarrow> string" where
  "normalise_model m = str_trim (takeWhile (\<lambda>c. c \<noteq> CHR 0x00) m)"

text \<open>
  \<open>lower\<close> is \<open>str::to_lowercase\<close>: its case mapping is a table of the Unicode standard and an
  argument here.
\<close>

definition index_key :: "(string \<Rightarrow> string) \<Rightarrow> string \<Rightarrow> string" where
  "index_key lower m = lower (normalise_model m)"

section \<open>The definition format\<close>

datatype access = AccReport | AccReportAndSet | AccSet

record numeric_spec =
  ns_divisor :: i64
  ns_offset :: i64
  ns_unit :: "string option"
  ns_range :: "(i64 \<times> i64) option"

definition ns_default :: numeric_spec where
  "ns_default = \<lparr>ns_divisor = 1, ns_offset = 0, ns_unit = None, ns_range = None\<rparr>"

text \<open>
  \<open>NumericSpec::apply\<close>. The operands are finite and a divisor is never zero, so the arithmetic is
  that of rational numbers with a rounding after every operation.
\<close>

definition ns_apply :: "numeric_spec \<Rightarrow> i64 \<Rightarrow> f64" where
  "ns_apply spec raw =
     (let divisor = (if ns_divisor spec = 0 then 1 else ns_divisor spec);
          scaled = f64_nearest (f64_value (f64_of_i64 raw) / f64_value (f64_of_i64 divisor));
          offset = f64_of_i64 (ns_offset spec)
      in f64_nearest (f64_value scaled + f64_value offset))"

datatype power_source_hint = HintMains | HintBattery | HintDc

record custom_cluster =
  cc_name :: string
  cc_id :: cluster_id
  cc_manufacturer :: "u16 option"
  cc_attributes :: "(u16 \<times> string \<times> u8) list"
  cc_commands :: "(u8 \<times> string \<times> (string \<times> u8) list) list"
  cc_responses :: "(u8 \<times> string \<times> (string \<times> u8) list) list"

datatype extend =
    ExLight (exl_brightness: bool) (exl_color_temp: "(u16 \<times> u16) option") (exl_color: bool)
  | ExIdentify
  | ExOnOff "endpoint_id list" bool
  | ExBattery bool
  | ExDeviceEndpoints
  | ExElectricityMeter
  | ExTemperature numeric_spec
  | ExHumidity numeric_spec
  | ExIlluminance numeric_spec
  | ExSoilMoisture numeric_spec
  | ExCo2 numeric_spec
  | ExOccupancy
  | ExIasZoneAlarm "string list"
  | ExNumeric string cluster_id attr_id numeric_spec access
  | ExBinary string cluster_id attr_id i64 i64 access
  | ExEnumLookup string cluster_id attr_id "(i64 \<times> string) list" access
  | ExWindowCovering bool bool bool
  | ExLock
  | ExTuyaBase bool bool "u32 option"
  | ExCommandsOnOff "string list" "endpoint_id list"
  | ExCommandsLevelCtrl "string list" "endpoint_id list"
  | ExForcePowerSource power_source_hint
  | ExAddCustomCluster custom_cluster
  | ExUnsupported string string

datatype tuya_kind =
    TkBool bool
  | TkValue numeric_spec
  | TkEnum "(i64 \<times> string) list"
  | TkBitmap "(u8 \<times> string) list"
  | TkString
  | TkRaw
  | TkBehavior string

record tuya_datapoint =
  td_dp :: u8
  td_name :: string
  td_kind :: tuya_kind
  td_endpoint :: "endpoint_id option"
  td_access :: access

definition td_new :: "u8 \<Rightarrow> string \<Rightarrow> tuya_kind \<Rightarrow> tuya_datapoint" where
  "td_new dp name kind =
     \<lparr>td_dp = dp, td_name = name, td_kind = kind, td_endpoint = None, td_access = AccReport\<rparr>"

definition td_writable :: "tuya_datapoint \<Rightarrow> tuya_datapoint" where
  "td_writable d = d\<lparr>td_access := AccReportAndSet\<rparr>"

record reporting =
  rep_attribute :: attr_id
  rep_min_interval :: u16
  rep_max_interval :: u16
  rep_min_change :: u64

definition rep_default :: reporting where
  "rep_default =
     \<lparr>rep_attribute = AttrId 0, rep_min_interval = 10, rep_max_interval = 3600, rep_min_change = 0\<rparr>"

record binding =
  bnd_endpoint :: endpoint_id
  bnd_cluster :: cluster_id
  bnd_reporting :: "reporting list"

definition bnd_default :: binding where
  "bnd_default = \<lparr>bnd_endpoint = EndpointId 1, bnd_cluster = ClusterId 0, bnd_reporting = []\<rparr>"

record white_label =
  wl_model :: string
  wl_vendor :: "string option"
  wl_description :: "string option"
  wl_fingerprints :: "fingerprint list"

record device_def =
  dd_model :: string
  dd_vendor :: string
  dd_description :: string
  dd_match_rules :: match_rules
  dd_extend :: "extend list"
  dd_tuya_datapoints :: "tuya_datapoint list"
  dd_bindings :: "binding list"
  dd_endpoint_names :: "(string \<times> endpoint_id) list"
  dd_white_labels :: "white_label list"
  dd_ota :: bool

definition dd_new :: "string \<Rightarrow> device_def" where
  "dd_new m =
     \<lparr>dd_model = m, dd_vendor = [], dd_description = [],
      dd_match_rules = \<lparr>mr_models = [], mr_fingerprints = []\<rparr>, dd_extend = [],
      dd_tuya_datapoints = [], dd_bindings = [], dd_endpoint_names = [], dd_white_labels = [],
      dd_ota = False\<rparr>"

primrec white_label_of :: "device_match \<Rightarrow> white_label list \<Rightarrow> white_label option" where
  "white_label_of d [] = None"
| "white_label_of d (l # ls) =
     (if list_ex (\<lambda>f. \<not> fp_is_empty f \<and> fp_matches d f) (wl_fingerprints l) then Some l
      else white_label_of d ls)"

definition dd_branding :: "device_match \<Rightarrow> device_def \<Rightarrow> string \<times> string \<times> string" where
  "dd_branding d x =
     (case white_label_of d (dd_white_labels x) of
        Some l \<Rightarrow> (wl_model l,
                  (case wl_vendor l of Some v \<Rightarrow> v | None \<Rightarrow> dd_vendor x),
                  (case wl_description l of Some v \<Rightarrow> v | None \<Rightarrow> dd_description x))
      | None \<Rightarrow> (dd_model x, dd_vendor x, dd_description x))"

definition dd_is_complete :: "device_def \<Rightarrow> bool" where
  "dd_is_complete x \<longleftrightarrow>
     \<not> list_ex (\<lambda>e. case e of ExUnsupported _ _ \<Rightarrow> True | _ \<Rightarrow> False) (dd_extend x)"

section \<open>Scaling is exact where the quotient is an integer\<close>

lemma ns_apply_exact:
  assumes raw: "sint raw = q * sint (if ns_divisor spec = 0 then 1 else ns_divisor spec)"
    and "\<bar>sint raw\<bar> \<le> 2 ^ 53" "\<bar>sint (ns_divisor spec)\<bar> \<le> 2 ^ 53" "\<bar>sint (ns_offset spec)\<bar> \<le> 2 ^ 53"
    and "\<bar>q\<bar> \<le> 2 ^ 53" "\<bar>q + sint (ns_offset spec)\<bar> \<le> 2 ^ 53"
  shows "f64_value (ns_apply spec raw) = of_int (q + sint (ns_offset spec))
    \<and> f64_is_finite (ns_apply spec raw)"
proof -
  define d where "d = (if ns_divisor spec = 0 then 1 else ns_divisor spec)"
  have d: "\<bar>sint d\<bar> \<le> 2 ^ 53" using assms(3) by (simp add: d_def)
  have "d \<noteq> 0" by (simp add: d_def)
  then have "sint d \<noteq> 0" using signed_word_eqI [of d 0] by auto
  then have nz: "of_int (sint d) \<noteq> (0 :: rat)" by (simp only: of_int_eq_0_iff not_False_eq_True)
  have "of_int (sint raw) = of_int q * (of_int (sint d) :: rat)"
    by (simp only: raw d_def of_int_mult)
  then have quot: "f64_value (f64_of_i64 raw) / f64_value (f64_of_i64 d) = of_int q"
    by (simp only: f64_of_i64_exact [OF d] f64_of_i64_exact [OF assms(2)]
        nonzero_mult_div_cancel_right [OF nz])
  have "ns_apply spec raw = f64_nearest (of_int q + of_int (sint (ns_offset spec)))"
    unfolding ns_apply_def Let_def d_def [symmetric] quot f64_of_i64_exact [OF assms(4)]
    using f64_nearest_int [OF assms(5)] by simp
  then show ?thesis using f64_nearest_int [OF assms(6)] by simp
qed

section \<open>Properties of matching\<close>

text \<open>An empty fingerprint claims every device, which is why the index refuses one.\<close>

lemma empty_fingerprint_claims_all: "fp_is_empty f \<Longrightarrow> fp_matches d f"
  by (simp add: fp_is_empty_def fp_matches_def same_field_def fp_endpoints_match_def)

text \<open>Branding never invents a name: it is the definition's or that of a label that names the unit.\<close>

lemma white_label_of_Some:
  "white_label_of d ls = Some l \<Longrightarrow>
     l \<in> set ls \<and> (\<exists>f \<in> set (wl_fingerprints l). \<not> fp_is_empty f \<and> fp_matches d f)"
  by (induction ls) (auto simp: list_ex_iff split: if_splits)

text \<open>
  On lists without repetition \<open>set_equal\<close> is equality of sets. The lists of a device are what it
  reported, and on a list with a repetition the test is not symmetric.
\<close>

lemma set_equal_distinct:
  assumes "distinct a" "distinct b"
  shows "set_equal a b \<longleftrightarrow> set a = set b"
proof
  assume "set_equal a b"
  then have "set a \<subseteq> set b" "card (set a) = card (set b)"
    using assms by (auto simp: set_equal_def list_all_iff distinct_card)
  then show "set a = set b" by (intro card_subset_eq) auto
next
  assume "set a = set b"
  then have "length a = length b" using assms distinct_card by metis
  then show "set_equal a b" using \<open>set a = set b\<close> by (simp add: set_equal_def list_all_iff)
qed

lemma set_equal_repetition: "set_equal [x, x] [x, y] \<and> (x \<noteq> y \<longrightarrow> \<not> set_equal [x, y] [x, x])"
  by (simp add: set_equal_def)

end
