(* ===== verification/Def_Index.thy ===== *)
theory Def_Index
  imports Definition Std_Maps Utf8 "HOL-Library.List_Lexorder" "HOL-Library.Char_ord"
begin

text \<open>
  The definition index, \<open>rszigbee-devices/src/index.rs\<close>: definitions in insertion order and a
  hash table from model string to candidate positions. A reference definition resolves a device
  by searching the list of definitions directly; the index gives the same answer.
\<close>

section \<open>Definitions\<close>

datatype index_error = IxUnreachable string | IxEmptyFingerprint string

record def_index =
  dx_definitions :: "device_def list"
  dx_by_model :: "(string, nat list) hashmap"

definition ix_new :: def_index where
  "ix_new = \<lparr>dx_definitions = [], dx_by_model = []\<rparr>"

definition ix_len :: "def_index \<Rightarrow> nat" where
  "ix_len ix = length (dx_definitions ix)"

definition ix_is_empty :: "def_index \<Rightarrow> bool" where
  "ix_is_empty ix \<longleftrightarrow> dx_definitions ix = []"

definition ix_incomplete :: "def_index \<Rightarrow> nat" where
  "ix_incomplete ix = length (filter (\<lambda>d. \<not> dd_is_complete d) (dx_definitions ix))"

text \<open>The model strings a definition can be found under: its own and those its fingerprints name.\<close>

definition rule_models :: "match_rules \<Rightarrow> string list" where
  "rule_models r = mr_models r @ List.map_filter fp_model_id (mr_fingerprints r)"

text \<open>The keys of a definition, \<open>sort_unstable\<close> and \<open>dedup\<close> included.\<close>

definition ix_keys :: "(string \<Rightarrow> string) \<Rightarrow> match_rules \<Rightarrow> string list" where
  "ix_keys lower r =
     remdups_adj (sort (concat (map (\<lambda>m. [lower m, index_key lower m]) (rule_models r))))"

definition ix_prepend :: "nat \<Rightarrow> string \<Rightarrow> (string, nat list) hashmap \<Rightarrow> (string, nat list) hashmap" where
  "ix_prepend position key m =
     hm_insert key (position # (case hm_get m key of None \<Rightarrow> [] | Some ps \<Rightarrow> ps)) m"

definition ix_insert :: "(string \<Rightarrow> string) \<Rightarrow> device_def \<Rightarrow> def_index \<Rightarrow> index_error + def_index" where
  "ix_insert lower d ix =
     (let rules = dd_match_rules d in
      if mr_models rules = [] \<and> mr_fingerprints rules = [] then Inl (IxUnreachable (dd_model d))
      else if list_ex fp_is_empty (mr_fingerprints rules) then Inl (IxEmptyFingerprint (dd_model d))
      else Inr \<lparr>dx_definitions = dx_definitions ix @ [d],
                dx_by_model = fold (ix_prepend (length (dx_definitions ix))) (ix_keys lower rules)
                  (dx_by_model ix)\<rparr>)"

definition ix_bundled :: "(string \<Rightarrow> string) \<Rightarrow> device_def list \<Rightarrow> def_index" where
  "ix_bundled lower ds =
     fold (\<lambda>d ix. case ix_insert lower d ix of Inl _ \<Rightarrow> ix | Inr ix' \<Rightarrow> ix') ds ix_new"

definition ix_candidates :: "(string \<Rightarrow> string) \<Rightarrow> string \<Rightarrow> def_index \<Rightarrow> nat list option" where
  "ix_candidates lower model ix =
     (case hm_get (dx_by_model ix) (lower model) of
        Some found \<Rightarrow> Some found
      | None \<Rightarrow> hm_get (dx_by_model ix) (index_key lower model))"

definition ix_get :: "'a list \<Rightarrow> nat \<Rightarrow> 'a option" where
  "ix_get xs i = (if i < length xs then Some (xs ! i) else None)"

primrec ix_best_of :: "device_match \<Rightarrow> nat \<Rightarrow> fingerprint list \<Rightarrow> (int \<times> nat) option \<Rightarrow> (int \<times> nat) option" where
  "ix_best_of d position [] best = best"
| "ix_best_of d position (f # fs) best =
     (if \<not> fp_matches d f then ix_best_of d position fs best
      else if (case best of None \<Rightarrow> True | Some (priority, _) \<Rightarrow> fp_priority f > priority)
      then ix_best_of d position fs (Some (fp_priority f, position))
      else ix_best_of d position fs best)"

text \<open>\<open>None\<close> is the early return when a position is not in the list of definitions.\<close>

primrec ix_best ::
  "device_match \<Rightarrow> device_def list \<Rightarrow> nat list \<Rightarrow> (int \<times> nat) option \<Rightarrow> (int \<times> nat) option option" where
  "ix_best d defs [] best = Some best"
| "ix_best d defs (p # ps) best =
     (case ix_get defs p of
        None \<Rightarrow> None
      | Some x \<Rightarrow> ix_best d defs ps (ix_best_of d p (mr_fingerprints (dd_match_rules x)) best))"

primrec ix_by_list :: "string \<Rightarrow> string \<Rightarrow> device_def list \<Rightarrow> nat list \<Rightarrow> device_def option" where
  "ix_by_list model normalised defs [] = None"
| "ix_by_list model normalised defs (p # ps) =
     (case ix_get defs p of
        None \<Rightarrow> None
      | Some x \<Rightarrow>
          if list_ex (\<lambda>m. m = model \<or> m = normalised) (mr_models (dd_match_rules x)) then ix_get defs p
          else ix_by_list model normalised defs ps)"

definition ix_sole :: "device_def list \<Rightarrow> nat list \<Rightarrow> nat option" where
  "ix_sole defs cs =
     (case cs of
        [only] \<Rightarrow> (case ix_get defs only of
            Some x \<Rightarrow> if mr_models (dd_match_rules x) \<noteq> [] then Some only else None
          | None \<Rightarrow> None)
      | _ \<Rightarrow> None)"

definition ix_resolve :: "(string \<Rightarrow> string) \<Rightarrow> device_match \<Rightarrow> def_index \<Rightarrow> device_def option" where
  "ix_resolve lower d ix =
     Option.bind (dm_model_id d) (\<lambda>model.
     Option.bind (ix_candidates lower model ix) (\<lambda>cs.
       case ix_sole (dx_definitions ix) cs of
         Some only \<Rightarrow> ix_get (dx_definitions ix) only
       | None \<Rightarrow>
           (case ix_best d (dx_definitions ix) cs None of
              None \<Rightarrow> None
            | Some (Some (_, position)) \<Rightarrow> ix_get (dx_definitions ix) position
            | Some None \<Rightarrow> ix_by_list model (normalise_model model) (dx_definitions ix) cs)))"

section \<open>The reference\<close>

text \<open>
  A definition is accepted when something can match it and no fingerprint of it is empty. Later
  definitions come first among the candidates.
\<close>

definition def_accepted :: "device_def \<Rightarrow> bool" where
  "def_accepted d \<longleftrightarrow>
     (mr_models (dd_match_rules d) \<noteq> [] \<or> mr_fingerprints (dd_match_rules d) \<noteq> [])
     \<and> \<not> list_ex fp_is_empty (mr_fingerprints (dd_match_rules d))"

definition def_claims :: "(string \<Rightarrow> string) \<Rightarrow> string \<Rightarrow> device_def \<Rightarrow> bool" where
  "def_claims lower key d \<longleftrightarrow>
     (\<exists>m \<in> set (rule_models (dd_match_rules d)). key = lower m \<or> key = index_key lower m)"

definition claimants :: "(string \<Rightarrow> string) \<Rightarrow> string \<Rightarrow> device_def list \<Rightarrow> device_def list" where
  "claimants lower key ds = filter (def_claims lower key) (rev ds)"

text \<open>The fingerprints of a list of definitions that match, each with its definition, in order.\<close>

definition matching_fps :: "device_match \<Rightarrow> device_def list \<Rightarrow> (int \<times> device_def) list" where
  "matching_fps d ds =
     concat (map (\<lambda>x. map (\<lambda>f. (fp_priority f, x))
       (filter (fp_matches d) (mr_fingerprints (dd_match_rules x)))) ds)"

text \<open>The first of the entries of highest priority.\<close>

definition first_best :: "(int \<times> 'a) list \<Rightarrow> 'a option" where
  "first_best ps = map_option snd (find (\<lambda>p. \<forall>q \<in> set ps. fst q \<le> fst p) ps)"

definition choose_def :: "device_match \<Rightarrow> string \<Rightarrow> device_def list \<Rightarrow> device_def option" where
  "choose_def d model cs =
     (if length cs = 1 \<and> mr_models (dd_match_rules (hd cs)) \<noteq> [] then Some (hd cs)
      else case first_best (matching_fps d cs) of
        Some x \<Rightarrow> Some x
      | None \<Rightarrow> find (\<lambda>x. model \<in> set (mr_models (dd_match_rules x))
          \<or> normalise_model model \<in> set (mr_models (dd_match_rules x))) cs)"

definition resolve_spec :: "(string \<Rightarrow> string) \<Rightarrow> device_match \<Rightarrow> device_def list \<Rightarrow> device_def option" where
  "resolve_spec lower d ds =
     (case dm_model_id d of
        None \<Rightarrow> None
      | Some model \<Rightarrow>
          let exact = claimants lower (lower model) ds in
          choose_def d model (if exact \<noteq> [] then exact else claimants lower (index_key lower model) ds))"

section \<open>The table holds the candidates\<close>

definition positions :: "(string \<Rightarrow> string) \<Rightarrow> string \<Rightarrow> device_def list \<Rightarrow> nat list" where
  "positions lower key ds = filter (\<lambda>p. def_claims lower key (ds ! p)) (rev [0..<length ds])"

definition ix_ok :: "(string \<Rightarrow> string) \<Rightarrow> def_index \<Rightarrow> bool" where
  "ix_ok lower ix \<longleftrightarrow> (\<forall>key. (case hm_get (dx_by_model ix) key of None \<Rightarrow> [] | Some ps \<Rightarrow> ps)
       = positions lower key (dx_definitions ix)
     \<and> hm_get (dx_by_model ix) key \<noteq> Some [])"

lemma set_ix_keys: "set (ix_keys lower (dd_match_rules d)) = {k. def_claims lower k d}"
  by (auto simp: ix_keys_def def_claims_def)

lemma distinct_remdups_adj_sorted: "sorted xs \<Longrightarrow> distinct (remdups_adj xs)"
  by (induction xs rule: remdups_adj.induct) (auto dest: order.antisym)

lemma distinct_ix_keys: "distinct (ix_keys lower r)"
  by (simp add: ix_keys_def distinct_remdups_adj_sorted)

lemma fold_prepend:
  assumes "distinct keys"
  shows "hm_get (fold (ix_prepend p) keys m) key =
    (if key \<in> set keys then Some (p # (case hm_get m key of None \<Rightarrow> [] | Some ps \<Rightarrow> ps)) else hm_get m key)"
  using assms by (induction keys arbitrary: m) (auto simp: ix_prepend_def map_simps)

lemma positions_append:
  "positions lower key (ds @ [d]) =
     (if def_claims lower key d then [length ds] else []) @ positions lower key ds"
proof -
  have "filter (\<lambda>p. def_claims lower key ((ds @ [d]) ! p)) (rev [0..<length ds])
      = filter (\<lambda>p. def_claims lower key (ds ! p)) (rev [0..<length ds])"
    by (rule filter_cong) (auto simp: nth_append)
  then show ?thesis by (simp add: positions_def)
qed

lemma ix_insert_cases:
  "ix_insert lower d ix =
     (if def_accepted d then Inr \<lparr>dx_definitions = dx_definitions ix @ [d],
        dx_by_model = fold (ix_prepend (length (dx_definitions ix))) (ix_keys lower (dd_match_rules d))
          (dx_by_model ix)\<rparr>
      else Inl (if mr_models (dd_match_rules d) = [] \<and> mr_fingerprints (dd_match_rules d) = []
        then IxUnreachable (dd_model d) else IxEmptyFingerprint (dd_model d)))"
  by (auto simp: ix_insert_def def_accepted_def Let_def)

lemma ix_insert_ok:
  assumes "ix_ok lower ix" "ix_insert lower d ix = Inr ix'"
  shows "ix_ok lower ix' \<and> dx_definitions ix' = dx_definitions ix @ [d]"
proof -
  have ix': "ix' = \<lparr>dx_definitions = dx_definitions ix @ [d],
      dx_by_model = fold (ix_prepend (length (dx_definitions ix))) (ix_keys lower (dd_match_rules d))
        (dx_by_model ix)\<rparr>"
    using assms(2) by (simp add: ix_insert_cases split: if_splits)
  have "(case hm_get (dx_by_model ix') key of None \<Rightarrow> [] | Some ps \<Rightarrow> ps)
      = positions lower key (dx_definitions ix') \<and> hm_get (dx_by_model ix') key \<noteq> Some []" for key
    using assms(1)
    by (simp add: ix' ix_ok_def fold_prepend [OF distinct_ix_keys] set_ix_keys positions_append)
  then show ?thesis by (simp add: ix_ok_def ix')
qed

lemma ix_new_ok: "ix_ok lower ix_new"
  by (simp add: ix_ok_def ix_new_def positions_def)

lemma ix_bundled_fold:
  "ix_ok lower ix \<Longrightarrow>
   ix_ok lower (fold (\<lambda>d ix. case ix_insert lower d ix of Inl _ \<Rightarrow> ix | Inr ix' \<Rightarrow> ix') ds ix)
   \<and> dx_definitions (fold (\<lambda>d ix. case ix_insert lower d ix of Inl _ \<Rightarrow> ix | Inr ix' \<Rightarrow> ix') ds ix)
     = dx_definitions ix @ filter def_accepted ds"
proof (induction ds arbitrary: ix)
  case Nil
  then show ?case by simp
next
  case (Cons d ds)
  show ?case
  proof (cases "ix_insert lower d ix")
    case (Inl e)
    then have "\<not> def_accepted d" by (auto simp: ix_insert_cases)
    with Inl Cons show ?thesis by simp
  next
    case (Inr ix')
    then have "def_accepted d" by (auto simp: ix_insert_cases split: if_splits)
    with Inr Cons.IH [of ix'] ix_insert_ok [OF Cons.prems Inr] show ?thesis by simp
  qed
qed

section \<open>Choosing among the candidates\<close>

lemma ix_get_Some [simp]: "p < length xs \<Longrightarrow> ix_get xs p = Some (xs ! p)"
  by (simp add: ix_get_def)

text \<open>The best entry so far, as the loop keeps it: the first of highest priority.\<close>

definition better :: "(int \<times> 'a) option \<Rightarrow> int \<times> 'a \<Rightarrow> (int \<times> 'a) option" where
  "better best q = (case best of None \<Rightarrow> Some q | Some b \<Rightarrow> if fst b < fst q then Some q else Some b)"

lemma ix_best_of_fold:
  "ix_best_of d p fs best = foldl better best (map (\<lambda>f. (fp_priority f, p)) (filter (fp_matches d) fs))"
  by (induction fs arbitrary: best) (auto simp: better_def split: option.split)

lemma ix_best_fold:
  assumes "\<forall>p \<in> set cs. p < length defs"
  shows "ix_best d defs cs best = Some (foldl better best (concat (map (\<lambda>p.
    map (\<lambda>f. (fp_priority f, p)) (filter (fp_matches d) (mr_fingerprints (dd_match_rules (defs ! p))))) cs)))"
  using assms by (induction cs arbitrary: best) (simp_all add: ix_best_of_fold)

lemma foldl_better_map:
  "foldl better (map_option (apsnd g) best) (map (apsnd g) qs)
     = map_option (apsnd g) (foldl better best qs)"
proof (induction qs arbitrary: best)
  case Nil
  then show ?case by simp
next
  case (Cons q qs)
  have "better (map_option (apsnd g) best) (apsnd g q)
      = map_option (apsnd g) (better best q)"
    by (cases best) (simp_all add: better_def)
  with Cons [of "better best q"] show ?case by simp
qed

lemma foldl_better_Some:
  "foldl better (Some b) qs =
     (case find (\<lambda>p. \<forall>q \<in> set (b # qs). fst q \<le> fst p) (b # qs) of Some p \<Rightarrow> Some p | None \<Rightarrow> None)
   \<and> find (\<lambda>p. \<forall>q \<in> set (b # qs). fst q \<le> fst p) (b # qs) \<noteq> None"
proof (induction qs arbitrary: b)
  case Nil
  then show ?case by simp
next
  case (Cons a qs)
  show ?case
  proof (cases "fst b < fst a")
    case True
    have p: "(\<forall>q \<in> set (b # a # qs). fst q \<le> fst p) \<longleftrightarrow> (\<forall>q \<in> set (a # qs). fst q \<le> fst p)" for p :: "int \<times> 'a"
      using True by auto
    have "\<not> (\<forall>q \<in> set (a # qs). fst q \<le> fst b)" using True by auto
    then have "find (\<lambda>p. \<forall>q \<in> set (b # a # qs). fst q \<le> fst p) (b # a # qs)
        = find (\<lambda>p. \<forall>q \<in> set (a # qs). fst q \<le> fst p) (a # qs)"
      unfolding p by (subst find.simps(2)) (simp only: if_False)
    with Cons [of a] True show ?thesis by (simp only: foldl.simps better_def option.case if_True simp_thms)
  next
    case False
    have p: "(\<forall>q \<in> set (b # a # qs). fst q \<le> fst p) \<longleftrightarrow> (\<forall>q \<in> set (b # qs). fst q \<le> fst p)" for p :: "int \<times> 'a"
      using False by auto
    have "find (\<lambda>p. \<forall>q \<in> set (b # a # qs). fst q \<le> fst p) (b # a # qs)
        = find (\<lambda>p. \<forall>q \<in> set (b # qs). fst q \<le> fst p) (b # qs)"
    proof (cases "\<forall>q \<in> set (b # qs). fst q \<le> fst b")
      case True
      show ?thesis unfolding p find.simps(2) if_P [OF True] ..
    next
      case nb: False
      then have na: "\<not> (\<forall>q \<in> set (b # qs). fst q \<le> fst a)" using False by force
      show ?thesis unfolding p find.simps(2) if_not_P [OF nb] if_not_P [OF na] ..
    qed
    with Cons [of b] False show ?thesis by (simp only: foldl.simps better_def option.case if_False simp_thms)
  qed
qed

lemma first_best_foldl: "map_option snd (foldl better None qs) = first_best qs"
proof (cases qs)
  case Nil
  then show ?thesis by (simp add: first_best_def)
next
  case (Cons b qs')
  have "foldl better None qs = foldl better (Some b) qs'" by (simp add: Cons better_def)
  with foldl_better_Some [of b qs'] show ?thesis
    by (auto simp only: Cons first_best_def split: option.splits)
qed

lemma ix_by_list_find:
  assumes "\<forall>p \<in> set cs. p < length defs"
  shows "ix_by_list model normalised defs cs =
    find (\<lambda>x. model \<in> set (mr_models (dd_match_rules x)) \<or> normalised \<in> set (mr_models (dd_match_rules x)))
      (map (\<lambda>p. defs ! p) cs)"
  using assms by (induction cs) (auto simp: list_ex_iff)

lemma claimants_positions: "claimants lower key ds = map (\<lambda>p. ds ! p) (positions lower key ds)"
proof -
  have "map (\<lambda>p. ds ! p) (rev [0..<length ds]) = rev ds"
    by (simp add: map_nth flip: rev_map)
  then show ?thesis by (simp add: claimants_def positions_def filter_map comp_def flip: \<open>_ = rev ds\<close>)
qed

lemma positions_bound: "p \<in> set (positions lower key ds) \<Longrightarrow> p < length ds"
  by (auto simp: positions_def)

lemma ix_ok_get:
  assumes "ix_ok lower ix"
  shows "hm_get (dx_by_model ix) key =
    (if positions lower key (dx_definitions ix) = [] then None else Some (positions lower key (dx_definitions ix)))"
  using assms [unfolded ix_ok_def, rule_format, of key]
  by (cases "hm_get (dx_by_model ix) key") auto

lemma ix_sole_alt:
  assumes "\<forall>p \<in> set cs. p < length defs"
  shows "ix_sole defs cs =
    (if length cs = 1 \<and> mr_models (dd_match_rules (defs ! hd cs)) \<noteq> [] then Some (hd cs) else None)"
proof (cases cs)
  case Nil
  then show ?thesis by (simp add: ix_sole_def)
next
  case (Cons p ps)
  then show ?thesis using assms by (cases ps) (simp_all add: ix_sole_def)
qed

lemma matching_fps_positions:
  "matching_fps d (map (\<lambda>p. defs ! p) cs) = map (apsnd (\<lambda>p. defs ! p)) (concat (map (\<lambda>p.
    map (\<lambda>f. (fp_priority f, p)) (filter (fp_matches d) (mr_fingerprints (dd_match_rules (defs ! p))))) cs))"
  by (simp add: matching_fps_def map_concat comp_def)

lemma ix_best_spec:
  assumes "\<forall>p \<in> set cs. p < length defs"
  shows "\<exists>best. ix_best d defs cs None = Some best
    \<and> map_option (\<lambda>b. defs ! snd b) best = first_best (matching_fps d (map (\<lambda>p. defs ! p) cs))
    \<and> (\<forall>b. best = Some b \<longrightarrow> snd b < length defs)"
proof -
  let ?qs = "concat (map (\<lambda>p.
    map (\<lambda>f. (fp_priority f, p)) (filter (fp_matches d) (mr_fingerprints (dd_match_rules (defs ! p))))) cs)"
  have 1: "ix_best d defs cs None = Some (foldl better None ?qs)" by (rule ix_best_fold [OF assms])
  have "first_best (matching_fps d (map (\<lambda>p. defs ! p) cs))
      = map_option snd (foldl better (map_option (apsnd (\<lambda>p. defs ! p)) None) (map (apsnd (\<lambda>p. defs ! p)) ?qs))"
    by (simp add: first_best_foldl matching_fps_positions)
  then have 2: "map_option (\<lambda>b. defs ! snd b) (foldl better None ?qs)
      = first_best (matching_fps d (map (\<lambda>p. defs ! p) cs))"
    by (simp only: foldl_better_map option.map_comp comp_def snd_apsnd)
  have "foldl better best qs = Some b \<Longrightarrow> best = Some b \<or> b \<in> set qs" for best qs and b :: "int \<times> nat"
    by (induction qs arbitrary: best) (auto simp: better_def split: option.splits if_splits)
  then have "foldl better None ?qs = Some b \<Longrightarrow> b \<in> set ?qs" for b by blast
  then have "foldl better None ?qs = Some b \<Longrightarrow> snd b < length defs" for b
    using assms by fastforce
  with 1 2 show ?thesis by blast
qed

lemma ix_resolve_spec:
  assumes ok: "ix_ok lower ix"
  shows "ix_resolve lower d ix = resolve_spec lower d (dx_definitions ix)"
proof (cases "dm_model_id d")
  case None
  then show ?thesis by (simp add: ix_resolve_def resolve_spec_def)
next
  case (Some model)
  let ?defs = "dx_definitions ix"
  let ?exact = "positions lower (lower model) ?defs"
  define cs where "cs = (if ?exact \<noteq> [] then ?exact else positions lower (index_key lower model) ?defs)"
  have cands: "ix_candidates lower model ix = (if cs = [] then None else Some cs)"
    by (simp add: ix_candidates_def ix_ok_get [OF ok] cs_def)
  have bound: "\<forall>p \<in> set cs. p < length ?defs"
    using positions_bound by (auto simp: cs_def)
  have ref: "(if claimants lower (lower model) ?defs \<noteq> [] then claimants lower (lower model) ?defs
      else claimants lower (index_key lower model) ?defs) = map (\<lambda>p. ?defs ! p) cs"
    by (simp add: claimants_positions cs_def)
  have spec: "resolve_spec lower d ?defs =
      (if length cs = 1 \<and> mr_models (dd_match_rules (?defs ! hd cs)) \<noteq> [] then Some (?defs ! hd cs)
       else case first_best (matching_fps d (map (\<lambda>p. ?defs ! p) cs)) of
         Some x \<Rightarrow> Some x
       | None \<Rightarrow> ix_by_list model (normalise_model model) ?defs cs)"
    unfolding resolve_spec_def Some option.case Let_def ref
    using hd_map [of cs "\<lambda>p. ?defs ! p"]
    by (cases "cs = []") (auto simp: choose_def_def ix_by_list_find [OF bound] split: option.split)
  show ?thesis
  proof (cases "cs = []")
    case True
    then show ?thesis
      by (simp add: spec ix_resolve_def Some cands matching_fps_def first_best_def)
  next
    case False
    obtain best where best: "ix_best d ?defs cs None = Some best"
      "map_option (\<lambda>b. ?defs ! snd b) best = first_best (matching_fps d (map (\<lambda>p. ?defs ! p) cs))"
      "\<forall>b. best = Some b \<longrightarrow> snd b < length ?defs"
      using ix_best_spec [OF bound] by blast
    have res: "ix_resolve lower d ix = (case ix_sole ?defs cs of
         Some only \<Rightarrow> ix_get ?defs only
       | None \<Rightarrow> (case best of
           None \<Rightarrow> ix_by_list model (normalise_model model) ?defs cs
         | Some b \<Rightarrow> ix_get ?defs (snd b)))"
      by (cases best) (simp_all add: ix_resolve_def Some cands False best(1) split: option.split prod.split)
    have hd: "hd cs < length ?defs" using bound False by simp
    show ?thesis
      unfolding res spec ix_sole_alt [OF bound] best(2) [symmetric]
      using best(3) hd by (cases best) auto
  qed
qed

section \<open>Properties\<close>

text \<open>
  C9: the hash table and the loops over positions resolve every device to the definition a direct
  search of the accepted definitions gives: the candidates are the definitions that claim the
  reported string, exactly or else normalised, the latest first; a sole candidate with a model
  list wins at once; otherwise the first matching fingerprint of highest priority; otherwise the
  first candidate that lists the model.
\<close>

theorem def_index_resolves_as_search:
  "ix_resolve lower d (ix_bundled lower ds) = resolve_spec lower d (filter def_accepted ds)"
  using ix_bundled_fold [OF ix_new_ok, of lower ds]
  by (simp add: ix_bundled_def ix_resolve_spec ix_new_def)

text \<open>
  a device is only ever given a definition that was accepted into the index and that names a
  model string with the key of the one the device reported, exactly or normalised. A device that
  reported no model is given none.
\<close>

theorem def_index_resolves_claimant:
  assumes "ix_resolve lower d (ix_bundled lower ds) = Some x"
  shows "\<exists>model. dm_model_id d = Some model \<and> x \<in> set ds \<and> def_accepted x
    \<and> (def_claims lower (lower model) x \<or> def_claims lower (index_key lower model) x)"
proof -
  have spec: "resolve_spec lower d (filter def_accepted ds) = Some x"
    using assms ix_bundled_fold [OF ix_new_ok, of lower ds]
    by (simp add: ix_bundled_def ix_resolve_spec ix_new_def)
  then obtain model where model: "dm_model_id d = Some model"
    by (auto simp: resolve_spec_def split: option.splits)
  define cs where "cs = (let exact = claimants lower (lower model) (filter def_accepted ds)
    in if exact \<noteq> [] then exact else claimants lower (index_key lower model) (filter def_accepted ds))"
  have mem: "y \<in> set cs \<Longrightarrow> y \<in> set ds \<and> def_accepted y
      \<and> (def_claims lower (lower model) y \<or> def_claims lower (index_key lower model) y)" for y
    by (auto simp: cs_def claimants_def Let_def split: if_splits)
  have "first_best (matching_fps d cs) = Some y \<Longrightarrow> y \<in> set cs" for y
    by (auto simp: first_best_def matching_fps_def find_Some_iff in_set_conv_nth [symmetric]
        dest!: nth_mem)
  moreover have "length cs = 1 \<Longrightarrow> hd cs \<in> set cs" by (cases cs) auto
  moreover have "find P cs = Some y \<Longrightarrow> y \<in> set cs" for P y
    by (auto simp: find_Some_iff)
  ultimately have "x \<in> set cs"
    using spec unfolding resolve_spec_def model option.case cs_def [unfolded Let_def, symmetric] Let_def
    by (auto simp: choose_def_def split: if_splits option.splits)
  with mem model show ?thesis by blast
qed

definition example_def :: device_def where
  "example_def = (dd_new ''X'')\<lparr>dd_match_rules := \<lparr>mr_models = [''X''], mr_fingerprints = []\<rparr>\<rparr>"

theorem def_index_resolves_claimant_witness:
  "\<exists>model. dm_model_id (dm_for_model ''X'') = Some model \<and> example_def \<in> set [example_def]
    \<and> def_accepted example_def
    \<and> (def_claims id (id model) example_def \<or> def_claims id (index_key id model) example_def)"
proof -
  have acc: "def_accepted example_def" by (simp add: def_accepted_def example_def_def)
  have claims: "def_claims id ''X'' example_def"
    by (simp add: def_claims_def example_def_def rule_models_def map_filter_simps)
  have "resolve_spec id (dm_for_model ''X'') [example_def] = Some example_def"
    by (simp add: resolve_spec_def dm_for_model_def claimants_def claims choose_def_def)
      (simp add: example_def_def)
  then have "ix_resolve id (dm_for_model ''X'') (ix_bundled id [example_def]) = Some example_def"
    using ix_bundled_fold [OF ix_new_ok, of id "[example_def]"] acc
    by (simp add: ix_bundled_def ix_resolve_spec ix_new_def)
  from def_index_resolves_claimant [OF this] show ?thesis .
qed

end
