(* ===== verification/Zcl_Messages.thy ===== *)
theory Zcl_Messages
  imports Zcl_Frame Zcl_Registry Adapter_Tx
begin

text \<open>
  Between named commands and frames: the encoder of \<open>rszigbee-core/src/runtime/encode.rs\<close>, with
  the request types of \<open>command.rs\<close>, and the decoder of \<open>runtime/decode.rs\<close> with the message
  types of \<open>event.rs\<close>. An encoding error carries the codec's error where the code carries its
  text.
\<close>

section \<open>Requests and messages\<close>

record zcl_command =
  zc_endpoint :: "endpoint_id option"
  zc_cluster :: cluster_id
  zc_command :: command_id
  zc_params :: "(string \<times> zcl_value) list"
  zc_manufacturer :: "u16 option"
  zc_disable_default_response :: bool

record zcl_attribute_write =
  za_endpoint :: "endpoint_id option"
  za_cluster :: cluster_id
  za_attributes :: "(attr_id \<times> zcl_value) list"
  za_manufacturer :: "u16 option"

datatype encode_error =
    EeUnknownCluster u16
  | EeUnknownCommand u16 u8
  | EeUnknownAttribute u16 u16
  | EeMissingParameter string string
  | EeUnknownParameter string string
  | EeBadValue string codec_error
  | EeNoAttributes
  | EeUntypedParameters string

datatype parse_failure =
    PfCodec codec_error
  | PfUnknownCluster cluster_id
  | PfUnknownCommand u8
  | PfUnknownAttribute u16

datatype zcl_message_kind =
    MkAttributes "(u16 \<times> zcl_value) list"
  | MkCommand (mk_id: u8) (mk_name: "string option") (mk_params: "(string \<times> zcl_value) list")
  | MkDefaultResponse (mk_command: u8) (mk_status: u8)

record zcl_message =
  zm_ieee :: ieee
  zm_endpoint :: endpoint_id
  zm_cluster :: cluster_id
  zm_kind :: zcl_message_kind
  zm_link_quality :: "u8 option"

section \<open>Encoding\<close>

primrec encode_params ::
  "string \<Rightarrow> (string \<times> zcl_value) list \<Rightarrow> param_def list \<Rightarrow> writer \<Rightarrow> encode_error + writer" where
  "encode_params name supplied [] w = Inr w"
| "encode_params name supplied (p # ps) w =
     (case map_of supplied (pd_name p) of
        None \<Rightarrow> Inl (EeMissingParameter name (pd_name p))
      | Some v \<Rightarrow>
          (case encode_value v (pd_ty p) w of
             Inl e \<Rightarrow> Inl (EeBadValue (pd_name p) e)
           | Inr w' \<Rightarrow> encode_params name supplied ps w'))"

definition enc_command ::
  "cluster_registry \<Rightarrow> ieee \<Rightarrow> u8 \<Rightarrow> zcl_command \<Rightarrow> encode_error + u8 list" where
  "enc_command registry device tsn req =
     (case cr_get registry (Some device) (zc_cluster req) of
        None \<Rightarrow> Inl (EeUnknownCluster (cluster_raw (zc_cluster req)))
      | Some cluster \<Rightarrow>
     (case bt_get (cd_commands cluster) (command_raw (zc_command req)) of
        None \<Rightarrow> Inl (EeUnknownCommand (cluster_raw (zc_cluster req)) (command_raw (zc_command req)))
      | Some d \<Rightarrow>
          if cmd_untyped_parameters d then Inl (EeUntypedParameters (cmd_name d))
          else case find (\<lambda>(name, _). \<not> list_ex (\<lambda>p. pd_name p = name) (cmd_params d)) (zc_params req) of
            Some (name, _) \<Rightarrow> Inl (EeUnknownParameter (cmd_name d) name)
          | None \<Rightarrow>
     (case encode_params (cmd_name d) (zc_params req) (cmd_params d) writer_new of
        Inl e \<Rightarrow> Inl e
      | Inr w \<Rightarrow>
          let header = zh_with_ddr (zc_disable_default_response req) (zh_new_command tsn (zc_command req));
              header = (case zc_manufacturer req of
                 Some code \<Rightarrow> zh_with_manufacturer (ManufacturerCode code) header | None \<Rightarrow> header)
          in Inr (zf_encode \<lparr>zf_header = header, zf_payload = w_buf w\<rparr>))))"

definition WRITE_ATTRIBUTES :: command_id where
  "WRITE_ATTRIBUTES = CommandId 0x02"

primrec encode_attributes ::
  "cluster_registry \<Rightarrow> ieee \<Rightarrow> cluster_id \<Rightarrow> (attr_id \<times> zcl_value) list \<Rightarrow> writer \<Rightarrow> encode_error + writer" where
  "encode_attributes registry device cluster [] w = Inr w"
| "encode_attributes registry device cluster (av # avs) w =
     (case cr_attr registry (Some device) cluster (fst av) of
        None \<Rightarrow> Inl (EeUnknownAttribute (cluster_raw cluster) (attr_raw (fst av)))
      | Some d \<Rightarrow>
          let w = w_u16_le (attr_raw (fst av)) w; w = w_u8 (zt_to_u8 (ad_ty d)) w in
          (case encode_value (snd av) (ad_ty d) w of
             Inl e \<Rightarrow> Inl (EeBadValue (ad_name d) e)
           | Inr w \<Rightarrow> encode_attributes registry device cluster avs w))"

definition enc_attribute_write ::
  "cluster_registry \<Rightarrow> ieee \<Rightarrow> u8 \<Rightarrow> zcl_attribute_write \<Rightarrow> encode_error + u8 list" where
  "enc_attribute_write registry device tsn req =
     (if za_attributes req = [] then Inl EeNoAttributes
      else case encode_attributes registry device (za_cluster req) (za_attributes req) writer_new of
        Inl e \<Rightarrow> Inl e
      | Inr w \<Rightarrow>
          let header = zh_new_global tsn WRITE_ATTRIBUTES;
              header = (case za_manufacturer req of
                 Some code \<Rightarrow> zh_with_manufacturer (ManufacturerCode code) header | None \<Rightarrow> header)
          in Inr (zf_encode \<lparr>zf_header = header, zf_payload = w_buf w\<rparr>))"

record report_record =
  rr_attribute :: attr_id
  rr_ty :: zcl_type
  rr_min_interval :: u16
  rr_max_interval :: u16
  rr_min_change :: u64

fun is_analog :: "zcl_type \<Rightarrow> bool" where
  "is_analog (TUint _) = True"
| "is_analog (TInt _) = True"
| "is_analog TSingle = True"
| "is_analog (Time _) = True"
| "is_analog _ = False"

definition report_change :: "report_record \<Rightarrow> zcl_value" where
  "report_change r =
     (case rr_ty r of
        TInt _ \<Rightarrow> VInt (if unat (rr_min_change r) < 2 ^ 63 then rr_min_change r else 0x7fffffffffffffff)
      | _ \<Rightarrow> VUint (rr_min_change r))"

primrec encode_reports :: "report_record list \<Rightarrow> writer \<Rightarrow> codec_error + writer" where
  "encode_reports [] w = Inr w"
| "encode_reports (r # rs) w =
     (let w = w_u8 0x00 w;
          w = w_u16_le (attr_raw (rr_attribute r)) w;
          w = w_u8 (zt_to_u8 (rr_ty r)) w;
          w = w_u16_le (rr_min_interval r) w;
          w = w_u16_le (rr_max_interval r) w
      in if is_analog (rr_ty r)
         then (case encode_value (report_change r) (rr_ty r) w of
                 Inl e \<Rightarrow> Inl e | Inr w \<Rightarrow> encode_reports rs w)
         else encode_reports rs w)"

definition enc_configure_reporting :: "u8 \<Rightarrow> report_record list \<Rightarrow> codec_error + u8 list" where
  "enc_configure_reporting tsn records =
     (case encode_reports records writer_new of
        Inl e \<Rightarrow> Inl e
      | Inr w \<Rightarrow> Inr (zf_encode \<lparr>zf_header = zh_new_global tsn (CommandId 0x06), zf_payload = w_buf w\<rparr>))"

definition enc_planned :: "u8 \<Rightarrow> command_id \<Rightarrow> u8 list \<Rightarrow> u8 list" where
  "enc_planned tsn command payload =
     zf_encode \<lparr>zf_header = zh_new_command tsn command, zf_payload = payload\<rparr>"

definition enc_ota_no_image :: "u8 \<Rightarrow> u8 list" where
  "enc_ota_no_image tsn =
     zf_encode \<lparr>zf_header = (zh_new_command tsn (CommandId 0x02))\<lparr>zh_direction := ServerToClient,
       zh_disable_default_response := True\<rparr>, zf_payload = [0x98]\<rparr>"

definition enc_read_attributes :: "u8 \<Rightarrow> attr_id list \<Rightarrow> u8 list" where
  "enc_read_attributes tsn attributes =
     zf_encode \<lparr>zf_header = zh_new_global tsn (CommandId 0x00),
       zf_payload = w_buf (fold (\<lambda>a. w_u16_le (attr_raw a)) attributes writer_new)\<rparr>"

definition enc_probe :: "u8 \<Rightarrow> u8 list" where
  "enc_probe tsn =
     zf_encode \<lparr>zf_header = zh_new_global tsn (CommandId 0x00),
       zf_payload = w_buf (w_u16_le (attr_raw (AttrId 0x0000)) writer_new)\<rparr>"

definition PROBE_CLUSTER :: cluster_id where
  "PROBE_CLUSTER = ClusterId 0x0000"

section \<open>A read never moves the cursor back\<close>

definition rd_mono :: "('e, 'a) rd \<Rightarrow> bool" where
  "rd_mono m \<longleftrightarrow> (\<forall>r. rd_remaining (snd (m r)) \<le> rd_remaining r)"

named_theorems mono_intros \<open>reads that do not move back\<close>

lemma rd_monoD: "rd_mono m \<Longrightarrow> m r = (x, r') \<Longrightarrow> rd_remaining r' \<le> rd_remaining r"
  unfolding rd_mono_def by (metis snd_conv)

lemma rd_monoI: "(\<And>r. rd_remaining (snd (m r)) \<le> rd_remaining r) \<Longrightarrow> rd_mono m"
  by (simp add: rd_mono_def)

lemma rd_mono_return [mono_intros]: "rd_mono (rd_return a)"
  by (simp add: rd_mono_def)

lemma rd_mono_fail [mono_intros]: "rd_mono (rd_fail e)"
  by (simp add: rd_mono_def)

lemma rd_mono_bind [mono_intros]:
  assumes "rd_mono m" "\<And>a. rd_mono (f a)"
  shows "rd_mono (rd_bind m f)"
proof (rule rd_monoI)
  fix r
  show "rd_remaining (snd (rd_bind m f r)) \<le> rd_remaining r"
  proof (cases "m r")
    case (Pair v r1)
    have 1: "rd_remaining r1 \<le> rd_remaining r" by (rule rd_monoD [OF assms(1) Pair])
    show ?thesis
    proof (cases v)
      case (Inl e)
      with Pair 1 show ?thesis by (simp add: rd_bind_def)
    next
      case (Inr a)
      have "rd_remaining (snd (f a r1)) \<le> rd_remaining r1"
        using assms(2) [of a] by (simp add: rd_mono_def)
      with Pair Inr 1 show ?thesis by (simp add: rd_bind_def)
    qed
  qed
qed

lemma rd_mono_map_err [mono_intros]: "rd_mono m \<Longrightarrow> rd_mono (rd_map_err g m)"
  by (simp add: rd_mono_def snd_rd_map_err)

lemma rd_mono_take [mono_intros]: "rd_mono (rd_take n)"
  by (rule rd_monoI) (auto simp: rd_take_def rd_remaining_def Let_def)

lemma rd_mono_u8 [mono_intros]: "rd_mono rd_u8"
  unfolding rd_u8_def
  by (intro rd_mono_bind rd_mono_take) (simp add: rd_mono_def split: list.splits)

lemma rd_mono_fixed [mono_intros]:
  "rd_mono (rd_bytes n)" "rd_mono rd_u16_le" "rd_mono rd_u32_le" "rd_mono rd_u64_le" "rd_mono rd_ieee_le"
  unfolding rd_bytes_def rd_u16_le_def rd_u32_le_def rd_ieee_le_def rd_u64_le_def
  by (intro mono_intros)+

lemma rd_mono_at: "(\<And>r. m r = g r r) \<Longrightarrow> (\<And>r0. rd_mono (g r0)) \<Longrightarrow> rd_mono m"
  by (simp add: rd_mono_def)

lemma rd_mono_choice:
  "rd_mono (\<lambda>r. if p r then m r else n r)" if "rd_mono m" "rd_mono n"
  using that by (simp add: rd_mono_def)

lemma rd_mono_err_at: "rd_mono (\<lambda>r. (Inl (e r), r))"
  by (simp add: rd_mono_def)

lemma rd_mono_octstr [mono_intros]: "rd_mono rd_octstr"
proof (rule rd_mono_at [where g = "\<lambda>r0. rd_bind rd_u8
       (\<lambda>len r.
          if len = 0xff then rd_return None r
          else if rd_remaining r < unat len
          then (Inl (BadLength (unat len) (rd_remaining r) (rd_pos r0)), r)
          else rd_bind (rd_take (unat len)) (\<lambda>b. rd_return (Some b)) r)"])
qed (intro mono_intros rd_mono_choice rd_mono_err_at | rule rd_octstr_def)+

lemma rd_mono_string [mono_intros]: "rd_mono rd_string"
proof (rule rd_mono_at [where g = "\<lambda>r0. rd_bind rd_octstr
       (\<lambda>v. case v of
          None \<Rightarrow> rd_return None
        | Some raw \<Rightarrow>
            (case from_utf8 raw of
               Some s \<Rightarrow> rd_return (Some s)
             | None \<Rightarrow> rd_fail (BadUtf8 (rd_pos r0))))"])
qed (rule rd_string_def, auto intro!: mono_intros split: option.splits)

lemma rd_mono_uint [mono_intros]: "rd_mono (read_uint n)"
  unfolding read_uint_def by (intro mono_intros)

lemma rd_mono_rest: "rd_mono (\<lambda>r. case rd_rest r of (b, r') \<Rightarrow> (Inr (f b), r'))"
  by (rule rd_monoI) (auto simp: rd_rest_def rd_remaining_def)

lemma rd_mono_decode_value [mono_intros]: "rd_mono (decode_value ty)"
  by (cases ty) (auto intro!: mono_intros rd_mono_rest)

section \<open>Decoding\<close>

definition READ_ATTRIBUTES_RESPONSE :: u8 where "READ_ATTRIBUTES_RESPONSE = 0x01"
definition REPORT_ATTRIBUTES :: u8 where "REPORT_ATTRIBUTES = 0x0a"
definition DEFAULT_RESPONSE :: u8 where "DEFAULT_RESPONSE = 0x0b"

abbreviation pq :: "(codec_error, 'a) rd \<Rightarrow> (parse_failure, 'a) rd" where
  "pq \<equiv> rd_map_err (\<lambda>e _. PfCodec e)"

text \<open>
  One turn of the loop over attribute records: \<open>None\<close> for a record whose status says there is no
  value. The registry is consulted only to log a type it did not expect.
\<close>

definition attr_record :: "bool \<Rightarrow> (parse_failure, (u16 \<times> zcl_value) option) rd" where
  "attr_record with_status =
     rd_bind (pq rd_u16_le) (\<lambda>i.
     rd_bind (if with_status then rd_bind (pq rd_u8) (\<lambda>status. rd_return (status \<noteq> 0))
              else rd_return False) (\<lambda>skip.
       if skip then rd_return None
       else rd_bind (pq rd_u8) (\<lambda>tag.
            rd_bind (pq (decode_value (zt_from_u8 tag))) (\<lambda>v. rd_return (Some (i, v))))))"

lemma attr_record_remaining:
  assumes "attr_record with_status r = (Inr v, r')"
  shows "rd_remaining r' < rd_remaining r"
proof -
  define rest where "rest = (\<lambda>i :: u16. rd_bind (if with_status then rd_bind (pq rd_u8) (\<lambda>status. rd_return (status \<noteq> 0))
              else rd_return False) (\<lambda>skip.
       if skip then rd_return None
       else rd_bind (pq rd_u8) (\<lambda>tag.
            rd_bind (pq (decode_value (zt_from_u8 tag))) (\<lambda>v. rd_return (Some (i, v))))))"
  have mono: "rd_mono (rest i)" for i
    unfolding rest_def by (auto intro!: mono_intros)
  from assms obtain i r1 where i: "rd_u16_le r = (Inr i, r1)" "rest i r1 = (Inr v, r')"
    unfolding attr_record_def rest_def [symmetric] by (auto simp: rd_bind_eq_Inr)
  from i(1) have "rd_remaining r1 + 2 = rd_remaining r"
    by (auto simp: rd_u16_le_def rd_bind_eq_Inr dest: rd_take_remaining)
  with rd_monoD [OF mono i(2)] show ?thesis by simp
qed

function dec_attributes :: "bool \<Rightarrow> reader \<Rightarrow> parse_failure + (u16 \<times> zcl_value) list" where
  "dec_attributes with_status r =
     (if rd_is_empty r then Inr []
      else case attr_record with_status r of
        (Inl e, _) \<Rightarrow> Inl e
      | (Inr v, r') \<Rightarrow>
          (case dec_attributes with_status r' of
             Inl e \<Rightarrow> Inl e
           | Inr out \<Rightarrow> Inr (case v of None \<Rightarrow> out | Some x \<Rightarrow> x # out)))"
  by auto
termination
  by (relation "measure (\<lambda>(_, r). rd_remaining r)") (auto dest: attr_record_remaining [OF sym])

declare dec_attributes.simps [simp del]

text \<open>Parameters are read until one cannot be.\<close>

primrec dec_params :: "param_def list \<Rightarrow> reader \<Rightarrow> (string \<times> zcl_value) list" where
  "dec_params [] r = []"
| "dec_params (p # ps) r =
     (case decode_value (pd_ty p) r of
        (Inr v, r') \<Rightarrow> (pd_name p, v) # dec_params ps r'
      | (Inl _, _) \<Rightarrow> [])"

definition dec_global :: "u8 \<Rightarrow> reader \<Rightarrow> parse_failure + zcl_message_kind" where
  "dec_global command r =
     (if command = REPORT_ATTRIBUTES \<or> command = READ_ATTRIBUTES_RESPONSE
      then (case dec_attributes (command = READ_ATTRIBUTES_RESPONSE) r of
              Inl e \<Rightarrow> Inl e | Inr as \<Rightarrow> Inr (MkAttributes as))
      else if command = DEFAULT_RESPONSE
      then fst (rd_bind (pq rd_u8) (\<lambda>c. rd_bind (pq rd_u8) (\<lambda>s. rd_return (MkDefaultResponse c s))) r)
      else Inl (PfUnknownCommand command))"

definition dec_zcl_message ::
  "cluster_registry \<Rightarrow> ieee \<Rightarrow> zcl_rx \<Rightarrow> parse_failure + zcl_message" where
  "dec_zcl_message registry i rx =
     (case zf_decode (zrx_frame rx) of
        Inl e \<Rightarrow> Inl (PfCodec e)
      | Inr frame \<Rightarrow>
     let r = reader_new (zf_payload frame); command = command_raw (zh_command (zf_header frame)) in
     (case (case zh_frame_type (zf_header frame) of
              Global \<Rightarrow> dec_global command r
            | Specific \<Rightarrow>
                (case cr_get registry (Some i) (zrx_cluster rx) of
                   None \<Rightarrow> Inl (PfUnknownCluster (zrx_cluster rx))
                 | Some cluster \<Rightarrow>
                     let table = (if zh_direction (zf_header frame) = ServerToClient
                       then cd_responses cluster else cd_commands cluster)
                     in (case bt_get table command of
                           None \<Rightarrow> Inr (MkCommand command None [])
                         | Some d \<Rightarrow> Inr (MkCommand command (Some (cmd_name d)) (dec_params (cmd_params d) r))))
            | Reserved _ \<Rightarrow> Inl (PfUnknownCommand command)) of
        Inl e \<Rightarrow> Inl e
      | Inr kind \<Rightarrow> Inr \<lparr>zm_ieee = i, zm_endpoint = zrx_endpoint rx, zm_cluster = zrx_cluster rx,
          zm_kind = kind, zm_link_quality = zrx_link_quality rx\<rparr>))"

section \<open>Commands read back\<close>

text \<open>A value that is written and read back as a parameter in the middle of a payload.\<close>

definition value_ok :: "zcl_type \<Rightarrow> zcl_value \<Rightarrow> bool" where
  "value_ok ty v \<longleftrightarrow> zv_canonical ty v \<and> \<not> zt_takes_rest ty"

definition value_bytes :: "zcl_type \<Rightarrow> zcl_value \<Rightarrow> u8 list" where
  "value_bytes ty v = (case encode_value v ty writer_new of Inl _ \<Rightarrow> [] | Inr w \<Rightarrow> w_buf w)"

lemma value_ok_wire:
  assumes "value_ok ty v"
  shows "encode_value v ty w = Inr (w\<lparr>w_buf := w_buf w @ value_bytes ty v\<rparr>)"
    and "rd_fits pre (value_bytes ty v @ rest) \<Longrightarrow>
      decode_value ty (rd_at pre (value_bytes ty v @ rest)) = (Inr v, rd_at (pre @ value_bytes ty v) rest)"
proof -
  obtain bs where bs: "zv_wire ty v bs" using assms zv_canonical_wire by (auto simp: value_ok_def)
  then have "encode_value v ty writer_new = Inr (writer_new\<lparr>w_buf := w_buf writer_new @ bs\<rparr>)"
    by (simp add: zv_wire_def)
  then have "value_bytes ty v = bs" by (simp add: value_bytes_def writer_new_def)
  with bs assms show "encode_value v ty w = Inr (w\<lparr>w_buf := w_buf w @ value_bytes ty v\<rparr>)"
    "rd_fits pre (value_bytes ty v @ rest) \<Longrightarrow>
      decode_value ty (rd_at pre (value_bytes ty v @ rest)) = (Inr v, rd_at (pre @ value_bytes ty v) rest)"
    by (simp_all add: zv_wire_def value_ok_def)
qed

definition params_ok :: "(string \<times> zcl_value) list \<Rightarrow> param_def list \<Rightarrow> bool" where
  "params_ok supplied ps \<longleftrightarrow>
     list_all (\<lambda>p. case map_of supplied (pd_name p) of None \<Rightarrow> False | Some v \<Rightarrow> value_ok (pd_ty p) v) ps"

text \<open>The payload, and what is read from it: the declared parameters in the declared order.\<close>

definition params_bytes :: "(string \<times> zcl_value) list \<Rightarrow> param_def list \<Rightarrow> u8 list" where
  "params_bytes supplied ps =
     concat (map (\<lambda>p. value_bytes (pd_ty p) (the (map_of supplied (pd_name p)))) ps)"

definition params_named :: "(string \<times> zcl_value) list \<Rightarrow> param_def list \<Rightarrow> (string \<times> zcl_value) list" where
  "params_named supplied ps = map (\<lambda>p. (pd_name p, the (map_of supplied (pd_name p)))) ps"

lemma encode_params_ok:
  "params_ok supplied ps \<Longrightarrow>
     encode_params name supplied ps w = Inr (w\<lparr>w_buf := w_buf w @ params_bytes supplied ps\<rparr>)"
proof (induction ps arbitrary: w)
  case Nil
  then show ?case by (simp add: params_bytes_def)
next
  case (Cons p ps)
  then obtain v where v: "map_of supplied (pd_name p) = Some v" "value_ok (pd_ty p) v" "params_ok supplied ps"
    by (auto simp: params_ok_def split: option.splits)
  with Cons.IH [OF v(3)] show ?case
    by (simp add: value_ok_wire(1) params_bytes_def)
qed

lemma dec_params_ok:
  "params_ok supplied ps \<Longrightarrow> rd_fits pre (params_bytes supplied ps) \<Longrightarrow>
     dec_params ps (rd_at pre (params_bytes supplied ps)) = params_named supplied ps"
proof (induction ps arbitrary: pre)
  case Nil
  then show ?case by (simp add: params_named_def)
next
  case (Cons p ps)
  then obtain v where v: "map_of supplied (pd_name p) = Some v" "value_ok (pd_ty p) v" "params_ok supplied ps"
    by (auto simp: params_ok_def split: option.splits)
  have b: "params_bytes supplied (p # ps) = value_bytes (pd_ty p) v @ params_bytes supplied ps"
    by (simp add: params_bytes_def v)
  have fits: "rd_fits pre (value_bytes (pd_ty p) v @ params_bytes supplied ps)"
    using Cons.prems(2) by (simp add: b)
  with Cons.IH [OF v(3), of "pre @ value_bytes (pd_ty p) v"] show ?case
    by (simp add: b value_ok_wire(2) [OF v(2) fits] params_named_def v)
qed

text \<open>The request names declared parameters only.\<close>

definition names_declared :: "(string \<times> zcl_value) list \<Rightarrow> param_def list \<Rightarrow> bool" where
  "names_declared supplied ps \<longleftrightarrow> list_all (\<lambda>nv. list_ex (\<lambda>p. pd_name p = fst nv) ps) supplied"

lemma names_declared_find:
  "names_declared supplied ps \<longleftrightarrow> find (\<lambda>(name, _). \<not> list_ex (\<lambda>p. pd_name p = name) ps) supplied = None"
  by (auto simp: names_declared_def list_all_iff find_None_iff)

definition command_header :: "u8 \<Rightarrow> zcl_command \<Rightarrow> zcl_header" where
  "command_header tsn req =
     \<lparr>zh_frame_type = Specific, zh_manufacturer = map_option ManufacturerCode (zc_manufacturer req),
      zh_direction = ClientToServer, zh_disable_default_response = zc_disable_default_response req,
      zh_reserved = 0, zh_tsn = tsn, zh_command = zc_command req\<rparr>"

lemma enc_command_header:
  "(case zc_manufacturer req of
      Some code \<Rightarrow> zh_with_manufacturer (ManufacturerCode code)
        (zh_with_ddr (zc_disable_default_response req) (zh_new_command tsn (zc_command req)))
    | None \<Rightarrow> zh_with_ddr (zc_disable_default_response req) (zh_new_command tsn (zc_command req)))
   = command_header tsn req"
  by (simp add: command_header_def zh_with_manufacturer_def zh_with_ddr_def zh_new_command_def
      split: option.split)

section \<open>Attribute records\<close>

datatype reading = Unreadable u16 u8 | Reading u16 u8 zcl_value

primrec reading_ok :: "bool \<Rightarrow> reading \<Rightarrow> bool" where
  "reading_ok with_status (Unreadable i status) \<longleftrightarrow> with_status \<and> status \<noteq> 0"
| "reading_ok with_status (Reading i tag v) \<longleftrightarrow> value_ok (zt_from_u8 tag) v"

primrec reading_bytes :: "bool \<Rightarrow> reading \<Rightarrow> u8 list" where
  "reading_bytes with_status (Unreadable i status) = le_bytes 2 i @ [status]"
| "reading_bytes with_status (Reading i tag v) =
     le_bytes 2 i @ (if with_status then [0] else []) @ tag # value_bytes (zt_from_u8 tag) v"

primrec reading_value :: "reading \<Rightarrow> (u16 \<times> zcl_value) option" where
  "reading_value (Unreadable i status) = None"
| "reading_value (Reading i tag v) = Some (i, v)"

lemma attr_record_reading:
  assumes "reading_ok with_status x" "rd_fits pre (reading_bytes with_status x @ rest)"
  shows "attr_record with_status (rd_at pre (reading_bytes with_status x @ rest))
    = (Inr (reading_value x), rd_at (pre @ reading_bytes with_status x) rest)"
proof (cases x)
  case (Unreadable i status)
  with assms show ?thesis
    by (simp add: attr_record_def rd_bind_def rd_map_err_def rd_u8_Cons field_reads)
next
  case (Reading i tag v)
  with assms show ?thesis
    by (cases with_status)
      (simp_all add: attr_record_def rd_bind_def rd_map_err_def rd_u8_Cons field_reads value_ok_wire(2))
qed

lemma dec_attributes_readings:
  assumes "list_all (reading_ok with_status) xs" "rd_fits pre (concat (map (reading_bytes with_status) xs))"
  shows "dec_attributes with_status (rd_at pre (concat (map (reading_bytes with_status) xs)))
    = Inr (List.map_filter reading_value xs)"
  using assms
proof (induction xs arbitrary: pre)
  case Nil
  show ?case
    by (subst dec_attributes.simps) (simp add: rd_is_empty_at map_filter_simps)
next
  case (Cons x xs)
  let ?b = "reading_bytes with_status x" and ?bs = "concat (map (reading_bytes with_status) xs)"
  have x: "reading_ok with_status x" "list_all (reading_ok with_status) xs" using Cons.prems(1) by simp_all
  have fits: "rd_fits pre (?b @ ?bs)" using Cons.prems(2) by simp
  have ne: "?b \<noteq> []" by (cases x) simp_all
  have IH: "dec_attributes with_status (rd_at (pre @ ?b) ?bs) = Inr (List.map_filter reading_value xs)"
    using Cons.IH [OF x(2), of "pre @ ?b"] fits by simp
  show ?case
    using attr_record_reading [OF x(1) fits] ne
    by (subst dec_attributes.simps)
      (simp add: rd_is_empty_at IH map_filter_simps split: option.split)
qed

section \<open>Properties\<close>

text \<open>
  C11: a command with canonical parameters is understood by the decoder as that command. When the
  cluster and the command are known and its parameters have plain types, every supplied name is
  declared and every declared parameter has a canonical value of its type (in range, and not the
  marker for no value), encoding succeeds, and a frame with those bytes from the same cluster decodes
  to the command's name with the parameters in the order the definition declares them, whatever
  order they were supplied in.
\<close>

theorem command_understood:
  assumes cl: "cr_get registry (Some dev) (zc_cluster req) = Some cl"
    and d: "bt_get (cd_commands cl) (command_raw (zc_command req)) = Some d"
    and typed: "\<not> cmd_untyped_parameters d"
    and names: "names_declared (zc_params req) (cmd_params d)"
    and ok: "params_ok (zc_params req) (cmd_params d)"
    and rx: "zrx_cluster rx = zc_cluster req"
    and fits: "length (params_bytes (zc_params req) (cmd_params d)) + 5 \<le> usize_max"
  shows "\<exists>bytes. enc_command registry dev tsn req = Inr bytes
    \<and> dec_zcl_message registry dev (rx\<lparr>zrx_frame := bytes\<rparr>)
      = Inr \<lparr>zm_ieee = dev, zm_endpoint = zrx_endpoint rx, zm_cluster = zc_cluster req,
          zm_kind = MkCommand (command_raw (zc_command req)) (Some (cmd_name d))
            (params_named (zc_params req) (cmd_params d)),
          zm_link_quality = zrx_link_quality rx\<rparr>"
proof -
  let ?pl = "params_bytes (zc_params req) (cmd_params d)"
  let ?f = "\<lparr>zf_header = command_header tsn req, zf_payload = ?pl\<rparr>"
  have enc: "enc_command registry dev tsn req = Inr (zf_encode ?f)"
    using cl d typed names encode_params_ok [OF ok, of "cmd_name d" writer_new]
    by (simp add: enc_command_def names_declared_find Let_def enc_command_header writer_new_def)
  have "length (zf_encode ?f) \<le> usize_max"
    using fits zh_encode_len [of "command_header tsn req"]
    by (simp add: zf_encode_def wire_simps zh_encoded_len_def split: if_splits)
  moreover have "zh_wf (command_header tsn req)" by (simp add: zh_wf_def command_header_def)
  ultimately have dec: "zf_decode (zf_encode ?f) = Inr ?f" by (intro zf_decode_encode) simp_all
  have "dec_params (cmd_params d) (reader_new ?pl) = params_named (zc_params req) (cmd_params d)"
    using dec_params_ok [OF ok, of "[]"] fits by (simp add: reader_new_at rd_fits_def)
  then have "dec_zcl_message registry dev (rx\<lparr>zrx_frame := zf_encode ?f\<rparr>)
      = Inr \<lparr>zm_ieee = dev, zm_endpoint = zrx_endpoint rx, zm_cluster = zc_cluster req,
          zm_kind = MkCommand (command_raw (zc_command req)) (Some (cmd_name d))
            (params_named (zc_params req) (cmd_params d)),
          zm_link_quality = zrx_link_quality rx\<rparr>"
    using cl d by (simp add: dec_zcl_message_def dec Let_def rx) (simp add: command_header_def cl rx)
  with enc show ?thesis by blast
qed

text \<open>The level-control cluster, with the parameters supplied in the other order.\<close>

definition example_registry :: cluster_registry where
  "example_registry = cr_with_builtins
     [cd_cmd 4 ''moveToLevelWithOnOff'' [(''level'', TUint 1), (''transtime'', TUint 2)]
        (cd_new 8 ''genLevelCtrl'')]"

definition example_command :: zcl_command where
  "example_command =
     \<lparr>zc_endpoint = None, zc_cluster = ClusterId 8, zc_command = CommandId 4,
      zc_params = [(''transtime'', VUint 10), (''level'', VUint 128)],
      zc_manufacturer = None, zc_disable_default_response = False\<rparr>"

definition example_rx :: zcl_rx where
  "example_rx =
     \<lparr>zrx_ieee = Some (Ieee 1), zrx_nwk = Nwk 10, zrx_endpoint = EndpointId 1,
      zrx_destination_endpoint = EndpointId 1, zrx_cluster = ClusterId 8, zrx_group = None,
      zrx_was_broadcast = False, zrx_link_quality = None, zrx_frame = []\<rparr>"

lemma example_values: "value_ok (TUint 1) (VUint 128)" "value_ok (TUint 2) (VUint 10)"
  by (simp_all add: value_ok_def is_invalid_uint_def)

theorem command_understood_witness:
  "\<exists>bytes. enc_command example_registry (Ieee 1) 7 example_command = Inr bytes
    \<and> dec_zcl_message example_registry (Ieee 1) (example_rx\<lparr>zrx_frame := bytes\<rparr>)
      = Inr \<lparr>zm_ieee = Ieee 1, zm_endpoint = EndpointId 1, zm_cluster = ClusterId 8,
          zm_kind = MkCommand 4 (Some ''moveToLevelWithOnOff'')
            [(''level'', VUint 128), (''transtime'', VUint 10)],
          zm_link_quality = None\<rparr>"
proof -
  let ?d = "cd_def 4 ''moveToLevelWithOnOff'' [(''level'', TUint 1), (''transtime'', TUint 2)]"
  let ?c = "(cd_new 8 ''genLevelCtrl'')\<lparr>cd_commands := [(4, ?d)]\<rparr>"
  have "cr_get example_registry (Some (Ieee 1)) (zc_cluster example_command) = Some ?c"
    by (simp add: cr_get_def example_registry_def cr_with_builtins_def cr_insert_global_def cr_new_def
        cd_cmd_def cd_new_def example_command_def)
  moreover have "bt_get (cd_commands ?c) (command_raw (zc_command example_command)) = Some ?d"
    by (simp add: example_command_def)
  moreover have "\<not> cmd_untyped_parameters ?d" by (simp add: cd_def_def)
  moreover have "names_declared (zc_params example_command) (cmd_params ?d)"
    by (simp add: names_declared_def example_command_def cd_def_def)
  moreover have "params_ok (zc_params example_command) (cmd_params ?d)"
    by (simp add: params_ok_def example_command_def cd_def_def example_values)
  moreover have "zrx_cluster example_rx = zc_cluster example_command"
    by (simp add: example_rx_def example_command_def)
  moreover have "length (params_bytes (zc_params example_command) (cmd_params ?d)) + 5 \<le> usize_max"
    by (simp add: params_bytes_def example_command_def cd_def_def value_bytes_def write_uint_def
        w_bytes_def writer_new_def write_uint_bytes_def)
  ultimately show ?thesis
    using command_understood [of example_registry "Ieee 1" example_command ?c ?d example_rx 7]
    by (simp add: params_named_def example_command_def cd_def_def example_rx_def)
qed

text \<open>
  A number that is too large for its parameter is not refused: its low bytes are sent, as if the
  caller had asked for those.
\<close>

lemma wide_parameter_truncated:
  "encode_value (VUint x) (TUint n) w = encode_value (VUint (take_bit (8 * unat n) x)) (TUint n) w"
proof -
  have "(drop_bit (8 * i) x AND 0xff) = (drop_bit (8 * i) (take_bit (8 * unat n) x) AND 0xff :: u64)"
    if "i < unat n" for i
  proof -
    have m: "(0xff :: u64) = mask 8" by (simp add: mask_eq_exp_minus_1)
    have "min 8 (8 * unat n - 8 * i) = 8" using that by simp
    then show ?thesis
      unfolding m take_bit_eq_mask [symmetric] drop_bit_take_bit by simp
  qed
  then have "write_uint_bytes x n = write_uint_bytes (take_bit (8 * unat n) x) n"
    by (simp add: write_uint_bytes_def)
  then show ?thesis by (simp add: write_uint_def)
qed

lemma level_300_sent_as_44:
  "encode_value (VUint 300) (TUint 1) w = encode_value (VUint 44) (TUint 1) w"
  using wide_parameter_truncated [of 300 1 w] by (simp add: take_bit_eq_mod)

text \<open>
  no command leaves short or with something the caller did not mean: when encoding succeeds
  the command is one whose parameters can be encoded, and the names supplied are exactly the
  names it declares.
\<close>

theorem command_never_short:
  assumes "enc_command registry dev tsn req = Inr bytes"
  shows "\<exists>cl d. cr_get registry (Some dev) (zc_cluster req) = Some cl
    \<and> bt_get (cd_commands cl) (command_raw (zc_command req)) = Some d
    \<and> \<not> cmd_untyped_parameters d
    \<and> fst ` set (zc_params req) = pd_name ` set (cmd_params d)"
proof -
  obtain cl where cl: "cr_get registry (Some dev) (zc_cluster req) = Some cl"
    using assms by (cases "cr_get registry (Some dev) (zc_cluster req)") (simp_all add: enc_command_def)
  obtain d where d: "bt_get (cd_commands cl) (command_raw (zc_command req)) = Some d"
    using assms cl
    by (cases "bt_get (cd_commands cl) (command_raw (zc_command req))") (simp_all add: enc_command_def)
  have untyped: "\<not> cmd_untyped_parameters d"
    using assms cl d by (auto simp: enc_command_def)
  have none: "find (\<lambda>(name, _). \<not> list_ex (\<lambda>p. pd_name p = name) (cmd_params d)) (zc_params req) = None"
    using assms cl d untyped by (auto simp: enc_command_def split: option.splits)
  then have declared: "fst ` set (zc_params req) \<subseteq> pd_name ` set (cmd_params d)"
    by (force simp: find_None_iff list_ex_iff)
  obtain w where w: "encode_params (cmd_name d) (zc_params req) (cmd_params d) writer_new = Inr w"
    using assms cl d untyped none
    by (cases "encode_params (cmd_name d) (zc_params req) (cmd_params d) writer_new")
      (simp_all add: enc_command_def)
  have "encode_params name supplied ps w = Inr w' \<Longrightarrow> pd_name ` set ps \<subseteq> fst ` set supplied"
    for name supplied ps w w'
    by (induction ps arbitrary: w)
      (auto split: option.splits sum.splits dest!: map_of_SomeD intro: rev_image_eqI)
  with w have "pd_name ` set (cmd_params d) \<subseteq> fst ` set (zc_params req)" by blast
  with cl d untyped declared show ?thesis by blast
qed

theorem command_never_short_witness:
  "enc_command example_registry (Ieee 1) 7 (example_command\<lparr>zc_params := [(''level'', VUint 128)]\<rparr>)
     = Inl (EeMissingParameter ''moveToLevelWithOnOff'' ''transtime'')
   \<and> (\<exists>cl d. cr_get example_registry (Some (Ieee 1)) (zc_cluster example_command) = Some cl
    \<and> bt_get (cd_commands cl) (command_raw (zc_command example_command)) = Some d
    \<and> \<not> cmd_untyped_parameters d
    \<and> fst ` set (zc_params example_command) = pd_name ` set (cmd_params d))"
proof
  note defs = enc_command_def cr_get_def example_registry_def cr_with_builtins_def cr_insert_global_def
    cr_new_def cd_cmd_def cd_new_def example_command_def cd_def_def
  show "enc_command example_registry (Ieee 1) 7 (example_command\<lparr>zc_params := [(''level'', VUint 128)]\<rparr>)
     = Inl (EeMissingParameter ''moveToLevelWithOnOff'' ''transtime'')"
    by (simp add: defs)
  have "\<exists>bytes. enc_command example_registry (Ieee 1) 7 example_command = Inr bytes"
    by (simp add: defs)
  then obtain bytes where "enc_command example_registry (Ieee 1) 7 example_command = Inr bytes" ..
  from command_never_short [OF this]
  show "\<exists>cl d. cr_get example_registry (Some (Ieee 1)) (zc_cluster example_command) = Some cl
    \<and> bt_get (cd_commands cl) (command_raw (zc_command example_command)) = Some d
    \<and> \<not> cmd_untyped_parameters d
    \<and> fst ` set (zc_params example_command) = pd_name ` set (cmd_params d)" .
qed

text \<open>
  reporting can be configured exactly for attributes that are neither floating-point numbers
  nor times. Those two are among the types that carry a reportable change, the change is written
  as an unsigned integer, and the value writer has no such case for them, so one such attribute
  fails the whole request.
\<close>

theorem configure_reporting_decided:
  "(\<exists>bytes. enc_configure_reporting tsn records = Inr bytes) \<longleftrightarrow>
     list_all (\<lambda>r. case rr_ty r of TSingle \<Rightarrow> False | Time _ \<Rightarrow> False | _ \<Rightarrow> True) records"
proof -
  have "(\<exists>w'. encode_reports records w = Inr w') \<longleftrightarrow>
     list_all (\<lambda>r. case rr_ty r of TSingle \<Rightarrow> False | Time _ \<Rightarrow> False | _ \<Rightarrow> True) records" for w
  proof (induction records arbitrary: w)
    case Nil
    then show ?case by simp
  next
    case (Cons r rs)
    show ?case
      using Cons by (cases "rr_ty r") (simp_all add: report_change_def Let_def)
  qed
  from this [of writer_new] show ?thesis
    by (cases "encode_reports records writer_new") (auto simp: enc_configure_reporting_def)
qed

text \<open>
  C28: a report or a read response is read back as the values in it. In a read response a record
  whose status is not zero has no value and is left out, without disturbing the record after it.
\<close>

theorem attribute_records_read_back:
  assumes "list_all (reading_ok with_status) xs"
    and "length (concat (map (reading_bytes with_status) xs)) \<le> usize_max"
  shows "dec_attributes with_status (reader_new (concat (map (reading_bytes with_status) xs)))
    = Inr (List.map_filter reading_value xs)"
  using dec_attributes_readings [OF assms(1), of "[]"] assms(2)
  by (simp add: reader_new_at rd_fits_def)

theorem attribute_records_read_back_witness:
  "dec_attributes True (reader_new [0, 0, 0x86, 5, 0, 0, 0x20, 3]) = Inr [(5, VUint 3)]"
proof -
  let ?xs = "[Unreadable 0 0x86, Reading 5 0x20 (VUint 3)]"
  have ty: "zt_from_u8 0x20 = TUint 1" by (simp add: zt_from_u8_def)
  have "list_all (reading_ok True) ?xs" by (simp add: ty value_ok_def is_invalid_uint_def)
  moreover have bytes: "concat (map (reading_bytes True) ?xs) = [0, 0, 0x86, 5, 0, 0, 0x20, 3]"
    by (simp add: ty value_bytes_def le_bytes_2 write_uint_def w_bytes_def writer_new_def write_uint_bytes_def)
  ultimately show ?thesis
    using attribute_records_read_back [of True ?xs] by (simp add: map_filter_simps)
qed

end
