(* ===== verification/State_Values.thy ===== *)
theory State_Values
  imports Device Std_Maps "HOL-Library.List_Lexorder" "HOL-Library.Char_ord" Zcl_Messages F64
begin

text \<open>
  Capability values and deltas, \<open>rszigbee-core/src/state.rs\<close>, with the capability descriptions of
  \<open>capability.rs\<close> and the command model of \<open>command.rs\<close>. A floating-point number is its 64 bits:
  values are stored, copied and compared, and nothing here computes with them.
\<close>

section \<open>Values\<close>

type_synonym capability_id = string

datatype state_value =
    SvBool bool
  | SvInt i64
  | SvFloat f64
  | SvStr string
  | SvEnum string
  | SvList "state_value list"
  | SvMap "(string \<times> state_value) list"
  | SvNull

definition sv_true_words :: "string list" where
  "sv_true_words = [''ON'', ''on'', ''true'', ''open'', ''lock'']"

definition sv_false_words :: "string list" where
  "sv_false_words = [''OFF'', ''off'', ''false'', ''closed'', ''unlock'']"

definition word_bool :: "string \<Rightarrow> bool option" where
  "word_bool s =
     (if s \<in> set sv_true_words then Some True
      else if s \<in> set sv_false_words then Some False else None)"

fun sv_as_bool :: "state_value \<Rightarrow> bool option" where
  "sv_as_bool (SvBool b) = Some b"
| "sv_as_bool (SvEnum s) = word_bool s"
| "sv_as_bool (SvStr s) = word_bool s"
| "sv_as_bool _ = None"

fun sv_is_null :: "state_value \<Rightarrow> bool" where
  "sv_is_null SvNull = True"
| "sv_is_null _ = False"

text \<open>Equality of values is derived from that of \<open>f64\<close>.\<close>

fun sv_eq :: "state_value \<Rightarrow> state_value \<Rightarrow> bool"
  and sv_eq_list :: "state_value list \<Rightarrow> state_value list \<Rightarrow> bool"
  and sv_eq_map :: "(string \<times> state_value) list \<Rightarrow> (string \<times> state_value) list \<Rightarrow> bool" where
  "sv_eq (SvBool a) (SvBool b) = (a = b)"
| "sv_eq (SvInt a) (SvInt b) = (a = b)"
| "sv_eq (SvFloat a) (SvFloat b) = f64_eq a b"
| "sv_eq (SvStr a) (SvStr b) = (a = b)"
| "sv_eq (SvEnum a) (SvEnum b) = (a = b)"
| "sv_eq (SvList a) (SvList b) = sv_eq_list a b"
| "sv_eq (SvMap a) (SvMap b) = sv_eq_map a b"
| "sv_eq SvNull SvNull = True"
| "sv_eq _ _ = False"
| "sv_eq_list [] [] = True"
| "sv_eq_list (a # as) (b # bs) = (sv_eq a b \<and> sv_eq_list as bs)"
| "sv_eq_list _ _ = False"
| "sv_eq_map [] [] = True"
| "sv_eq_map ((k, a) # as) ((l, b) # bs) = (k = l \<and> sv_eq a b \<and> sv_eq_map as bs)"
| "sv_eq_map _ _ = False"

section \<open>Deltas\<close>

type_synonym state_changes = "(capability_id \<times> state_value) list"

definition sc_new :: state_changes where
  "sc_new = []"

fun sc_set :: "capability_id \<Rightarrow> state_value \<Rightarrow> state_changes \<Rightarrow> state_changes" where
  "sc_set i v [] = [(i, v)]"
| "sc_set i v ((k, u) # es) = (if k = i then (k, v) # es else (k, u) # sc_set i v es)"

definition sc_with :: "capability_id \<Rightarrow> state_value \<Rightarrow> state_changes \<Rightarrow> state_changes" where
  "sc_with = sc_set"

definition sc_get :: "capability_id \<Rightarrow> state_changes \<Rightarrow> state_value option" where
  "sc_get i c = map_option snd (find (\<lambda>(k, _). k = i) c)"

definition sc_is_empty :: "state_changes \<Rightarrow> bool" where
  "sc_is_empty c \<longleftrightarrow> c = []"

definition sc_merge :: "state_changes \<Rightarrow> state_changes \<Rightarrow> state_changes" where
  "sc_merge other c = fold (\<lambda>(k, v). sc_set k v) other c"

datatype priority = PriFront | PriBack

definition sc_prioritise :: "string list \<Rightarrow> priority \<Rightarrow> state_changes \<Rightarrow> state_changes" where
  "sc_prioritise ids position c =
     (let (listed, rest) = partition (\<lambda>(k, _). k \<in> set ids) c in
      case position of PriFront \<Rightarrow> listed @ rest | PriBack \<Rightarrow> rest @ listed)"

section \<open>Snapshots\<close>

type_synonym state_snapshot = "(capability_id, state_value) btree"

definition ss_new :: state_snapshot where
  "ss_new = []"

definition ss_same :: "state_value option \<Rightarrow> state_value \<Rightarrow> bool" where
  "ss_same old v = (case old of None \<Rightarrow> False | Some u \<Rightarrow> sv_eq u v)"

primrec ss_apply :: "state_changes \<Rightarrow> state_snapshot \<Rightarrow> capability_id list \<times> state_snapshot" where
  "ss_apply [] s = ([], s)"
| "ss_apply (kv # c) s =
     (if \<not> ss_same (bt_get s (fst kv)) (snd kv)
      then let (updated, s') = ss_apply c (bt_insert (fst kv) (snd kv) s) in (fst kv # updated, s')
      else ss_apply c s)"

section \<open>Capability commands\<close>

datatype brightness = Brightness (br_raw: u8)

definition br_MIN :: brightness where "br_MIN = Brightness 0"
definition br_MAX :: brightness where "br_MAX = Brightness 254"

definition br_new :: "u8 \<Rightarrow> brightness" where
  "br_new level = Brightness (if 254 < level then 254 else level)"

definition br_from_percent :: "u8 \<Rightarrow> brightness" where
  "br_from_percent pct =
     (let pct = ucast (min pct 100) :: u32; v = (pct * 254 + 50) div 100 in
      Brightness (if unat v < 256 then ucast v else br_raw br_MAX))"

definition br_to_percent :: "brightness \<Rightarrow> u8" where
  "br_to_percent b = ucast ((ucast (br_raw b) * 100 + 127) div 254 :: u16)"

datatype mireds = Mireds (mireds_raw: u16)

definition mireds_from_kelvin :: "u32 \<Rightarrow> mireds" where
  "mireds_from_kelvin k =
     (if k = 0 then Mireds 0xffff
      else let m = 1000000 div k in Mireds (if 0xffff < m then 0xffff else ucast m))"

definition mireds_to_kelvin :: "mireds \<Rightarrow> u32" where
  "mireds_to_kelvin m = (if mireds_raw m = 0 then 0 else 1000000 div ucast (mireds_raw m))"

datatype color = ColXy f64 f64 | ColHueSat f64 f64 | ColRgb u8 u8 u8

datatype percent = Percent (percent_raw: u8)

definition percent_new :: "u8 \<Rightarrow> percent" where
  "percent_new v = Percent (if 100 < v then 100 else v)"

datatype device_command =
    DcSet state_changes
  | DcGet "capability_id list"
  | DcSetOn bool
  | DcToggle
  | DcSetBrightness brightness
  | DcSetColorTemp mireds
  | DcSetColor color
  | DcSetPosition percent
  | DcSetTilt percent
  | DcOpen
  | DcClose
  | DcStop
  | DcLock
  | DcUnlock
  | DcSetTargetTemperature f64
  | DcSetPreset string
  | DcIdentify duration
  | DcZcl zcl_command
  | DcZclAttributes zcl_attribute_write

fun dc_to_changes :: "device_command \<Rightarrow> state_changes option" where
  "dc_to_changes (DcSet s) = Some s"
| "dc_to_changes (DcSetOn on) =
     Some (sc_with ''state'' (SvEnum (if on then ''ON'' else ''OFF'')) sc_new)"
| "dc_to_changes DcToggle = Some (sc_with ''state'' (SvEnum ''TOGGLE'') sc_new)"
| "dc_to_changes (DcSetBrightness b) = Some (sc_with ''brightness'' (SvInt (ucast (br_raw b))) sc_new)"
| "dc_to_changes (DcSetColorTemp m) = Some (sc_with ''color_temp'' (SvInt (ucast (mireds_raw m))) sc_new)"
| "dc_to_changes (DcSetColor _) = Some (sc_with ''color'' SvNull sc_new)"
| "dc_to_changes (DcSetPosition p) = Some (sc_with ''position'' (SvInt (ucast (percent_raw p))) sc_new)"
| "dc_to_changes (DcSetTilt p) = Some (sc_with ''tilt'' (SvInt (ucast (percent_raw p))) sc_new)"
| "dc_to_changes DcOpen = Some (sc_with ''state'' (SvEnum ''OPEN'') sc_new)"
| "dc_to_changes DcClose = Some (sc_with ''state'' (SvEnum ''CLOSE'') sc_new)"
| "dc_to_changes DcStop = Some (sc_with ''state'' (SvEnum ''STOP'') sc_new)"
| "dc_to_changes DcLock = Some (sc_with ''state'' (SvEnum ''LOCK'') sc_new)"
| "dc_to_changes DcUnlock = Some (sc_with ''state'' (SvEnum ''UNLOCK'') sc_new)"
| "dc_to_changes (DcSetTargetTemperature t) =
     Some (sc_with ''occupied_heating_setpoint'' (SvFloat t) sc_new)"
| "dc_to_changes (DcSetPreset p) = Some (sc_with ''preset'' (SvEnum p) sc_new)"
| "dc_to_changes (DcIdentify _) = None"
| "dc_to_changes (DcGet _) = None"
| "dc_to_changes (DcZcl _) = None"
| "dc_to_changes (DcZclAttributes _) = None"

datatype confirmation = CfAcked | CfNoResponseRequested | CfQueued

record command_outcome =
  co_optimistic_state :: "state_changes option"
  co_confirmed :: confirmation
  co_latency :: duration

datatype command_error =
    CeUnknownDevice ieee
  | CeNoDefinition
  | CeUnsupportedCapability capability_id
  | CeInvalidValue capability_id string
  | CeUnknownEndpoint endpoint_id
  | CeDelivery tx_failure
  | CeTimeout duration
  | CeShuttingDown

section \<open>Deltas as maps\<close>

lemma sc_get_map_of: "sc_get i c = map_of c i"
  by (induction c) (auto simp: sc_get_def)

lemma map_of_sc_set: "map_of (sc_set i v c) = (map_of c)(i \<mapsto> v)"
  by (induction i v c rule: sc_set.induct) auto

lemma keys_sc_set: "map fst (sc_set i v c) = (if i \<in> fst ` set c then map fst c else map fst c @ [i])"
  by (induction i v c rule: sc_set.induct) auto

lemma distinct_sc_set: "distinct (map fst c) \<Longrightarrow> distinct (map fst (sc_set i v c))"
  by (simp add: keys_sc_set)

lemma map_of_sc_merge: "map_of (sc_merge other c) = map_of c ++ map_of (rev other)"
  unfolding sc_merge_def
  by (induction other arbitrary: c) (auto simp: map_of_sc_set map_add_def split: option.splits)

text \<open>Reordering keeps every entry.\<close>

lemma sc_prioritise_entries:
  "distinct (map fst c) \<Longrightarrow> map_of (sc_prioritise ids position c) = map_of c"
proof -
  assume d: "distinct (map fst c)"
  let ?l = "filter (\<lambda>(k, _). k \<in> set ids) c" and ?r = "filter (\<lambda>(k, _). k \<notin> set ids) c"
  have l: "map_of ?l k = (if k \<in> set ids then map_of c k else None)"
    and r: "map_of ?r k = (if k \<in> set ids then None else map_of c k)" for k
    by (induction c) auto
  have "map_of (?l @ ?r) k = map_of c k" "map_of (?r @ ?l) k = map_of c k" for k
    using l [of k] r [of k] by (auto simp: map_add_def split: option.split)
  then show ?thesis
    by (cases position) (auto simp: sc_prioritise_def comp_def case_prod_unfold)
qed

lemma ss_apply_spec:
  assumes "distinct (map fst c)"
  shows "bt_get (snd (ss_apply c s)) k =
      (case sc_get k c of
         None \<Rightarrow> bt_get s k
       | Some v \<Rightarrow> if ss_same (bt_get s k) v then bt_get s k else Some v)
    \<and> fst (ss_apply c s) = map fst (filter (\<lambda>(i, v). \<not> ss_same (bt_get s i) v) c)"
  using assms
proof (induction c arbitrary: s)
  case Nil
  then show ?case by (simp add: sc_get_map_of)
next
  case (Cons kv c)
  obtain i v where kv: "kv = (i, v)" by (cases kv)
  have fresh: "i \<notin> fst ` set c" and d: "distinct (map fst c)" using Cons.prems kv by simp_all
  then have none: "map_of c i = None" by (simp add: map_of_eq_None_iff)
  have same: "filter (\<lambda>(j, w). \<not> ss_same (bt_get (bt_insert i v s) j) w) c
      = filter (\<lambda>(j, w). \<not> ss_same (bt_get s j) w) c"
    by (rule filter_cong) (use fresh in \<open>auto simp: map_simps image_iff\<close>)
  note IH' = Cons.IH [OF d, of "bt_insert i v s", unfolded same]
  show ?case
  proof (cases "ss_same (bt_get s i) v")
    case True
    with Cons.IH [OF d, of s] none show ?thesis
      by (auto simp: kv sc_get_map_of split: option.split)
  next
    case False
    have "bt_get (snd (ss_apply c (bt_insert i v s))) k =
        (case sc_get k (kv # c) of
           None \<Rightarrow> bt_get s k
         | Some v \<Rightarrow> if ss_same (bt_get s k) v then bt_get s k else Some v)"
      using IH' none False by (cases "k = i") (auto simp: kv sc_get_map_of map_simps split: option.split)
    with IH' False show ?thesis by (simp add: kv case_prod_unfold)
  qed
qed

lemma ss_apply_wf: "bt_wf s \<Longrightarrow> bt_wf (snd (ss_apply c s))"
  by (induction c arbitrary: s) (auto simp: bt_wf_insert case_prod_unfold Let_def)

section \<open>Properties\<close>

text \<open>
  applying a delta to the last known values sets exactly the capabilities it names, keeps a
  value that is equal already, touches nothing else, and returns the capabilities that changed in
  the order of the delta.
\<close>

theorem snapshot_apply_delta:
  assumes "distinct (map fst c)" "bt_wf s"
  shows "bt_wf (snd (ss_apply c s))
    \<and> fst (ss_apply c s) = map fst (filter (\<lambda>(i, v). \<not> ss_same (bt_get s i) v) c)
    \<and> (\<forall>k. bt_get (snd (ss_apply c s)) k =
        (case sc_get k c of
           None \<Rightarrow> bt_get s k
         | Some v \<Rightarrow> if ss_same (bt_get s k) v then bt_get s k else Some v))"
  using ss_apply_spec [OF assms(1)] ss_apply_wf [OF assms(2)] by blast

theorem snapshot_apply_delta_witness:
  "fst (ss_apply [(''state'', SvBool True), (''linkquality'', SvInt 90)]
      [(''linkquality'', SvInt 90), (''state'', SvBool False)]) = [''state'']"
proof -
  let ?c = "[(''state'', SvBool True), (''linkquality'', SvInt 90)]"
  let ?s = "[(''linkquality'', SvInt 90), (''state'', SvBool False)]"
  have "bt_wf ?s" by (simp add: bt_wf_def)
  moreover have "distinct (map fst ?c)" by simp
  ultimately show ?thesis
    using snapshot_apply_delta [of ?c ?s] by (simp add: ss_same_def)
qed

text \<open>
  a percentage becomes a level between 0 and 254 and reads back as the percentage it was, or
  as 100 when it was above.
\<close>

theorem brightness_percent_roundtrip:
  "unat (br_raw (br_from_percent pct)) \<le> 254
   \<and> unat (br_to_percent (br_from_percent pct)) = min (unat pct) 100"
proof -
  define n where "n = min (unat pct) 100"
  have n: "n \<le> 100" by (simp add: n_def)
  have m: "unat (min pct 100) = n"
    by (simp add: n_def min_def word_le_nat_alt)
  define q where "q = (n * 254 + 50) div 100"
  have q: "q \<le> 254" using n by (simp add: q_def)
  have u32: "unat (ucast (min pct 100) :: u32) = n"
    using m n by (simp add: unsigned_ucast_eq take_bit_eq_mod)
  have "unat ((ucast (min pct 100) :: u32) * 254 + 50) = n * 254 + 50"
    using n by (simp add: unat_word_ariths u32)
  then have v: "unat (((ucast (min pct 100) :: u32) * 254 + 50) div 100) = q"
    by (simp add: unat_div q_def)
  have raw: "unat (br_raw (br_from_percent pct)) = q"
    using q v by (simp add: br_from_percent_def Let_def unsigned_ucast_eq take_bit_eq_mod)
  have u16: "unat (ucast (br_raw (br_from_percent pct)) :: u16) = q"
    using raw q by (simp add: unsigned_ucast_eq take_bit_eq_mod)
  have "unat ((ucast (br_raw (br_from_percent pct)) :: u16) * 100 + 127) = q * 100 + 127"
    using q by (simp add: unat_word_ariths u16)
  then have "unat (((ucast (br_raw (br_from_percent pct)) :: u16) * 100 + 127) div 254)
      = (q * 100 + 127) div 254"
    by (simp add: unat_div)
  moreover have "(q * 100 + 127) div 254 = n"
  proof (rule div_nat_eqI)
    have lo: "100 * q \<le> n * 254 + 50" and hi: "n * 254 + 50 < 100 * q + 100"
      unfolding q_def by linarith+
    show "254 * n \<le> q * 100 + 127" using hi by linarith
    show "q * 100 + 127 < 254 * Suc n" using lo by simp
  qed
  ultimately have "unat (br_to_percent (br_from_percent pct)) = n"
    using n by (simp add: br_to_percent_def unsigned_ucast_eq take_bit_eq_mod)
  with raw q show ?thesis by (simp add: n_def)
qed

end
