(* ===== verification/Events.thy ===== *)
theory Events
  imports State_Values Reachability Zcl_Messages
begin

text \<open>
  The event model, \<open>rszigbee-core/src/event.rs\<close>, and the types of \<open>rszigbee-adapter/src/lib.rs\<close>
  that an adapter reports with.
\<close>

section \<open>What an adapter reports\<close>

datatype start_outcome = Resumed | Formed | Restored

record adapter_capabilities =
  acap_backup :: bool
  acap_interpan :: bool
  acap_install_codes :: bool
  acap_max_concurrent :: nat
  acap_zdo_sequence_in_payload :: bool
  acap_manufacturer :: manufacturer_code

definition acap_default :: adapter_capabilities where
  "acap_default =
     \<lparr>acap_backup = False, acap_interpan = False, acap_install_codes = False,
      acap_max_concurrent = 1, acap_zdo_sequence_in_payload = True,
      acap_manufacturer = ManufacturerCode 0\<rparr>"

record network_info =
  ni_pan_id :: u16
  ni_extended_pan_id :: u64
  ni_channel :: u8
  ni_nwk_update_id :: u8
  ni_key_sequence :: u8
  ni_frame_counter :: u32

datatype adapter_event =
    AeDeviceJoined "ieee option" nwk
  | AeDeviceLeft "ieee option" "nwk option"
  | AeZcl zcl_rx
  | AeZdo zdo_cluster nwk "u8 list"
  | AeDisconnected disconnect_reason

section \<open>What the runtime reports\<close>

datatype last_seen_reason = LsAnnounce | LsJoined | LsMessage | LsMessageWithoutPayload | LsNetworkAddress

datatype leave_reason = LrDeviceRequest | LrRemoved | LrUnknown

datatype interview_step =
    StNodeDescriptor
  | StActiveEndpoints
  | StSimpleDescriptor endpoint_id
  | StBasicAttributes
  | StIasEnroll endpoint_id
  | StPollControl endpoint_id

datatype definition_source = SrcBundled | SrcLocal | SrcGenerated

datatype event =
    EvStarted start_outcome
  | EvStopping
  | EvAdapterDisconnected disconnect_reason
  | EvAdapterReconnected start_outcome
  | EvLagged u64
  | EvPermitJoinChanged bool "instant option" "ieee option"
  | EvDeviceJoined ieee nwk
  | EvDeviceAnnounced ieee
  | EvDeviceLeft ieee leave_reason
  | EvDeviceAddressChanged ieee nwk nwk
  | EvInterviewStarted ieee
  | EvInterviewProgress ieee interview_step
  | EvInterviewFinished ieee interview_state
  | EvDefinitionResolved ieee "string option" definition_source
  | EvLastSeenChanged ieee system_time last_seen_reason
  | EvReachabilityChanged ieee reachability reachability evidence
  | EvStateChanged ieee "endpoint_id option" state_changes
  | EvAction ieee "endpoint_id option" capability_id string
  | EvZclMessage zcl_message
  | EvZdoResponse nwk zdo_cluster "u8 list"
  | EvConverterFailed ieee cluster_id string
  | EvUnparsedFrame ieee endpoint_id cluster_id "u8 list" parse_failure
  | EvCommandFailed ieee "capability_id option" tx_failure

fun ev_ieee :: "event \<Rightarrow> ieee option" where
  "ev_ieee (EvDeviceJoined i _) = Some i"
| "ev_ieee (EvDeviceAnnounced i) = Some i"
| "ev_ieee (EvDeviceLeft i _) = Some i"
| "ev_ieee (EvDeviceAddressChanged i _ _) = Some i"
| "ev_ieee (EvInterviewStarted i) = Some i"
| "ev_ieee (EvInterviewProgress i _) = Some i"
| "ev_ieee (EvInterviewFinished i _) = Some i"
| "ev_ieee (EvDefinitionResolved i _ _) = Some i"
| "ev_ieee (EvLastSeenChanged i _ _) = Some i"
| "ev_ieee (EvReachabilityChanged i _ _ _) = Some i"
| "ev_ieee (EvStateChanged i _ _) = Some i"
| "ev_ieee (EvAction i _ _ _) = Some i"
| "ev_ieee (EvConverterFailed i _ _) = Some i"
| "ev_ieee (EvUnparsedFrame i _ _ _ _) = Some i"
| "ev_ieee (EvCommandFailed i _ _) = Some i"
| "ev_ieee (EvZclMessage m) = Some (zm_ieee m)"
| "ev_ieee _ = None"

fun ev_is_diagnostic :: "event \<Rightarrow> bool" where
  "ev_is_diagnostic (EvConverterFailed _ _ _) = True"
| "ev_is_diagnostic (EvUnparsedFrame _ _ _ _ _) = True"
| "ev_is_diagnostic (EvCommandFailed _ _ _) = True"
| "ev_is_diagnostic (EvLagged _) = True"
| "ev_is_diagnostic (EvAdapterDisconnected _) = True"
| "ev_is_diagnostic _ = False"

end
