(* ===== verification/Mqtt.thy ===== *)
theory Mqtt
  imports Events Decimal
begin

text \<open>
  The MQTT layer, \<open>rszigbee-mqtt/src/\<close>: topics (\<open>topics.rs\<close>), what arrives from the broker
  (\<open>inbound.rs\<close>) and what is published (\<open>state.rs\<close>). JSON text is read and written by a library:
  the reader \<open>pj\<close>, the writer \<open>render\<close> and the conversion \<open>cv\<close> of an unsigned integer too large for
  \<open>i64\<close> to floating point are arguments. The library's object is a sorted map.
\<close>

section \<open>Topics\<close>

record topics =
  tp_base :: string

definition tp_new :: "string \<Rightarrow> topics" where
  "tp_new base = \<lparr>tp_base = rev (dropWhile (\<lambda>c. c = CHR ''/'') (rev base))\<rparr>"

definition tp_default :: topics where
  "tp_default = tp_new ''zigbee2mqtt''"

definition tp_device :: "ieee \<Rightarrow> topics \<Rightarrow> string" where
  "tp_device i t = tp_base t @ ''/'' @ ieee_display i"

definition tp_device_set :: "ieee \<Rightarrow> topics \<Rightarrow> string" where
  "tp_device_set i t = tp_base t @ ''/'' @ ieee_display i @ ''/set''"

definition tp_device_get :: "ieee \<Rightarrow> topics \<Rightarrow> string" where
  "tp_device_get i t = tp_base t @ ''/'' @ ieee_display i @ ''/get''"

definition tp_bridge_state :: "topics \<Rightarrow> string" where
  "tp_bridge_state t = tp_base t @ ''/bridge/state''"

definition tp_bridge_event :: "topics \<Rightarrow> string" where
  "tp_bridge_event t = tp_base t @ ''/bridge/event''"

definition tp_bridge_request :: "string \<Rightarrow> topics \<Rightarrow> string" where
  "tp_bridge_request name t = tp_base t @ ''/bridge/request/'' @ name"

definition tp_bridge_response :: "string \<Rightarrow> topics \<Rightarrow> string" where
  "tp_bridge_response name t = tp_base t @ ''/bridge/response/'' @ name"

definition tp_subscriptions :: "topics \<Rightarrow> string list" where
  "tp_subscriptions t =
     [tp_base t @ ''/+/set'', tp_base t @ ''/+/get'', tp_base t @ ''/bridge/request/+'']"

definition tp_strip :: "string \<Rightarrow> topics \<Rightarrow> string option" where
  "tp_strip topic t = Option.bind (strip_prefix (tp_base t) topic) (strip_prefix ''/'')"

section \<open>JSON values\<close>

datatype jnumber = JPos u64 | JNeg i64 | JFloat f64

datatype json =
    JNull
  | JBool bool
  | JNum jnumber
  | JStr string
  | JArr "json list"
  | JObj "(string \<times> json) list"

primrec jn_as_u64 :: "jnumber \<Rightarrow> u64 option" where
  "jn_as_u64 (JPos n) = Some n"
| "jn_as_u64 (JNeg n) = None"
| "jn_as_u64 (JFloat x) = None"

primrec jn_as_i64 :: "jnumber \<Rightarrow> i64 option" where
  "jn_as_i64 (JPos n) = (if unat n < 2 ^ 63 then Some n else None)"
| "jn_as_i64 (JNeg n) = Some n"
| "jn_as_i64 (JFloat x) = None"

primrec from_json_number :: "(u64 \<Rightarrow> f64) \<Rightarrow> jnumber \<Rightarrow> state_value" where
  "from_json_number cv (JPos n) = (if unat n < 2 ^ 63 then SvInt n else SvFloat (cv n))"
| "from_json_number cv (JNeg n) = SvInt n"
| "from_json_number cv (JFloat x) = SvFloat x"

fun from_json :: "(u64 \<Rightarrow> f64) \<Rightarrow> json \<Rightarrow> state_value"
  and from_json_items :: "(u64 \<Rightarrow> f64) \<Rightarrow> json list \<Rightarrow> state_value list"
  and from_json_entries :: "(u64 \<Rightarrow> f64) \<Rightarrow> (string \<times> json) list \<Rightarrow> (string \<times> state_value) list" where
  "from_json cv (JBool b) = SvBool b"
| "from_json cv (JNum n) = from_json_number cv n"
| "from_json cv (JStr s) = SvStr s"
| "from_json cv (JArr items) = SvList (from_json_items cv items)"
| "from_json cv (JObj m) = SvMap (from_json_entries cv m)"
| "from_json cv JNull = SvNull"
| "from_json_items cv [] = []"
| "from_json_items cv (j # js) = from_json cv j # from_json_items cv js"
| "from_json_entries cv [] = []"
| "from_json_entries cv ((k, j) # m) = (k, from_json cv j) # from_json_entries cv m"

section \<open>What arrives\<close>

record mq_message =
  mqm_topic :: string
  mqm_payload :: "u8 list"

datatype inbound =
    InSet (in_ieee: ieee) (in_changes: state_changes)
  | InGet ieee "capability_id list"
  | InPermitJoin duration
  | InUnknownRequest string

datatype wrong_shape = WsPermitTime json | WsPermit json | WsSet | WsGet

datatype inbound_error =
    ForeignTopic string
  | UnknownTopic string
  | NotAnAddress string
  | NotJson string
  | WrongShape wrong_shape

type_synonym json_reader = "u8 list \<Rightarrow> string + json"

definition mq_json :: "json_reader \<Rightarrow> u8 list \<Rightarrow> inbound_error + json" where
  "mq_json pj payload = map_err NotJson (pj payload)"

definition permit_seconds :: "json \<Rightarrow> inbound_error + nat" where
  "permit_seconds value =
     (case value of
        JObj m \<Rightarrow>
          (case map_of m ''time'' of
             Some (JNum n) \<Rightarrow> Inr (case jn_as_u64 n of Some s \<Rightarrow> unat s | None \<Rightarrow> 0)
           | Some (JBool b) \<Rightarrow> Inr (if b then 254 else 0)
           | None \<Rightarrow> Inr 254
           | Some other \<Rightarrow> Inl (WrongShape (WsPermitTime other)))
      | JNum n \<Rightarrow> Inr (case jn_as_u64 n of Some s \<Rightarrow> unat s | None \<Rightarrow> 0)
      | JBool b \<Rightarrow> Inr (if b then 254 else 0)
      | other \<Rightarrow> Inl (WrongShape (WsPermit other)))"

definition parse_request :: "json_reader \<Rightarrow> string \<Rightarrow> u8 list \<Rightarrow> inbound_error + inbound" where
  "parse_request pj name payload =
     (if name \<noteq> ''permit_join'' then Inr (InUnknownRequest name)
      else result_bind (mq_json pj payload) (\<lambda>value.
           result_bind (permit_seconds value) (\<lambda>s. Inr (InPermitJoin (secs s)))))"

definition parse_state :: "json_reader \<Rightarrow> (u64 \<Rightarrow> f64) \<Rightarrow> u8 list \<Rightarrow> inbound_error + state_changes" where
  "parse_state pj cv payload =
     result_bind (mq_json pj payload) (\<lambda>value.
       case value of
         JObj m \<Rightarrow> Inr (fold (\<lambda>(key, v). sc_set key (from_json cv v)) m sc_new)
       | _ \<Rightarrow> Inl (WrongShape WsSet))"

definition is_ascii_whitespace :: "u8 \<Rightarrow> bool" where
  "is_ascii_whitespace b \<longleftrightarrow> b = 0x20 \<or> b = 0x09 \<or> b = 0x0a \<or> b = 0x0c \<or> b = 0x0d"

definition parse_capabilities :: "json_reader \<Rightarrow> u8 list \<Rightarrow> inbound_error + capability_id list" where
  "parse_capabilities pj payload =
     (if list_all is_ascii_whitespace payload then Inr []
      else result_bind (mq_json pj payload) (\<lambda>value.
        case value of JObj m \<Rightarrow> Inr (map fst m) | _ \<Rightarrow> Inl (WrongShape WsGet)))"

definition mq_parse ::
  "json_reader \<Rightarrow> (u64 \<Rightarrow> f64) \<Rightarrow> topics \<Rightarrow> mq_message \<Rightarrow> inbound_error + inbound" where
  "mq_parse pj cv t m =
     (case tp_strip (mqm_topic m) t of
        None \<Rightarrow> Inl (ForeignTopic (mqm_topic m))
      | Some rest \<Rightarrow>
     (case strip_prefix ''bridge/request/'' rest of
        Some name \<Rightarrow> parse_request pj name (mqm_payload m)
      | None \<Rightarrow>
     (case rsplit_once CHR ''/'' rest of
        None \<Rightarrow> Inl (UnknownTopic (mqm_topic m))
      | Some (address, verb) \<Rightarrow>
     (case ieee_parse address of
        Inl _ \<Rightarrow> Inl (NotAnAddress address)
      | Inr i \<Rightarrow>
          if verb = ''set''
          then result_bind (parse_state pj cv (mqm_payload m)) (\<lambda>ch. Inr (InSet i ch))
          else if verb = ''get''
          then result_bind (parse_capabilities pj (mqm_payload m)) (\<lambda>cs. Inr (InGet i cs))
          else Inl (UnknownTopic (mqm_topic m))))))"

section \<open>What is published\<close>

record publication =
  pub_topic :: string
  pub_payload :: string
  pub_retain :: bool

definition BOOLEAN_RENDERINGS :: "(string \<times> string \<times> string) list" where
  "BOOLEAN_RENDERINGS =
     [(''state'', ''ON'', ''OFF''), (''child_lock'', ''LOCK'', ''UNLOCK''),
      (''window_open'', ''OPEN'', ''CLOSE'')]"

definition boolean_rendering :: "string \<Rightarrow> (string \<times> string) option" where
  "boolean_rendering capability = map_of BOOLEAN_RENDERINGS capability"

text \<open>
  \<open>integral\<close>: the number a finite double is when it is an integer of magnitude at most 2^53, from
  its sign, exponent and significand.
\<close>

definition integral :: "f64 \<Rightarrow> int option" where
  "integral x =
     (let e = max 1 (f64_exponent x); m = f64_significand x in
      if f64_exponent x = 0x7ff then None
      else if e < 1075 \<and> m mod 2 ^ (1075 - e) \<noteq> 0 then None
      else let v = (if e < 1075 then m div 2 ^ (1075 - e) else m * 2 ^ (e - 1075)) in
        if 9007199254740992 < v then None
        else Some (if bit x 63 then - int v else int v))"

definition json_i64 :: "int \<Rightarrow> json" where
  "json_i64 i = JNum (if 0 \<le> i then JPos (of_int i) else JNeg (of_int i))"

definition json_f64 :: "f64 \<Rightarrow> json" where
  "json_f64 x = (if f64_exponent x = 0x7ff then JNull else JNum (JFloat x))"

fun to_json :: "state_value \<Rightarrow> json"
  and to_json_items :: "state_value list \<Rightarrow> json list"
  and to_json_entries :: "(string \<times> state_value) list \<Rightarrow> (string \<times> json) list" where
  "to_json (SvBool b) = JBool b"
| "to_json (SvInt i) = json_i64 (sint i)"
| "to_json (SvFloat x) = (case integral x of Some i \<Rightarrow> json_i64 i | None \<Rightarrow> json_f64 x)"
| "to_json (SvStr s) = JStr s"
| "to_json (SvEnum s) = JStr s"
| "to_json (SvList items) = JArr (to_json_items items)"
| "to_json (SvMap m) = JObj (to_json_entries m)"
| "to_json SvNull = JNull"
| "to_json_items [] = []"
| "to_json_items (v # vs) = to_json v # to_json_items vs"
| "to_json_entries [] = []"
| "to_json_entries ((k, v) # m) = (k, to_json v) # to_json_entries m"

type_synonym device_state = "(string, json) btree"

definition ds_rendered :: "string \<Rightarrow> state_value \<Rightarrow> json" where
  "ds_rendered name value =
     (case (value, boolean_rendering name) of
        (SvBool b, Some (on, off)) \<Rightarrow> JStr (if b then on else off)
      | _ \<Rightarrow> to_json value)"

definition ds_apply :: "(json \<Rightarrow> string) \<Rightarrow> state_changes \<Rightarrow> device_state \<Rightarrow> string \<times> device_state" where
  "ds_apply render changes known =
     (let known = fold (\<lambda>(name, v). bt_insert name (ds_rendered name v)) changes known in
      (render (JObj known), known))"

record state_store =
  sst_topics :: topics
  sst_devices :: "(ieee, device_state) btree"

definition sst_new :: "topics \<Rightarrow> state_store" where
  "sst_new t = \<lparr>sst_topics = t, sst_devices = []\<rparr>"

definition sst_online :: "(json \<Rightarrow> string) \<Rightarrow> state_store \<Rightarrow> publication" where
  "sst_online render s =
     \<lparr>pub_topic = tp_bridge_state (sst_topics s),
      pub_payload = render (JObj [(''state'', JStr ''online'')]), pub_retain = True\<rparr>"

definition sst_offline :: "(json \<Rightarrow> string) \<Rightarrow> state_store \<Rightarrow> publication" where
  "sst_offline render s =
     \<lparr>pub_topic = tp_bridge_state (sst_topics s),
      pub_payload = render (JObj [(''state'', JStr ''offline'')]), pub_retain = True\<rparr>"

definition sst_bridge_event :: "(json \<Rightarrow> string) \<Rightarrow> string \<Rightarrow> ieee \<Rightarrow> state_store \<Rightarrow> publication" where
  "sst_bridge_event render kind i s =
     \<lparr>pub_topic = tp_bridge_event (sst_topics s),
      pub_payload = render (JObj
        [(''data'', JObj [(''friendly_name'', JStr (ieee_display i)),
                          (''ieee_address'', JStr (ieee_display i))]),
         (''type'', JStr kind)]),
      pub_retain = False\<rparr>"

definition sst_interview_event :: "(json \<Rightarrow> string) \<Rightarrow> ieee \<Rightarrow> string \<Rightarrow> state_store \<Rightarrow> publication" where
  "sst_interview_event render i status s =
     \<lparr>pub_topic = tp_bridge_event (sst_topics s),
      pub_payload = render (JObj
        [(''data'', JObj [(''friendly_name'', JStr (ieee_display i)),
                          (''ieee_address'', JStr (ieee_display i)), (''status'', JStr status)]),
         (''type'', JStr ''device_interview'')]),
      pub_retain = False\<rparr>"

definition sst_response :: "(json \<Rightarrow> string) \<Rightarrow> string \<Rightarrow> json \<Rightarrow> bool \<Rightarrow> state_store \<Rightarrow> publication" where
  "sst_response render name data ok s =
     \<lparr>pub_topic = tp_bridge_response name (sst_topics s),
      pub_payload = render (JObj [(''data'', data), (''status'', JStr (if ok then ''ok'' else ''error''))]),
      pub_retain = False\<rparr>"

fun sst_translate :: "(json \<Rightarrow> string) \<Rightarrow> event \<Rightarrow> state_store \<Rightarrow> publication list \<times> state_store" where
  "sst_translate render (EvStateChanged i _ changes) s =
     (let known = (case bt_get (sst_devices s) i of Some f \<Rightarrow> f | None \<Rightarrow> []);
          (payload, known) = ds_apply render changes known in
      ([\<lparr>pub_topic = tp_device i (sst_topics s), pub_payload = payload, pub_retain = False\<rparr>],
       s\<lparr>sst_devices := bt_insert i known (sst_devices s)\<rparr>))"
| "sst_translate render (EvDeviceJoined i _) s = ([sst_bridge_event render ''device_joined'' i s], s)"
| "sst_translate render (EvDeviceAnnounced i) s = ([sst_bridge_event render ''device_announce'' i s], s)"
| "sst_translate render (EvDeviceLeft i _) s = ([sst_bridge_event render ''device_leave'' i s], s)"
| "sst_translate render (EvInterviewStarted i) s = ([sst_interview_event render i ''started'' s], s)"
| "sst_translate render (EvInterviewFinished i state) s =
     ([sst_interview_event render i (if state = IsSuccessful then ''successful'' else ''failed'') s], s)"
| "sst_translate render _ s = ([], s)"

section \<open>Routing\<close>

lemma ieee_parse_no_slash:
  assumes "ieee_parse s = Inr a"
  shows "CHR ''/'' \<notin> set s"
proof -
  have "\<exists>w. u64_from_str_radix_16 (strip_0x s) = Some w"
    using assms by (auto simp: ieee_parse_def Let_def split: if_splits option.splits)
  then have "list_all is_hex (strip_0x s) \<or> (\<exists>ds. strip_0x s = CHR ''+'' # ds \<and> list_all is_hex ds)"
    using hex_digits_all by (auto simp: from_str_radix_Some)
  moreover have "\<not> is_hex CHR ''/''" by (simp add: is_hex_def hex_val_def)
  ultimately have "CHR ''/'' \<notin> set (strip_0x s)"
    by (auto simp: list_all_iff)
  moreover have "set s \<subseteq> set (strip_0x s) \<union> {CHR ''0'', CHR ''x'', CHR ''X''}"
    by (auto simp: strip_0x_def strip_prefix_eq_Some split: option.splits)
  ultimately show ?thesis by auto
qed

lemma tp_strip_Some: "tp_strip topic t = Some rest \<longleftrightarrow> topic = tp_base t @ ''/'' @ rest"
  by (auto simp: tp_strip_def strip_prefix_eq_Some bind_eq_Some_conv)

lemma strip_prefix_None: "strip_prefix p s = None \<longleftrightarrow> (\<forall>r. s \<noteq> p @ r)"
  using strip_prefix_eq_Some [of p s] by (cases "strip_prefix p s") auto

text \<open>\<open>rsplit_once\<close> finds the last separator.\<close>

lemma rsplit_once_Some:
  assumes "rsplit_once c s = Some (h, t)"
  shows "s = h @ c # t \<and> c \<notin> set t"
proof -
  have "c \<in> set s" using assms rsplit_once_absent [of c s] by auto
  then obtain h' t' where "s = h' @ c # t'" "c \<notin> set t'" using split_list_last by metis
  with rsplit_once_append [of c t' h'] assms show ?thesis by simp
qed

text \<open>What is not a request of ours has its address before the last slash.\<close>

definition is_err :: "'e + 'a \<Rightarrow> bool" where
  "is_err x \<longleftrightarrow> (case x of Inl _ \<Rightarrow> True | Inr _ \<Rightarrow> False)"

lemma mq_parse_device:
  assumes rest: "mqm_topic m = tp_base t @ ''/'' @ address @ ''/'' @ verb"
    and verb: "CHR ''/'' \<notin> set verb"
    and no: "strip_prefix ''bridge/request/'' (address @ ''/'' @ verb) = None"
  shows "mq_parse pj cv t m =
     (case ieee_parse address of
        Inl _ \<Rightarrow> Inl (NotAnAddress address)
      | Inr i \<Rightarrow>
          if verb = ''set''
          then result_bind (parse_state pj cv (mqm_payload m)) (\<lambda>ch. Inr (InSet i ch))
          else if verb = ''get''
          then result_bind (parse_capabilities pj (mqm_payload m)) (\<lambda>cs. Inr (InGet i cs))
          else Inl (UnknownTopic (mqm_topic m)))"
proof -
  have "tp_strip (mqm_topic m) t = Some (address @ ''/'' @ verb)" by (simp add: tp_strip_Some rest)
  moreover have "rsplit_once CHR ''/'' (address @ ''/'' @ verb) = Some (address, verb)"
    using rsplit_once_append [OF verb, of address] by simp
  ultimately show ?thesis using no by (simp add: mq_parse_def)
qed

lemma address_no_request:
  assumes "CHR ''/'' \<notin> set address" "CHR ''/'' \<notin> set verb"
  shows "strip_prefix ''bridge/request/'' (address @ ''/'' @ verb) = None"
proof -
  have count: "count_list (address @ ''/'' @ verb) CHR ''/'' = 1"
    using assms by (simp add: count_list_0_iff)
  show ?thesis
  proof (rule ccontr)
    assume "strip_prefix ''bridge/request/'' (address @ ''/'' @ verb) \<noteq> None"
    then obtain r where "address @ ''/'' @ verb = ''bridge/request/'' @ r"
      by (auto simp: strip_prefix_eq_Some)
    then have "count_list (address @ ''/'' @ verb) CHR ''/'' = 2 + count_list r CHR ''/''" by simp
    with count show False by simp
  qed
qed

lemma bind_set: "result_bind r (\<lambda>ch. Inr (InSet j ch)) = Inr (InSet i c) \<longleftrightarrow> i = j \<and> r = Inr c"
  by (cases r) auto

lemma bind_get: "result_bind r (\<lambda>cs. Inr (InGet j cs)) \<noteq> Inr (InSet i c)"
  by (cases r) auto

lemma request_not_set: "parse_request pj name payload \<noteq> Inr (InSet i c)"
  by (auto simp: parse_request_def result_bind_eq_Inr)

section \<open>Properties\<close>

text \<open>
  C32: a message sets state on a device exactly when its topic is the base, the text of that
  device's address and the word set, one level each, and its body is an object of values; the
  changes are those of the object. Nothing on any other topic commands a device.
\<close>

theorem set_message_iff:
  "mq_parse pj cv t m = Inr (InSet i c) \<longleftrightarrow>
     (\<exists>address. mqm_topic m = tp_base t @ ''/'' @ address @ ''/set'' \<and> ieee_parse address = Inr i
       \<and> parse_state pj cv (mqm_payload m) = Inr c)"
proof
  assume ok: "mq_parse pj cv t m = Inr (InSet i c)"
  obtain rest where rest: "mqm_topic m = tp_base t @ ''/'' @ rest"
    and strip: "tp_strip (mqm_topic m) t = Some rest"
    using ok by (cases "tp_strip (mqm_topic m) t") (auto simp: mq_parse_def tp_strip_Some)
  have no: "strip_prefix ''bridge/request/'' rest = None"
    using ok strip request_not_set
    by (cases "strip_prefix ''bridge/request/'' rest") (auto simp: mq_parse_def)
  obtain address verb where split: "rest = address @ CHR ''/'' # verb" "CHR ''/'' \<notin> set verb"
    using ok strip no rsplit_once_Some [of "CHR ''/''" rest]
    by (cases "rsplit_once CHR ''/'' rest") (auto simp: mq_parse_def)
  then have "mqm_topic m = tp_base t @ ''/'' @ address @ ''/'' @ verb"
    "strip_prefix ''bridge/request/'' (address @ ''/'' @ verb) = None"
    using rest no by simp_all
  note parse = mq_parse_device [OF this(1) split(2) this(2)]
  then have "ieee_parse address = Inr i \<and> verb = ''set'' \<and> parse_state pj cv (mqm_payload m) = Inr c"
    using ok by (auto simp: bind_set bind_get split: sum.splits if_splits)
  with rest split show "\<exists>address. mqm_topic m = tp_base t @ ''/'' @ address @ ''/set''
      \<and> ieee_parse address = Inr i \<and> parse_state pj cv (mqm_payload m) = Inr c"
    by auto
next
  assume "\<exists>address. mqm_topic m = tp_base t @ ''/'' @ address @ ''/set'' \<and> ieee_parse address = Inr i
    \<and> parse_state pj cv (mqm_payload m) = Inr c"
  then obtain address where a: "mqm_topic m = tp_base t @ ''/'' @ address @ ''/'' @ ''set''"
    "ieee_parse address = Inr i" "parse_state pj cv (mqm_payload m) = Inr c" by auto
  have verb: "CHR ''/'' \<notin> set ''set''" by simp
  show "mq_parse pj cv t m = Inr (InSet i c)"
    using mq_parse_device [OF a(1) verb address_no_request [OF ieee_parse_no_slash [OF a(2)] verb]] a
    by simp
qed

lemma bridge_not_address: "is_err (ieee_parse ''bridge'')"
  by (simp add: ieee_parse_def strip_0x_def is_err_def Let_def)

lemma slash_not_address: "CHR ''/'' \<in> set s \<Longrightarrow> is_err (ieee_parse s)"
  using ieee_parse_no_slash [of s] by (auto simp: is_err_def split: sum.split)

lemma own_bridge_topic:
  assumes "CHR ''/'' \<notin> set verb"
  shows "is_err (mq_parse pj cv t \<lparr>mqm_topic = tp_base t @ ''/bridge/'' @ verb, mqm_payload = body\<rparr>)"
proof -
  have "strip_prefix ''bridge/request/'' (''bridge'' @ ''/'' @ verb) = None"
    by (rule address_no_request [OF _ assms]) simp
  from mq_parse_device [of "\<lparr>mqm_topic = tp_base t @ ''/bridge/'' @ verb, mqm_payload = body\<rparr>" t
      "''bridge''" verb, OF _ assms this] bridge_not_address
  show ?thesis by (auto simp: is_err_def split: sum.splits)
qed

lemma own_device_topic:
  "is_err (mq_parse pj cv t \<lparr>mqm_topic = tp_device i t, mqm_payload = body\<rparr>)"
proof -
  have "tp_strip (tp_device i t) t = Some (ieee_display i)" by (simp add: tp_strip_Some tp_device_def)
  moreover have "strip_prefix ''bridge/request/'' (ieee_display i) = None"
    using ieee_display_no_slash [of i] by (auto simp: strip_prefix_None)
  moreover have "rsplit_once CHR ''/'' (ieee_display i) = None"
    by (rule rsplit_once_absent [OF ieee_display_no_slash])
  ultimately show ?thesis by (simp add: mq_parse_def is_err_def)
qed

lemma own_response_topic:
  "is_err (mq_parse pj cv t \<lparr>mqm_topic = tp_bridge_response name t, mqm_payload = body\<rparr>)"
proof -
  obtain address verb where split: "''response/'' @ name = address @ CHR ''/'' # verb" "CHR ''/'' \<notin> set verb"
    using split_list_last [of "CHR ''/''" "''response/'' @ name"] by auto
  have topic: "tp_bridge_response name t = tp_base t @ ''/'' @ (''bridge/'' @ address) @ ''/'' @ verb"
    using split(1) by (simp add: tp_bridge_response_def)
  have "(''bridge/'' @ address) @ ''/'' @ verb = ''bridge/response/'' @ name"
    using split(1) by simp
  then have "strip_prefix ''bridge/request/'' ((''bridge/'' @ address) @ ''/'' @ verb) = None"
    by (simp add: strip_prefix_None del: append_assoc)
  from mq_parse_device [of "\<lparr>mqm_topic = tp_bridge_response name t, mqm_payload = body\<rparr>" t
      "''bridge/'' @ address" verb, OF _ split(2) this] topic slash_not_address [of "''bridge/'' @ address"]
  show ?thesis by (auto simp: is_err_def split: sum.splits)
qed

text \<open>
  the gateway never acts on what it publishes itself. Whatever event it translates, whatever
  it answers and whatever body the broker hands back, a message on the topic of one of its own
  publications is refused.
\<close>

theorem own_publications_ignored:
  "list_all (\<lambda>p. is_err (mq_parse pj cv (sst_topics s) \<lparr>mqm_topic = pub_topic p, mqm_payload = body\<rparr>))
     (sst_online render s # sst_offline render s # sst_response render name data ok s
        # fst (sst_translate render ev s))"
proof -
  have state: "is_err (mq_parse pj cv t \<lparr>mqm_topic = tp_bridge_state t, mqm_payload = body\<rparr>)"
    and event: "is_err (mq_parse pj cv t \<lparr>mqm_topic = tp_bridge_event t, mqm_payload = body\<rparr>)" for t
    using own_bridge_topic [of "''state''" pj cv t body] own_bridge_topic [of "''event''" pj cv t body]
    by (simp_all add: tp_bridge_state_def tp_bridge_event_def)
  show ?thesis
    by (cases ev)
      (simp_all add: state event own_response_topic own_device_topic sst_online_def sst_offline_def
        sst_response_def sst_bridge_event_def sst_interview_event_def case_prod_unfold Let_def)
qed

text \<open>
  a request to open the network whose object has no \<open>time\<close> opens it for 254 seconds whatever
  else the object says, and a time that is negative or has a fraction closes it.
\<close>

theorem permit_join_decided:
  "permit_seconds (JObj m) =
     (case map_of m ''time'' of
        None \<Rightarrow> Inr 254
      | Some (JBool b) \<Rightarrow> Inr (if b then 254 else 0)
      | Some (JNum (JPos n)) \<Rightarrow> Inr (unat n)
      | Some (JNum _) \<Rightarrow> Inr 0
      | Some other \<Rightarrow> Inl (WrongShape (WsPermitTime other)))
   \<and> mq_parse (\<lambda>_. Inr (JObj [(''value'', JBool False)])) cv t
        \<lparr>mqm_topic = tp_bridge_request ''permit_join'' t, mqm_payload = body\<rparr> = Inr (InPermitJoin (secs 254))"
proof
  show "permit_seconds (JObj m) =
     (case map_of m ''time'' of
        None \<Rightarrow> Inr 254
      | Some (JBool b) \<Rightarrow> Inr (if b then 254 else 0)
      | Some (JNum (JPos n)) \<Rightarrow> Inr (unat n)
      | Some (JNum _) \<Rightarrow> Inr 0
      | Some other \<Rightarrow> Inl (WrongShape (WsPermitTime other)))"
    by (auto simp: permit_seconds_def split: option.split json.split jnumber.split)
  show "mq_parse (\<lambda>_. Inr (JObj [(''value'', JBool False)])) cv t
        \<lparr>mqm_topic = tp_bridge_request ''permit_join'' t, mqm_payload = body\<rparr> = Inr (InPermitJoin (secs 254))"
    by (simp add: mq_parse_def tp_strip_Some [THEN iffD2] tp_bridge_request_def parse_request_def
        mq_json_def permit_seconds_def)
qed

section \<open>The published state is the whole state\<close>

text \<open>What a history of events last said of one capability of one device, as it is rendered.\<close>

definition last_report :: "ieee \<Rightarrow> string \<Rightarrow> event \<Rightarrow> json option \<Rightarrow> json option" where
  "last_report i k ev old =
     (case ev of
        EvStateChanged j _ c \<Rightarrow>
          if j = i then (case map_of (rev c) k of Some v \<Rightarrow> Some (ds_rendered k v) | None \<Rightarrow> old) else old
      | _ \<Rightarrow> old)"

definition sst_run :: "(json \<Rightarrow> string) \<Rightarrow> event list \<Rightarrow> state_store \<Rightarrow> state_store" where
  "sst_run render evs s = fold (\<lambda>ev s. snd (sst_translate render ev s)) evs s"

definition sst_known :: "ieee \<Rightarrow> state_store \<Rightarrow> device_state" where
  "sst_known i s = (case bt_get (sst_devices s) i of Some f \<Rightarrow> f | None \<Rightarrow> [])"

lemma ds_apply_get:
  "bt_get (snd (ds_apply render c known)) k =
     (case map_of (rev c) k of Some v \<Rightarrow> Some (ds_rendered k v) | None \<Rightarrow> bt_get known k)"
proof -
  have "fold (\<lambda>(name, v). bt_insert name (ds_rendered name v)) c known
      = fold (\<lambda>(name, j). bt_insert name j) (map (\<lambda>(name, v). (name, ds_rendered name v)) c) known"
    by (simp add: fold_map comp_def case_prod_unfold)
  moreover have "map_of (map (\<lambda>(name, v). (name, ds_rendered name v)) xs) k
      = map_option (ds_rendered k) (map_of xs k)" for xs
    by (induction xs) auto
  then have "map_of (rev (map (\<lambda>(name, v). (name, ds_rendered name v)) c)) k
      = map_option (ds_rendered k) (map_of (rev c) k)"
    by (simp add: rev_map)
  ultimately show ?thesis
    using bt.get_fold_insert [of "map (\<lambda>(name, v). (name, ds_rendered name v)) c" known k]
    by (simp add: ds_apply_def Let_def split: option.split)
qed

lemma ds_apply_wf:
  assumes "bt_wf known"
  shows "bt_wf (snd (ds_apply render c known))"
proof -
  have "bt_wf m \<Longrightarrow> bt_wf (fold (\<lambda>(name, v). bt_insert name (ds_rendered name v)) c m)" for m
    by (induction c arbitrary: m) (auto simp: bt_wf_insert)
  with assms show ?thesis by (simp add: ds_apply_def Let_def)
qed

lemma sst_translate_known:
  "sst_topics (snd (sst_translate render ev s)) = sst_topics s
   \<and> bt_get (sst_known i (snd (sst_translate render ev s))) k = last_report i k ev (bt_get (sst_known i s) k)"
  by (cases ev)
    (auto simp: last_report_def sst_known_def Let_def case_prod_unfold map_simps ds_apply_get
      split: option.split)

lemma sst_translate_wf:
  "\<forall>i. bt_wf (sst_known i s) \<Longrightarrow> bt_wf (sst_known i (snd (sst_translate render ev s)))"
  by (cases ev)
    (auto simp: sst_known_def Let_def case_prod_unfold map_simps intro!: ds_apply_wf)

lemma sst_run_known:
  "sst_topics (sst_run render evs s) = sst_topics s
   \<and> bt_get (sst_known i (sst_run render evs s)) k = fold (last_report i k) evs (bt_get (sst_known i s) k)"
  unfolding sst_run_def
  by (induction evs arbitrary: s) (simp_all add: sst_translate_known)

lemma sst_run_wf:
  "\<forall>i. bt_wf (sst_known i s) \<Longrightarrow> bt_wf (sst_known i (sst_run render evs s))"
  unfolding sst_run_def
  by (induction evs arbitrary: s) (simp_all add: sst_translate_wf)

lemma sst_known_new: "sst_known i (sst_new t) = []"
  by (simp add: sst_known_def sst_new_def)

text \<open>
  C19: a change of a device's state is published as its whole state. After any history, the one
  publication made for a change goes to the device's own topic and its body is the object that
  has, for every capability ever reported of this device, what was reported last, in the order of
  the names; nothing reported of other devices is in it.
\<close>

theorem published_state_whole:
  "\<exists>known. bt_wf known
     \<and> fst (sst_translate render (EvStateChanged i ep c) (sst_run render evs (sst_new t)))
       = [\<lparr>pub_topic = tp_device i t, pub_payload = render (JObj known), pub_retain = False\<rparr>]
     \<and> (\<forall>k. bt_get known k = fold (last_report i k) (evs @ [EvStateChanged i ep c]) None)"
proof -
  let ?s = "sst_run render evs (sst_new t)"
  let ?known = "snd (ds_apply render c (sst_known i ?s))"
  have wf: "bt_wf (sst_known i ?s)"
    by (rule sst_run_wf) (simp add: sst_known_new bt_wf_def)
  have t: "sst_topics ?s = t" using sst_run_known [of render evs "sst_new t"] by (simp add: sst_new_def)
  have "fst (ds_apply render c (sst_known i ?s)) = render (JObj ?known)"
    by (simp add: ds_apply_def Let_def)
  then have "fst (sst_translate render (EvStateChanged i ep c) ?s)
      = [\<lparr>pub_topic = tp_device i t, pub_payload = render (JObj ?known), pub_retain = False\<rparr>]"
    by (simp add: sst_known_def Let_def case_prod_unfold t)
  moreover have "bt_get ?known k = fold (last_report i k) (evs @ [EvStateChanged i ep c]) None" for k
    using sst_run_known [of render evs "sst_new t" i k]
    by (simp add: ds_apply_get last_report_def sst_known_new split: option.split)
  ultimately show ?thesis using ds_apply_wf [OF wf] by blast
qed

end
