(* ===== verification/Dev_Sources.thy ===== *)
theory Dev_Sources
  imports Def_Index State_Values
begin

text \<open>
  What a device reports and what it means, \<open>rszigbee-core/src/runtime/definitions/sources.rs\<close> and
  the facts a definition is matched on from \<open>definitions/mod.rs\<close>: the table from clusters and
  attributes to capabilities, reported attributes to state, received commands to actions, and the
  manufacturer-specific clusters of a definition.
\<close>

section \<open>What a definition is matched on\<close>

definition CL_ON_OFF :: cluster_id where "CL_ON_OFF = ClusterId 0x0006"
definition CL_LEVEL :: cluster_id where "CL_LEVEL = ClusterId 0x0008"
definition CL_IDENTIFY :: cluster_id where "CL_IDENTIFY = ClusterId 0x0003"
definition CL_WINDOW_COVERING :: cluster_id where "CL_WINDOW_COVERING = ClusterId 0x0102"
definition CL_LOCK :: cluster_id where "CL_LOCK = ClusterId 0x0101"

definition device_match_of :: "device_info \<Rightarrow> device_match" where
  "device_match_of info =
     dm_default\<lparr>dm_model_id := bi_model_id (di_basic info),
       dm_manufacturer_name := bi_manufacturer_name (di_basic info),
       dm_application_version := bi_app_version (di_basic info),
       dm_stack_version := bi_stack_version (di_basic info),
       dm_zcl_version := bi_zcl_version (di_basic info),
       dm_hardware_version := bi_hardware_version (di_basic info),
       dm_date_code := bi_date_code (di_basic info),
       dm_software_build_id := bi_software_build_id (di_basic info),
       dm_ieee := Some (di_ieee info),
       dm_endpoints := map (\<lambda>e. (em_new (ep_id e))\<lparr>em_profile := Some (ep_profile e),
           em_device_id := Some (ep_device_id e), em_input_clusters := ep_input_clusters e,
           em_output_clusters := ep_output_clusters e\<rparr>) (di_endpoints info)\<rparr>"

section \<open>Sources\<close>

datatype value_shape =
    VsNumeric numeric_spec
  | VsBoolean i64
  | VsNamed "(i64 \<times> string) list"

record cap_source =
  src_capability :: capability_id
  src_cluster :: cluster_id
  src_attribute :: attr_id
  src_ty :: zcl_type
  src_value :: value_shape

definition src_numeric :: "capability_id \<Rightarrow> u16 \<Rightarrow> u16 \<Rightarrow> zcl_type \<Rightarrow> i64 \<Rightarrow> cap_source" where
  "src_numeric capability cluster attribute ty divisor =
     \<lparr>src_capability = capability, src_cluster = ClusterId cluster, src_attribute = AttrId attribute,
      src_ty = ty, src_value = VsNumeric (ns_default\<lparr>ns_divisor := divisor\<rparr>)\<rparr>"

definition src_boolean :: "capability_id \<Rightarrow> u16 \<Rightarrow> zcl_type \<Rightarrow> cap_source" where
  "src_boolean capability cluster ty =
     \<lparr>src_capability = capability, src_cluster = ClusterId cluster, src_attribute = AttrId 0,
      src_ty = ty, src_value = VsBoolean 1\<rparr>"

fun well_known :: "extend \<Rightarrow> cap_source list option" where
  "well_known (ExTemperature _) = Some [src_numeric ''temperature'' 0x0402 0x0000 (TInt 2) 100]"
| "well_known (ExHumidity _) = Some [src_numeric ''humidity'' 0x0405 0x0000 (TUint 2) 100]"
| "well_known (ExSoilMoisture _) = Some [src_numeric ''soil_moisture'' 0x0408 0x0000 (TUint 2) 100]"
| "well_known (ExCo2 _) = Some [src_numeric ''co2'' 0x040d 0x0000 TSingle 1]"
| "well_known (ExIlluminance _) = Some [src_numeric ''illuminance'' 0x0400 0x0000 (TUint 2) 1]"
| "well_known (ExBattery voltage) =
     Some (src_numeric ''battery'' 0x0001 0x0021 (TUint 1) 2 #
       (if voltage then [src_numeric ''voltage'' 0x0001 0x0020 (TUint 1) 10] else []))"
| "well_known ExOccupancy = Some [src_boolean ''occupancy'' 0x0406 (TBitmap 1)]"
| "well_known (ExWindowCovering lift tilt _) =
     Some ((if lift then [src_numeric ''position'' 0x0102 0x0008 (TUint 1) 1] else []) @
       (if tilt then [src_numeric ''tilt'' 0x0102 0x0009 (TUint 1) 1] else []))"
| "well_known ExLock =
     Some [\<lparr>src_capability = ''lock'', src_cluster = CL_LOCK, src_attribute = AttrId 0,
       src_ty = Enum8, src_value = VsBoolean 1\<rparr>]"
| "well_known (ExOnOff _ _) = Some [src_boolean ''state'' 0x0006 TBool]"
| "well_known (ExLight brightness _ _) =
     Some (src_boolean ''state'' 0x0006 TBool #
       (if brightness then [src_numeric ''brightness'' 0x0008 0x0000 (TUint 1) 1] else []))"
| "well_known _ = None"

text \<open>The body of the loop over the definition's list; \<open>leak\<close> returns the name it is given.\<close>

definition extend_sources :: "extend \<Rightarrow> cap_source list" where
  "extend_sources e =
     (case well_known e of
        Some implied \<Rightarrow> implied
      | None \<Rightarrow>
          (case e of
             ExNumeric name cluster attribute spec _ \<Rightarrow>
               [\<lparr>src_capability = name, src_cluster = cluster, src_attribute = attribute,
                 src_ty = TInt 2, src_value = VsNumeric spec\<rparr>]
           | ExBinary name cluster attribute on _ _ \<Rightarrow>
               [\<lparr>src_capability = name, src_cluster = cluster, src_attribute = attribute,
                 src_ty = TBool, src_value = VsBoolean on\<rparr>]
           | ExEnumLookup name cluster attribute names _ \<Rightarrow>
               [\<lparr>src_capability = name, src_cluster = cluster, src_attribute = attribute,
                 src_ty = Enum8, src_value = VsNamed names\<rparr>]
           | _ \<Rightarrow> []))"

definition dev_sources :: "device_def \<Rightarrow> cap_source list" where
  "dev_sources d = concat (map extend_sources (dd_extend d))"

definition source_for :: "device_def \<Rightarrow> cluster_id \<Rightarrow> u16 \<Rightarrow> cap_source option" where
  "source_for d cluster attribute =
     find (\<lambda>s. src_cluster s = cluster \<and> attr_raw (src_attribute s) = attribute) (dev_sources d)"

section \<open>Reports to state\<close>

text \<open>\<open>i64::try_from\<close> of an unsigned integer; an \<open>i64\<close> is kept as its bits.\<close>

definition uint_as_i64 :: "zcl_value \<Rightarrow> i64 option" where
  "uint_as_i64 v =
     Option.bind (zv_as_uint v) (\<lambda>w. if unat w < 2 ^ 63 then Some w else None)"

definition zv_i64 :: "zcl_value \<Rightarrow> i64 option" where
  "zv_i64 v = map_option of_int (zv_as_int v)"

definition or_else :: "'a option \<Rightarrow> 'a option \<Rightarrow> 'a option" where
  "or_else a b = (case a of None \<Rightarrow> b | Some x \<Rightarrow> Some x)"

definition shape_value :: "value_shape \<Rightarrow> zcl_value \<Rightarrow> state_value option" where
  "shape_value shape v =
     (case shape of
        VsNumeric spec \<Rightarrow>
          map_option (\<lambda>raw. SvFloat (ns_apply spec raw)) (or_else (zv_i64 v) (uint_as_i64 v))
      | VsBoolean on \<Rightarrow>
          map_option (\<lambda>raw. SvBool (raw = on)) (or_else (or_else (uint_as_i64 v) (zv_i64 v))
            (case v of VBool b \<Rightarrow> Some (if b then 1 else 0) | _ \<Rightarrow> None))
      | VsNamed names \<Rightarrow>
          Option.bind (or_else (uint_as_i64 v) (zv_i64 v)) (\<lambda>raw.
            map_option (\<lambda>n. SvEnum (snd n)) (find (\<lambda>n. fst n = raw) names)))"

definition report_to_state ::
  "device_def \<Rightarrow> cluster_id \<Rightarrow> u16 \<Rightarrow> zcl_value \<Rightarrow> (capability_id \<times> state_value) option" where
  "report_to_state d cluster attribute v =
     Option.bind (source_for d cluster attribute) (\<lambda>s.
       if zv_is_invalid v then Some (src_capability s, SvNull)
       else map_option (Pair (src_capability s)) (shape_value (src_value s) v))"

section \<open>Commands to actions\<close>

definition upward :: "(string \<times> zcl_value) list \<Rightarrow> string \<Rightarrow> bool" where
  "upward params name =
     (case Option.bind (find (\<lambda>p. fst p = name) params) (\<lambda>p. zv_as_uint (snd p)) of
        None \<Rightarrow> True | Some mode \<Rightarrow> mode = 0)"

definition level_action :: "u8 \<Rightarrow> (string \<times> zcl_value) list \<Rightarrow> string option" where
  "level_action command params =
     (if command = 0x00 \<or> command = 0x04 then Some ''brightness_move_to_level''
      else if command = 0x01 \<or> command = 0x05
      then Some (if upward params ''movemode'' then ''brightness_move_up'' else ''brightness_move_down'')
      else if command = 0x02 \<or> command = 0x06
      then Some (if upward params ''stepmode'' then ''brightness_step_up'' else ''brightness_step_down'')
      else if command = 0x03 \<or> command = 0x07 then Some ''brightness_stop''
      else None)"

definition on_off_action :: "u8 \<Rightarrow> string option" where
  "on_off_action command =
     (if command = 0x00 \<or> command = 0x40 then Some ''off''
      else if command = 0x01 then Some ''on''
      else if command = 0x02 then Some ''toggle''
      else None)"

definition find_map :: "('a \<Rightarrow> 'b option) \<Rightarrow> 'a list \<Rightarrow> 'b option" where
  "find_map f xs = (case List.map_filter f xs of [] \<Rightarrow> None | b # _ \<Rightarrow> Some b)"

definition command_to_action ::
  "device_def \<Rightarrow> cluster_id \<Rightarrow> u8 \<Rightarrow> (string \<times> zcl_value) list \<Rightarrow> (capability_id \<times> string) option" where
  "command_to_action d cluster command params =
     Option.bind
       (if cluster = CL_ON_OFF
        then Option.bind (find_map (\<lambda>e. case e of ExCommandsOnOff names _ \<Rightarrow> Some names | _ \<Rightarrow> None)
               (dd_extend d)) (\<lambda>declared. map_option (Pair declared) (on_off_action command))
        else if cluster = CL_LEVEL
        then Option.bind (find_map (\<lambda>e. case e of ExCommandsLevelCtrl names _ \<Rightarrow> Some names | _ \<Rightarrow> None)
               (dd_extend d)) (\<lambda>declared. map_option (Pair declared) (level_action command params))
        else None)
       (\<lambda>(declared, action).
          if action \<in> set declared then Some (''action'', action) else None)"

section \<open>Custom clusters\<close>

definition typed_params :: "(string \<times> u8) list \<Rightarrow> (string \<times> zcl_type) list" where
  "typed_params params = map (\<lambda>(n, tag). (n, zt_from_u8 tag)) params"

definition custom_cluster_def :: "custom_cluster \<Rightarrow> cluster_def" where
  "custom_cluster_def c =
     (let d = (cd_new (cluster_raw (cc_id c)) (cc_name c))
                \<lparr>cd_manufacturer := map_option ManufacturerCode (cc_manufacturer c)\<rparr>;
          d = fold (\<lambda>(i, name, tag). cd_attr i name (zt_from_u8 tag)) (cc_attributes c) d;
          d = fold (\<lambda>(i, name, params). cd_cmd i name (typed_params params)) (cc_commands c) d
      in fold (\<lambda>(i, name, params). cd_rsp i name (typed_params params)) (cc_responses c) d)"

definition custom_clusters :: "device_def \<Rightarrow> cluster_def list" where
  "custom_clusters d =
     map custom_cluster_def
       (List.map_filter (\<lambda>e. case e of ExAddCustomCluster c \<Rightarrow> Some c | _ \<Rightarrow> None) (dd_extend d))"

section \<open>Facts about sources\<close>

lemma find_map_Some: "find_map f xs = Some b \<Longrightarrow> \<exists>x \<in> set xs. f x = Some b"
  by (induction xs) (auto simp: find_map_def map_filter_simps split: option.splits list.splits)

lemma find_map_None: "find_map f xs = None \<longleftrightarrow> (\<forall>x \<in> set xs. f x = None)"
  by (induction xs) (auto simp: find_map_def map_filter_simps split: option.splits list.splits)

lemma source_for_Some:
  "source_for d cluster attribute = Some s \<Longrightarrow>
     s \<in> set (dev_sources d) \<and> src_cluster s = cluster \<and> attr_raw (src_attribute s) = attribute"
  by (auto simp: source_for_def find_Some_iff)

lemma source_for_None:
  "source_for d cluster attribute = None \<longleftrightarrow>
     (\<forall>s \<in> set (dev_sources d). src_cluster s = cluster \<longrightarrow> attr_raw (src_attribute s) \<noteq> attribute)"
  by (auto simp: source_for_def find_None_iff)

lemma fold_cd_attr:
  "cd_id (fold (\<lambda>(i, name, tag). cd_attr i name (zt_from_u8 tag)) xs d) = cd_id d \<and>
   (cd_wf d \<longrightarrow> cd_wf (fold (\<lambda>(i, name, tag). cd_attr i name (zt_from_u8 tag)) xs d))"
proof (induction xs arbitrary: d)
  case (Cons x xs)
  then show ?case by (cases x, simp add: cd_wf_builders, simp add: cd_attr_def)
qed simp

lemma fold_cd_cmd:
  "cd_id (fold (\<lambda>(i, name, params). cd_cmd i name (typed_params params)) xs d) = cd_id d \<and>
   (cd_wf d \<longrightarrow> cd_wf (fold (\<lambda>(i, name, params). cd_cmd i name (typed_params params)) xs d))"
proof (induction xs arbitrary: d)
  case (Cons x xs)
  then show ?case by (cases x, simp add: cd_wf_builders, simp add: cd_cmd_def)
qed simp

lemma fold_cd_rsp:
  "cd_id (fold (\<lambda>(i, name, params). cd_rsp i name (typed_params params)) xs d) = cd_id d \<and>
   (cd_wf d \<longrightarrow> cd_wf (fold (\<lambda>(i, name, params). cd_rsp i name (typed_params params)) xs d))"
proof (induction xs arbitrary: d)
  case (Cons x xs)
  then show ?case by (cases x, simp add: cd_wf_builders, simp add: cd_rsp_def)
qed simp

lemma custom_cluster_wf: "cd_wf (custom_cluster_def c) \<and> cd_id (custom_cluster_def c) = cc_id c"
proof -
  have "cd_wf ((cd_new (cluster_raw (cc_id c)) (cc_name c))
      \<lparr>cd_manufacturer := map_option ManufacturerCode (cc_manufacturer c)\<rparr>)"
    using cd_wf_builders(1) [of "cluster_raw (cc_id c)" "cc_name c"] by (simp add: cd_wf_def)
  then show ?thesis
    by (simp add: custom_cluster_def_def Let_def fold_cd_attr fold_cd_cmd fold_cd_rsp)
      (simp add: cd_new_def)
qed

section \<open>Properties\<close>

text \<open>
  an action is only ever one the definition declares, for a command of the cluster it
  declares it on: an on, off or toggle for a device with on/off commands, a level action for one
  with level commands. The two directions of a dimmer are told apart by the mode byte.
\<close>

theorem action_declared:
  "command_to_action d cluster command params = Some (capability, action) \<longleftrightarrow>
     capability = ''action'' \<and>
     (cluster = CL_ON_OFF \<and> on_off_action command = Some action
        \<and> (\<exists>declared. find_map (\<lambda>e. case e of ExCommandsOnOff names _ \<Rightarrow> Some names | _ \<Rightarrow> None)
             (dd_extend d) = Some declared \<and> action \<in> set declared)
      \<or> cluster = CL_LEVEL \<and> level_action command params = Some action
        \<and> (\<exists>declared. find_map (\<lambda>e. case e of ExCommandsLevelCtrl names _ \<Rightarrow> Some names | _ \<Rightarrow> None)
             (dd_extend d) = Some declared \<and> action \<in> set declared))"
  by (auto simp: command_to_action_def bind_eq_Some_conv CL_ON_OFF_def CL_LEVEL_def split: if_splits)

text \<open>
  C39: an attribute reported as a single-precision float never becomes state, whatever the definition,
  the cluster and the attribute: a float is neither a signed nor an unsigned integer, and the shapes
  a source can have read only those. Only the encoding for no reading gets through, as null, where
  there is a source. Carbon dioxide is such an attribute: the one source the code implies for it is
  of this type, so no concentration is ever published.
\<close>

theorem float_report_never_state:
  "(case decode_value TSingle r of
      (Inr v, _) \<Rightarrow>
        report_to_state d cluster attribute v
          = (if zv_is_invalid v then map_option (\<lambda>s. (src_capability s, SvNull)) (source_for d cluster attribute)
             else None)
    | (Inl _, _) \<Rightarrow> True)
   \<and> map (\<lambda>s. (src_capability s, src_cluster s, src_ty s)) (extend_sources (ExCo2 spec))
       = [(''co2'', ClusterId 0x040d, TSingle)]"
proof -
  have "report_to_state d cluster attribute v
      = (if zv_is_invalid v then map_option (\<lambda>s. (src_capability s, SvNull)) (source_for d cluster attribute)
         else None)" if float: "v = VInvalid TSingle \<or> (\<exists>f. v = VSingle f)" for v
  proof (cases "v = VInvalid TSingle")
    case True
    then show ?thesis by (cases "source_for d cluster attribute") (simp_all add: report_to_state_def)
  next
    case False
    then obtain f where v: "v = VSingle f" using float by blast
    have "shape_value shape (VSingle f) = None" for shape
      by (cases shape) (simp_all add: shape_value_def zv_i64_def uint_as_i64_def or_else_def)
    then show ?thesis by (cases "source_for d cluster attribute") (simp_all add: report_to_state_def v)
  qed
  then show ?thesis
    by (auto simp: rd_bind_def extend_sources_def src_numeric_def split: sum.splits prod.splits)
qed

end
