(* ===== verification/Dev_Configure.thy ===== *)
theory Dev_Configure
  imports Dev_Sources
begin

text \<open>
  What joining a device does to it, \<open>rszigbee-core/src/runtime/definitions/configure.rs\<close>: the
  bindings and reporting a definition asks for, explicit ones first and then those its
  capabilities imply.
\<close>

section \<open>Definitions\<close>

record configure_step =
  cs_endpoint :: endpoint_id
  cs_cluster :: cluster_id
  cs_attribute :: "attr_id option"
  cs_attribute_type :: "zcl_type option"
  cs_min_interval :: u16
  cs_max_interval :: u16
  cs_min_change :: u64

definition DEFAULT_MIN_INTERVAL :: u16 where "DEFAULT_MIN_INTERVAL = 10"
definition DEFAULT_MAX_INTERVAL :: u16 where "DEFAULT_MAX_INTERVAL = 3600"

definition step_key :: "configure_step \<Rightarrow> endpoint_id \<times> cluster_id \<times> attr_id option" where
  "step_key s = (cs_endpoint s, cs_cluster s, cs_attribute s)"

text \<open>The body of the loop over explicit bindings.\<close>

definition binding_steps :: "device_def \<Rightarrow> device_info \<Rightarrow> binding \<Rightarrow> configure_step list" where
  "binding_steps d info b =
     (if di_endpoints info \<noteq> [] \<and> di_endpoint (bnd_endpoint b) info = None then []
      else if bnd_reporting b = []
      then [\<lparr>cs_endpoint = bnd_endpoint b, cs_cluster = bnd_cluster b, cs_attribute = None,
             cs_attribute_type = None, cs_min_interval = 0, cs_max_interval = 0, cs_min_change = 0\<rparr>]
      else map (\<lambda>r. \<lparr>cs_endpoint = bnd_endpoint b, cs_cluster = bnd_cluster b,
             cs_attribute = Some (rep_attribute r),
             cs_attribute_type = map_option src_ty
               (find (\<lambda>s. src_cluster s = bnd_cluster b \<and> src_attribute s = rep_attribute r) (dev_sources d)),
             cs_min_interval = rep_min_interval r, cs_max_interval = rep_max_interval r,
             cs_min_change = rep_min_change r\<rparr>) (bnd_reporting b))"

definition source_endpoint :: "device_info \<Rightarrow> cluster_id \<Rightarrow> endpoint_id" where
  "source_endpoint info cluster =
     (case di_endpoint_with_input cluster info of None \<Rightarrow> EndpointId 1 | Some e \<Rightarrow> ep_id e)"

definition source_step :: "device_info \<Rightarrow> cap_source \<Rightarrow> configure_step" where
  "source_step info s =
     \<lparr>cs_endpoint = source_endpoint info (src_cluster s), cs_cluster = src_cluster s,
      cs_attribute = Some (src_attribute s), cs_attribute_type = Some (src_ty s),
      cs_min_interval = DEFAULT_MIN_INTERVAL, cs_max_interval = DEFAULT_MAX_INTERVAL,
      cs_min_change = 0\<rparr>"

text \<open>The loop over sources, with the set of what is already configured.\<close>

primrec implied_steps ::
  "device_info \<Rightarrow> (endpoint_id \<times> cluster_id \<times> attr_id option) set \<Rightarrow> cap_source list \<Rightarrow> configure_step list" where
  "implied_steps info seen [] = []"
| "implied_steps info seen (s # ss) =
     (let step = source_step info s in
      if step_key step \<in> seen then implied_steps info seen ss
      else step # implied_steps info (insert (step_key step) seen) ss)"

definition configure_plan :: "device_def \<Rightarrow> device_info \<Rightarrow> configure_step list" where
  "configure_plan d info =
     (let steps = concat (map (binding_steps d info) (dd_bindings d)) in
      steps @ implied_steps info (set (map step_key steps)) (dev_sources d))"

section \<open>The loop over sources\<close>

lemma implied_steps_complete:
  "s \<in> set ss \<Longrightarrow> step_key (source_step info s) \<in> seen \<union> step_key ` set (implied_steps info seen ss)"
proof (induction ss arbitrary: seen)
  case Nil
  then show ?case by simp
next
  case (Cons a ss)
  define k where "k = step_key (source_step info a)"
  have rest: "step_key (source_step info s) \<in> insert k seen \<union> step_key ` set (implied_steps info (insert k seen) ss)"
    if "s \<in> set ss"
    by (rule Cons.IH [OF that])
  show ?case
  proof (cases "k \<in> seen")
    case True
    then have "insert k seen = seen" by auto
    with True Cons.prems rest show ?thesis by (auto simp: k_def [symmetric] Let_def)
  next
    case False
    with Cons.prems rest show ?thesis by (auto simp: k_def [symmetric] Let_def)
  qed
qed

text \<open>Each step is that of the first source with its cluster and attribute.\<close>

lemma implied_steps_first:
  "st \<in> set (implied_steps info seen ss) \<Longrightarrow>
     (\<exists>s \<in> set ss. st = source_step info s
        \<and> find (\<lambda>t. src_cluster t = src_cluster s \<and> src_attribute t = src_attribute s) ss = Some s)
     \<and> step_key st \<notin> seen"
proof (induction ss arbitrary: seen)
  case Nil
  then show ?case by simp
next
  case (Cons a ss)
  show ?case
  proof (cases "st = source_step info a \<and> step_key (source_step info a) \<notin> seen")
    case True
    then show ?thesis by auto
  next
    case False
    define seen' where "seen' = insert (step_key (source_step info a)) seen"
    have "st \<in> set (implied_steps info seen' ss)"
    proof (cases "step_key (source_step info a) \<in> seen")
      case True
      then have "seen' = seen" by (auto simp: seen'_def)
      with True Cons.prems show ?thesis by simp
    next
      case new: False
      with False Cons.prems show ?thesis by (simp add: Let_def seen'_def)
    qed
    from Cons.IH [OF this] obtain s where s: "s \<in> set ss" "st = source_step info s"
      "find (\<lambda>t. src_cluster t = src_cluster s \<and> src_attribute t = src_attribute s) ss = Some s"
      "step_key st \<notin> seen'" by blast
    have "\<not> (src_cluster a = src_cluster s \<and> src_attribute a = src_attribute s)"
      using s(2,4) by (auto simp: seen'_def step_key_def source_step_def)
    moreover have "step_key st \<notin> seen" using s(4) by (simp add: seen'_def)
    ultimately show ?thesis using s(1-3) by (intro conjI bexI [of _ s]) auto
  qed
qed

lemma distinct_implied_steps: "distinct (map step_key (implied_steps info seen ss))"
proof (induction ss arbitrary: seen)
  case Nil
  then show ?case by simp
next
  case (Cons a ss)
  have "step_key (source_step info a)
      \<notin> step_key ` set (implied_steps info (insert (step_key (source_step info a)) seen) ss)"
    using implied_steps_first by fastforce
  with Cons show ?case by (simp add: Let_def)
qed

lemma source_for_attr:
  "source_for d c (attr_raw a) = find (\<lambda>s. src_cluster s = c \<and> src_attribute s = a) (dev_sources d)"
  unfolding source_for_def by (rule arg_cong [where f = "\<lambda>p. find p _"]) (auto intro: attr_id.expand)

section \<open>Properties\<close>

text \<open>
  C14: what is configured to be reported is what a report is understood as. For every capability
  source of the definition the plan configures its attribute, on the endpoint that hosts the
  cluster; and every attribute the plan configures carries the type of the very source that later
  turns its reports into state, or no type when no source does.
\<close>

theorem configure_plan_agrees_with_reports:
  "list_all (\<lambda>s. list_ex (\<lambda>st. cs_endpoint st = source_endpoint info (src_cluster s)
        \<and> cs_cluster st = src_cluster s \<and> cs_attribute st = Some (src_attribute s))
      (configure_plan d info)) (dev_sources d)
   \<and> list_all (\<lambda>st. cs_attribute_type st = (case cs_attribute st of
        None \<Rightarrow> None
      | Some a \<Rightarrow> map_option src_ty (source_for d (cs_cluster st) (attr_raw a))))
      (configure_plan d info)"
proof
  let ?explicit = "concat (map (binding_steps d info) (dd_bindings d))"
  show "list_all (\<lambda>s. list_ex (\<lambda>st. cs_endpoint st = source_endpoint info (src_cluster s)
        \<and> cs_cluster st = src_cluster s \<and> cs_attribute st = Some (src_attribute s))
      (configure_plan d info)) (dev_sources d)"
    using implied_steps_complete [of _ "dev_sources d" info "set (map step_key ?explicit)"]
    unfolding list_all_iff list_ex_iff configure_plan_def Let_def
    by (fastforce simp: step_key_def source_step_def)
  have "cs_attribute_type st = (case cs_attribute st of None \<Rightarrow> None
      | Some a \<Rightarrow> map_option src_ty (source_for d (cs_cluster st) (attr_raw a)))"
    if "st \<in> set ?explicit" for st
    using that by (auto simp: binding_steps_def source_for_attr split: if_splits)
  moreover have "cs_attribute_type st = (case cs_attribute st of None \<Rightarrow> None
      | Some a \<Rightarrow> map_option src_ty (source_for d (cs_cluster st) (attr_raw a)))"
    if "st \<in> set (implied_steps info seen (dev_sources d))" for st seen
    using implied_steps_first [OF that] by (auto simp: source_step_def source_for_attr)
  ultimately show "list_all (\<lambda>st. cs_attribute_type st = (case cs_attribute st of
        None \<Rightarrow> None
      | Some a \<Rightarrow> map_option src_ty (source_for d (cs_cluster st) (attr_raw a))))
      (configure_plan d info)"
    unfolding list_all_iff configure_plan_def Let_def by auto
qed

text \<open>
  An explicit step is for an endpoint the device has, when its endpoints are known, and nothing
  the plan implies repeats an explicit step or another implied one.
\<close>

lemma configure_plan_implied_distinct:
  "\<exists>implied. configure_plan d info = concat (map (binding_steps d info) (dd_bindings d)) @ implied
     \<and> distinct (map step_key implied)
     \<and> (\<forall>st \<in> set implied. step_key st \<notin> step_key ` set (concat (map (binding_steps d info) (dd_bindings d))))"
proof -
  let ?explicit = "concat (map (binding_steps d info) (dd_bindings d))"
  let ?implied = "implied_steps info (set (map step_key ?explicit)) (dev_sources d)"
  have "step_key st \<notin> step_key ` set ?explicit" if "st \<in> set ?implied" for st
    using implied_steps_first [OF that] by simp
  moreover have "distinct (map step_key ?implied)" by (rule distinct_implied_steps)
  moreover have "configure_plan d info = ?explicit @ ?implied" by (simp add: configure_plan_def Let_def)
  ultimately show ?thesis by blast
qed

lemma binding_steps_endpoint:
  "st \<in> set (binding_steps d info b) \<Longrightarrow>
     cs_endpoint st = bnd_endpoint b \<and> (di_endpoints info = [] \<or> di_endpoint (cs_endpoint st) info \<noteq> None)"
  by (auto simp: binding_steps_def split: if_splits)

end
