(* ===== verification/Dev_Commands.thy ===== *)
theory Dev_Commands
  imports Dev_Sources
begin

text \<open>
  Turning an intent into a cluster and a command,
  \<open>rszigbee-core/src/runtime/definitions/commands.rs\<close>. The text in an error comes from a derived
  \<open>Debug\<close> implementation, which is an argument.
\<close>

section \<open>Definitions\<close>

record debug_text =
  dbg_value :: "state_value \<Rightarrow> string"
  dbg_command :: "device_command \<Rightarrow> string"

record planned_zcl =
  pz_endpoint :: endpoint_id
  pz_cluster :: cluster_id
  pz_command :: command_id
  pz_payload :: "u8 list"

record cover =
  cov_lift :: bool
  cov_tilt :: bool
  cov_inverted :: bool

definition cover_controls :: "device_def \<Rightarrow> cover option" where
  "cover_controls d =
     find_map (\<lambda>e. case e of
         ExWindowCovering lift tilt inverted \<Rightarrow> Some \<lparr>cov_lift = lift, cov_tilt = tilt, cov_inverted = inverted\<rparr>
       | _ \<Rightarrow> None) (dd_extend d)"

definition cover_percent :: "u8 \<Rightarrow> bool \<Rightarrow> u8" where
  "cover_percent opened inverted =
     (let closed = 100 - min opened 100 in if inverted then min opened 100 else closed)"

definition on_off_endpoints :: "device_def \<Rightarrow> endpoint_id list option" where
  "on_off_endpoints d =
     find_map (\<lambda>e. case e of
         ExOnOff endpoints _ \<Rightarrow> Some endpoints
       | ExLight _ _ _ \<Rightarrow> Some []
       | _ \<Rightarrow> None) (dd_extend d)"

definition has_brightness :: "device_def \<Rightarrow> bool" where
  "has_brightness d \<longleftrightarrow>
     list_ex (\<lambda>e. case e of ExLight brightness _ _ \<Rightarrow> brightness | _ \<Rightarrow> False) (dd_extend d)"

definition has_lock :: "device_def \<Rightarrow> bool" where
  "has_lock d \<longleftrightarrow> list_ex (\<lambda>e. case e of ExLock \<Rightarrow> True | _ \<Rightarrow> False) (dd_extend d)"

definition endpoint_for :: "device_def \<Rightarrow> device_info \<Rightarrow> endpoint_id list \<Rightarrow> cluster_id \<Rightarrow> endpoint_id" where
  "endpoint_for d info declared cluster =
     (case declared of
        first # _ \<Rightarrow> first
      | [] \<Rightarrow>
          (case dd_endpoint_names d of
             (_, i) # _ \<Rightarrow> i
           | [] \<Rightarrow>
               (case di_endpoint_with_input cluster info of None \<Rightarrow> EndpointId 1 | Some e \<Rightarrow> ep_id e)))"

text \<open>\<open>to_ascii_uppercase\<close>; \<open>eq_ignore_ascii_case\<close> compares what it gives.\<close>

definition ascii_upper :: "string \<Rightarrow> string" where
  "ascii_upper s =
     map (\<lambda>c. let n = of_char c :: nat in if 97 \<le> n \<and> n \<le> 122 then char_of (n - 32) else c) s"

definition truthy_word :: "string \<Rightarrow> bool option" where
  "truthy_word s =
     (let u = ascii_upper s in
      if u \<in> set [''ON'', ''TRUE'', ''1'', ''OPEN'', ''LOCK''] then Some True
      else if u \<in> set [''OFF'', ''FALSE'', ''0'', ''CLOSE'', ''UNLOCK''] then Some False
      else None)"

fun truthy :: "state_value \<Rightarrow> bool option" where
  "truthy (SvBool b) = Some b"
| "truthy (SvInt i) = Some (i \<noteq> 0)"
| "truthy (SvStr s) = truthy_word s"
| "truthy (SvEnum s) = truthy_word s"
| "truthy _ = None"

fun sv_integer :: "state_value \<Rightarrow> i64 option" where
  "sv_integer (SvInt i) = Some i"
| "sv_integer (SvFloat f) =
     (if f64_is_finite f \<and> \<bar>f64_round f\<bar> \<le> 9007199254740992 then Some (of_int (f64_round f)) else None)"
| "sv_integer _ = None"

text \<open>\<open>u8::try_from\<close> and \<open>u16::try_from\<close> of an \<open>i64\<close>.\<close>

definition i64_to :: "nat \<Rightarrow> i64 \<Rightarrow> 'a::len word option" where
  "i64_to bound i = (if unat i < bound then Some (ucast i) else None)"

fun toggle_word :: "state_value \<Rightarrow> bool" where
  "toggle_word (SvStr s) \<longleftrightarrow> ascii_upper s = ''TOGGLE''"
| "toggle_word (SvEnum s) \<longleftrightarrow> ascii_upper s = ''TOGGLE''"
| "toggle_word _ \<longleftrightarrow> False"

definition lower_set :: "debug_text \<Rightarrow> capability_id \<Rightarrow> state_value \<Rightarrow> command_error + device_command" where
  "lower_set dbg capability v =
     (let invalid = CeInvalidValue capability (dbg_value dbg v) in
      if capability = ''state''
      then (if toggle_word v then Inr DcToggle else ok_or invalid (map_option DcSetOn (truthy v)))
      else if capability = ''brightness''
      then ok_or invalid (map_option (\<lambda>raw. DcSetBrightness (br_new raw)) (Option.bind (sv_integer v) (i64_to 256)))
      else if capability = ''color_temp''
      then ok_or invalid (map_option (\<lambda>m. DcSetColorTemp (Mireds m)) (Option.bind (sv_integer v) (i64_to 65536)))
      else if capability = ''position''
      then ok_or invalid (map_option (\<lambda>p. DcSetPosition (percent_new p)) (Option.bind (sv_integer v) (i64_to 256)))
      else Inl (CeUnsupportedCapability capability))"

definition unimplemented_command :: "debug_text \<Rightarrow> device_command \<Rightarrow> command_error" where
  "unimplemented_command dbg c =
     CeInvalidValue ''command'' (dbg_command dbg c @ '' is not implemented by this build'')"

definition plan_cover ::
  "debug_text \<Rightarrow> device_def \<Rightarrow> device_info \<Rightarrow> device_command \<Rightarrow> command_error + planned_zcl" where
  "plan_cover dbg d info c =
     (let simple = (\<lambda>i. result_bind (ok_or (CeUnsupportedCapability ''position'') (cover_controls d)) (\<lambda>_.
            Inr \<lparr>pz_endpoint = endpoint_for d info [] CL_WINDOW_COVERING, pz_cluster = CL_WINDOW_COVERING,
                 pz_command = CommandId i, pz_payload = []\<rparr>));
          position = (\<lambda>name flag i p. result_bind (ok_or (CeUnsupportedCapability name) (cover_controls d)) (\<lambda>cover.
            if \<not> flag cover then Inl (CeUnsupportedCapability name)
            else Inr \<lparr>pz_endpoint = endpoint_for d info [] CL_WINDOW_COVERING,
                 pz_cluster = CL_WINDOW_COVERING, pz_command = CommandId i,
                 pz_payload = [cover_percent (percent_raw p) (cov_inverted cover)]\<rparr>))
      in case c of
        DcOpen \<Rightarrow> simple 0x00
      | DcClose \<Rightarrow> simple 0x01
      | DcStop \<Rightarrow> simple 0x02
      | DcSetPosition p \<Rightarrow> position ''position'' cov_lift 0x05 p
      | DcSetTilt p \<Rightarrow> position ''tilt'' cov_tilt 0x08 p
      | other \<Rightarrow> Inl (unimplemented_command dbg other))"

definition plan_on_off ::
  "device_def \<Rightarrow> device_info \<Rightarrow> u8 \<Rightarrow> command_error + planned_zcl" where
  "plan_on_off d info command =
     result_bind (ok_or (CeUnsupportedCapability ''state'') (on_off_endpoints d)) (\<lambda>declared.
       Inr \<lparr>pz_endpoint = endpoint_for d info declared CL_ON_OFF, pz_cluster = CL_ON_OFF,
            pz_command = CommandId command, pz_payload = []\<rparr>)"

definition plan_lock :: "device_def \<Rightarrow> device_info \<Rightarrow> u8 \<Rightarrow> command_error + planned_zcl" where
  "plan_lock d info command =
     (if \<not> has_lock d then Inl (CeUnsupportedCapability ''lock'')
      else Inr \<lparr>pz_endpoint = endpoint_for d info [] CL_LOCK, pz_cluster = CL_LOCK,
                pz_command = CommandId command, pz_payload = []\<rparr>)"

text \<open>The match of \<open>plan_command\<close>, which a general \<open>Set\<close> never reaches.\<close>

definition plan_specific ::
  "debug_text \<Rightarrow> device_def \<Rightarrow> device_info \<Rightarrow> device_command \<Rightarrow> command_error + planned_zcl" where
  "plan_specific dbg d info c =
     (case c of
        DcSetOn on \<Rightarrow> plan_on_off d info (if on then 1 else 0)
      | DcToggle \<Rightarrow> plan_on_off d info 0x02
      | DcSetBrightness level \<Rightarrow>
          (if \<not> has_brightness d then Inl (CeUnsupportedCapability ''brightness'')
           else Inr \<lparr>pz_endpoint = endpoint_for d info [] CL_LEVEL, pz_cluster = CL_LEVEL,
                     pz_command = CommandId 0x04, pz_payload = br_raw level # le_bytes 2 (0 :: u16)\<rparr>)
      | DcOpen \<Rightarrow> plan_cover dbg d info c
      | DcClose \<Rightarrow> plan_cover dbg d info c
      | DcStop \<Rightarrow> plan_cover dbg d info c
      | DcSetPosition _ \<Rightarrow> plan_cover dbg d info c
      | DcSetTilt _ \<Rightarrow> plan_cover dbg d info c
      | DcLock \<Rightarrow> plan_lock d info 0x00
      | DcUnlock \<Rightarrow> plan_lock d info 0x01
      | DcIdentify duration \<Rightarrow>
          (let secs = duration div 1000000000; seconds = (if secs < 65536 then of_nat secs else - 1 :: u16) in
           Inr \<lparr>pz_endpoint = endpoint_for d info [] CL_IDENTIFY, pz_cluster = CL_IDENTIFY,
                pz_command = CommandId 0x00, pz_payload = le_bytes 2 seconds\<rparr>)
      | other \<Rightarrow> Inl (unimplemented_command dbg other))"

definition plan_set ::
  "debug_text \<Rightarrow> device_def \<Rightarrow> device_info \<Rightarrow> state_changes \<Rightarrow> command_error + planned_zcl" where
  "plan_set dbg d info changes =
     (case changes of
        [(capability, v)] \<Rightarrow>
          result_bind (lower_set dbg capability v) (plan_specific dbg d info)
      | _ \<Rightarrow> Inl (CeInvalidValue ''set'' ''a Set must name exactly one capability; send them separately''))"

definition plan_command ::
  "debug_text \<Rightarrow> device_def \<Rightarrow> device_info \<Rightarrow> device_command \<Rightarrow> command_error + planned_zcl" where
  "plan_command dbg d info c =
     (case c of DcSet changes \<Rightarrow> plan_set dbg d info changes | _ \<Rightarrow> plan_specific dbg d info c)"

section \<open>What a device supports\<close>

text \<open>Read off the definition's list alone, without planning anything.\<close>

definition declares :: "(extend \<Rightarrow> bool) \<Rightarrow> device_def \<Rightarrow> bool" where
  "declares p d \<longleftrightarrow> (\<exists>e \<in> set (dd_extend d). p e)"

fun is_switch :: "extend \<Rightarrow> bool" where
  "is_switch (ExOnOff _ _) \<longleftrightarrow> True"
| "is_switch (ExLight _ _ _) \<longleftrightarrow> True"
| "is_switch _ \<longleftrightarrow> False"

fun is_dimmer :: "extend \<Rightarrow> bool" where
  "is_dimmer (ExLight brightness _ _) \<longleftrightarrow> brightness"
| "is_dimmer _ \<longleftrightarrow> False"

fun is_cover :: "extend \<Rightarrow> bool" where
  "is_cover (ExWindowCovering _ _ _) \<longleftrightarrow> True"
| "is_cover _ \<longleftrightarrow> False"

fun is_lock :: "extend \<Rightarrow> bool" where
  "is_lock ExLock \<longleftrightarrow> True"
| "is_lock _ \<longleftrightarrow> False"

text \<open>Whether the first covering of the definition lifts or tilts.\<close>

definition first_cover :: "(cover \<Rightarrow> bool) \<Rightarrow> device_def \<Rightarrow> bool" where
  "first_cover p d \<longleftrightarrow> (case cover_controls d of None \<Rightarrow> False | Some c \<Rightarrow> p c)"

text \<open>
  What a command of this build needs of a definition, with the capability it is refused for without;
  \<open>None\<close> is a command this build does not implement.
\<close>

fun required :: "device_command \<Rightarrow> (capability_id \<times> (device_def \<Rightarrow> bool)) option" where
  "required (DcSetOn _) = Some (''state'', declares is_switch)"
| "required DcToggle = Some (''state'', declares is_switch)"
| "required (DcSetBrightness _) = Some (''brightness'', declares is_dimmer)"
| "required DcOpen = Some (''position'', declares is_cover)"
| "required DcClose = Some (''position'', declares is_cover)"
| "required DcStop = Some (''position'', declares is_cover)"
| "required (DcSetPosition _) = Some (''position'', first_cover cov_lift)"
| "required (DcSetTilt _) = Some (''tilt'', first_cover cov_tilt)"
| "required DcLock = Some (''lock'', declares is_lock)"
| "required DcUnlock = Some (''lock'', declares is_lock)"
| "required (DcIdentify _) = Some ([], \<lambda>_. True)"
| "required _ = None"

text \<open>Which values of a general set mean something: a word for on, off or toggle; a whole number.\<close>

definition switch_words :: "string list" where
  "switch_words = [''ON'', ''TRUE'', ''1'', ''OPEN'', ''LOCK'', ''OFF'', ''FALSE'', ''0'', ''CLOSE'', ''UNLOCK'', ''TOGGLE'']"

fun switch_value :: "state_value \<Rightarrow> bool" where
  "switch_value (SvBool _) \<longleftrightarrow> True"
| "switch_value (SvInt _) \<longleftrightarrow> True"
| "switch_value (SvStr s) \<longleftrightarrow> ascii_upper s \<in> set switch_words"
| "switch_value (SvEnum s) \<longleftrightarrow> ascii_upper s \<in> set switch_words"
| "switch_value _ \<longleftrightarrow> False"

fun whole_number :: "int \<Rightarrow> state_value \<Rightarrow> bool" where
  "whole_number most (SvInt i) \<longleftrightarrow> 0 \<le> sint i \<and> sint i \<le> most"
| "whole_number most (SvFloat f) \<longleftrightarrow> f64_is_finite f \<and> 0 \<le> f64_round f \<and> f64_round f \<le> most"
| "whole_number _ _ \<longleftrightarrow> False"

fun set_accepted :: "device_def \<Rightarrow> state_changes \<Rightarrow> bool" where
  "set_accepted d [(capability, v)] \<longleftrightarrow>
     (if capability = ''state'' then switch_value v \<and> declares is_switch d
      else if capability = ''brightness'' then whole_number 255 v \<and> declares is_dimmer d
      else capability = ''position'' \<and> whole_number 255 v \<and> first_cover cov_lift d)"
| "set_accepted _ _ \<longleftrightarrow> False"

lemma on_off_endpoints_iff: "on_off_endpoints d = None \<longleftrightarrow> \<not> declares is_switch d"
proof -
  have "(case e of ExOnOff endpoints _ \<Rightarrow> Some endpoints | ExLight _ _ _ \<Rightarrow> Some [] | _ \<Rightarrow> None) = None
      \<longleftrightarrow> \<not> is_switch e" for e
    by (cases e) simp_all
  then show ?thesis by (simp add: on_off_endpoints_def find_map_None declares_def)
qed

lemma cover_controls_iff: "cover_controls d = None \<longleftrightarrow> \<not> declares is_cover d"
proof -
  have "(case e of ExWindowCovering lift tilt inverted \<Rightarrow>
        Some \<lparr>cov_lift = lift, cov_tilt = tilt, cov_inverted = inverted\<rparr> | _ \<Rightarrow> None) = None
      \<longleftrightarrow> \<not> is_cover e" for e
    by (cases e) simp_all
  then show ?thesis by (simp add: cover_controls_def find_map_None declares_def)
qed

lemma has_brightness_iff: "has_brightness d \<longleftrightarrow> declares is_dimmer d"
proof -
  have "(case e of ExLight brightness _ _ \<Rightarrow> brightness | _ \<Rightarrow> False) \<longleftrightarrow> is_dimmer e" for e
    by (cases e) simp_all
  then show ?thesis by (simp add: has_brightness_def list_ex_iff declares_def)
qed

lemma has_lock_iff: "has_lock d \<longleftrightarrow> declares is_lock d"
proof -
  have "(case e of ExLock \<Rightarrow> True | _ \<Rightarrow> False) \<longleftrightarrow> is_lock e" for e
    by (cases e) simp_all
  then show ?thesis by (simp add: has_lock_def list_ex_iff declares_def)
qed

lemmas declared_iffs = on_off_endpoints_iff cover_controls_iff has_brightness_iff has_lock_iff

lemma result_bind_ok_or:
  "result_bind (ok_or e x) f = (case x of None \<Rightarrow> Inl e | Some a \<Rightarrow> f a)"
  by (cases x) simp_all

lemma Inr_option_case:
  "(\<exists>b. (case x of None \<Rightarrow> Inl e | Some a \<Rightarrow> Inr (f a)) = Inr b) \<longleftrightarrow> x \<noteq> None"
  by (cases x) simp_all

lemma declared_found:
  "declares is_switch d \<Longrightarrow> \<exists>x. on_off_endpoints d = Some x"
  "declares is_cover d \<Longrightarrow> \<exists>x. cover_controls d = Some x"
  "on_off_endpoints d = Some eps \<Longrightarrow> declares is_switch d" "cover_controls d = Some c \<Longrightarrow> declares is_cover d"
  using on_off_endpoints_iff [of d] cover_controls_iff [of d] by auto

lemma plan_specific_decided:
  "case required c of
     None \<Rightarrow> plan_specific dbg d info c = Inl (unimplemented_command dbg c)
   | Some (name, need) \<Rightarrow>
       (if need d then \<exists>p. plan_specific dbg d info c = Inr p
        else plan_specific dbg d info c = Inl (CeUnsupportedCapability name))"
proof (cases c)
  case (DcSetPosition x)
  then show ?thesis
    by (cases "cover_controls d") (simp_all add: plan_specific_def plan_cover_def first_cover_def)
next
  case (DcSetTilt x)
  then show ?thesis
    by (cases "cover_controls d") (simp_all add: plan_specific_def plan_cover_def first_cover_def)
qed (auto simp: plan_specific_def plan_cover_def plan_on_off_def plan_lock_def Let_def
    result_bind_ok_or Inr_option_case has_brightness_iff has_lock_iff dest: declared_found split: option.split)

lemma i64_to_iff:
  assumes "bound \<le> 2 ^ 63"
  shows "i64_to bound i \<noteq> (None :: 'a::len word option) \<longleftrightarrow> 0 \<le> sint i \<and> sint i < int bound"
proof (cases "bit i 63")
  case True
  then have neg: "sint i < 0" by (simp add: sint_uint signed_take_bit_negative_iff bit_uint_iff)
  have "\<not> uint i < 2 ^ 63"
  proof
    assume "uint i < 2 ^ 63"
    then have "take_bit 63 (uint i) = uint i" by (simp add: take_bit_int_eq_self)
    moreover have "bit (uint i) 63" using True by (simp add: bit_uint_iff)
    ultimately show False by (metis bit_take_bit_iff less_irrefl)
  qed
  then have "2 ^ 63 \<le> int (unat i)" by simp
  moreover have "int bound \<le> 2 ^ 63" using assms by (metis of_nat_le_iff of_nat_numeral of_nat_power)
  ultimately have "\<not> unat i < bound" by linarith
  with neg show ?thesis by (simp add: i64_to_def)
next
  case False
  then have "\<not> bit (uint i) 63" by (simp add: bit_uint_iff)
  then have "sint i = take_bit 63 (uint i)" by (simp add: sint_uint signed_take_bit_eq_if_positive)
  also have "\<dots> = uint i"
  proof (rule bit_eqI)
    fix n
    have "bit (uint i) n \<Longrightarrow> n < 63" using \<open>\<not> bit (uint i) 63\<close>
      by (cases "n = 63") (auto simp: bit_uint_iff)
    then show "bit (take_bit 63 (uint i)) n = bit (uint i) n" by (auto simp: bit_take_bit_iff)
  qed
  finally have "sint i = uint i" .
  moreover have "int (unat i) = uint i" by simp
  ultimately have "0 \<le> sint i \<and> (unat i < bound \<longleftrightarrow> sint i < int bound)" by linarith
  then show ?thesis by (simp add: i64_to_def)
qed

lemma whole_number_iff:
  assumes "bound \<le> 2 ^ 53"
  shows "Option.bind (sv_integer v) (i64_to bound) \<noteq> (None :: 'a::len word option)
    \<longleftrightarrow> whole_number (int bound - 1) v"
proof (cases v)
  case (SvInt i)
  then show ?thesis using i64_to_iff [of bound i] assms by auto
next
  case (SvFloat f)
  have "sint (of_int z :: i64) = z" if "\<bar>z\<bar> \<le> 9007199254740992" for z :: int
    using that by (simp add: sint_sbintrunc' signed_take_bit_int_eq_self)
  then show ?thesis using SvFloat i64_to_iff [of bound "of_int (f64_round f)"] assms by auto
qed simp_all

lemma switch_value_iff: "toggle_word v \<or> truthy v \<noteq> None \<longleftrightarrow> switch_value v"
  by (cases v) (auto simp: truthy_word_def switch_words_def Let_def)

lemma lower_set_state:
  "(\<exists>c. lower_set dbg ''state'' v = Inr c \<and> (\<exists>p. plan_specific dbg d info c = Inr p))
    \<longleftrightarrow> switch_value v \<and> declares is_switch d"
  unfolding switch_value_iff [symmetric]
  using plan_specific_decided [where c = DcToggle and dbg = dbg and d = d and info = info]
    plan_specific_decided [where c = "DcSetOn (the (truthy v))" and dbg = dbg and d = d and info = info]
  by (cases "truthy v") (auto simp: lower_set_def Let_def split: if_splits)

lemma set_plans:
  "(\<exists>c. lower_set dbg k v = Inr c \<and> (\<exists>p. plan_specific dbg d info c = Inr p)) \<longleftrightarrow> set_accepted d [(k, v)]"
proof -
  have w: "Option.bind (sv_integer v) (i64_to 256) = (None :: u8 option) \<longleftrightarrow> \<not> whole_number 255 v"
    using whole_number_iff [of 256 v, where 'a = 8] by (auto simp del: not_None_eq)
  have position: "(\<exists>p. plan_specific dbg d info (DcSetPosition x) = Inr p) \<longleftrightarrow> first_cover cov_lift d" for x
    using plan_specific_decided [where c = "DcSetPosition x" and dbg = dbg and d = d and info = info] by (auto split: if_splits)
  have brightness: "(\<exists>p. plan_specific dbg d info (DcSetBrightness x) = Inr p) \<longleftrightarrow> declares is_dimmer d" for x
    using plan_specific_decided [where c = "DcSetBrightness x" and dbg = dbg and d = d and info = info] by (auto split: if_splits)
  have colour: "\<not> (\<exists>p. plan_specific dbg d info (DcSetColorTemp x) = Inr p)" for x
    using plan_specific_decided [where c = "DcSetColorTemp x" and dbg = dbg and d = d and info = info] by simp
  consider "k = ''state''" | "k = ''brightness''" | "k = ''color_temp''" | "k = ''position''"
    | "k \<notin> {''state'', ''brightness'', ''color_temp'', ''position''}" by blast
  then show ?thesis
  proof cases
    case 1
    then show ?thesis using lower_set_state by simp
  next
    case 2
    then show ?thesis using w brightness
      by (cases "Option.bind (sv_integer v) (i64_to 256) :: u8 option") (simp_all add: lower_set_def Let_def)
  next
    case 3
    then show ?thesis using colour
      by (cases "Option.bind (sv_integer v) (i64_to 65536) :: u16 option") (simp_all add: lower_set_def Let_def)
  next
    case 4
    then show ?thesis using w position
      by (cases "Option.bind (sv_integer v) (i64_to 256) :: u8 option") (simp_all add: lower_set_def Let_def)
  next
    case 5
    then show ?thesis by (simp add: lower_set_def Let_def)
  qed
qed

section \<open>Properties\<close>


text \<open>The commands whose form as a delta comes back as the same command.\<close>

fun set_faithful :: "device_command \<Rightarrow> bool" where
  "set_faithful (DcSetOn _) \<longleftrightarrow> True"
| "set_faithful DcToggle \<longleftrightarrow> True"
| "set_faithful (DcSetBrightness b) \<longleftrightarrow> br_raw b \<le> 254"
| "set_faithful (DcSetColorTemp _) \<longleftrightarrow> True"
| "set_faithful (DcSetPosition p) \<longleftrightarrow> percent_raw p \<le> 100"
| "set_faithful _ \<longleftrightarrow> False"

lemma i64_to_u8: "i64_to 256 (ucast (x :: u8)) = Some x"
proof -
  have "unat (ucast x :: i64) = unat x"
    using unat_byte_bound [of x] by (simp add: unsigned_ucast_eq take_bit_nat_eq_self_iff)
  with unat_byte_bound [of x] show ?thesis
    by (simp add: i64_to_def ucast_up_ucast_id is_up)
qed

lemma i64_to_u16: "i64_to 65536 (ucast (x :: u16)) = Some x"
proof -
  have b: "unat x < 65536" using unsigned_less [of x] by simp
  then have "unat (ucast x :: i64) = unat x"
    by (simp add: unsigned_ucast_eq take_bit_nat_eq_self_iff)
  with b show ?thesis by (simp add: i64_to_def ucast_up_ucast_id is_up)
qed

lemma lower_to_changes:
  assumes "set_faithful c"
  shows "\<exists>k v. dc_to_changes c = Some [(k, v)] \<and> lower_set dbg k v = Inr c"
proof (cases c)
  case (DcSetOn on)
  then show ?thesis
    by (cases on) (simp_all add: sc_with_def sc_new_def lower_set_def ascii_upper_def truthy_word_def
        Let_def)
next
  case DcToggle
  then show ?thesis
    by (simp add: sc_with_def sc_new_def lower_set_def ascii_upper_def Let_def)
next
  case (DcSetBrightness b)
  moreover have "br_new (br_raw b) = b"
    using assms DcSetBrightness by (cases b) (simp add: br_new_def not_less [symmetric])
  ultimately show ?thesis
    by (simp add: sc_with_def sc_new_def lower_set_def Let_def i64_to_u8)
next
  case (DcSetColorTemp m)
  then show ?thesis
    by (simp add: sc_with_def sc_new_def lower_set_def Let_def i64_to_u16)
next
  case (DcSetPosition p)
  moreover have "percent_new (percent_raw p) = p"
    using assms DcSetPosition by (cases p) (simp add: percent_new_def not_less [symmetric])
  ultimately show ?thesis
    by (simp add: sc_with_def sc_new_def lower_set_def Let_def i64_to_u8)
qed (use assms in simp_all)

text \<open>
  C15: there is one execution path for switching, toggling, brightness, colour temperature and
  position: the command and its form as a general set plan the same frame or the same error.
\<close>

theorem set_form_agrees:
  assumes "set_faithful c"
  shows "\<exists>changes. dc_to_changes c = Some changes
    \<and> plan_command dbg d info (DcSet changes) = plan_command dbg d info c"
proof -
  obtain k v where kv: "dc_to_changes c = Some [(k, v)]" "lower_set dbg k v = Inr c"
    using lower_to_changes [OF assms] by blast
  have "plan_command dbg d info c = plan_specific dbg d info c"
    using assms by (cases c) (simp_all add: plan_command_def)
  then have "plan_command dbg d info (DcSet [(k, v)]) = plan_command dbg d info c"
    by (simp add: plan_command_def plan_set_def kv(2))
  with kv(1) show ?thesis by blast
qed

theorem set_form_agrees_witness:
  "\<exists>changes. dc_to_changes (DcSetBrightness (Brightness 200)) = Some changes
    \<and> plan_command \<lparr>dbg_value = (\<lambda>_. []), dbg_command = (\<lambda>_. [])\<rparr>
        ((dd_new ''m'')\<lparr>dd_extend := [ExLight True None False]\<rparr>) (di_new (Ieee 1) (Nwk 2) DkRouter) (DcSet changes)
      = plan_command \<lparr>dbg_value = (\<lambda>_. []), dbg_command = (\<lambda>_. [])\<rparr>
        ((dd_new ''m'')\<lparr>dd_extend := [ExLight True None False]\<rparr>) (di_new (Ieee 1) (Nwk 2) DkRouter)
        (DcSetBrightness (Brightness 200))"
  by (rule set_form_agrees) simp

text \<open>
  C38: the other commands drift from their form as a general set. Where a definition lets a covering be
  opened, closed, stopped or tilted, or a lock be locked or unlocked, the set form never does that.
  Opening, closing, locking and unlocking become switching: a command for the on/off cluster where
  the definition has a switch, and refused where it has none. Stopping and tilting are refused.
\<close>

theorem set_form_diverges:
  assumes "c \<in> {DcOpen, DcClose, DcStop, DcLock, DcUnlock, DcSetTilt x}"
    and "plan_command dbg d info c = Inr p"
  shows "\<exists>changes. dc_to_changes c = Some changes
    \<and> (case plan_command dbg d info (DcSet changes) of
         Inr q \<Rightarrow> declares is_switch d \<and> c \<in> {DcOpen, DcClose, DcLock, DcUnlock}
           \<and> pz_cluster q = CL_ON_OFF \<and> pz_command q = CommandId (if c \<in> {DcOpen, DcLock} then 1 else 0)
           \<and> pz_cluster p = (if c \<in> {DcOpen, DcClose} then CL_WINDOW_COVERING else CL_LOCK)
       | Inl e \<Rightarrow>
           (if c = DcStop then e = CeInvalidValue ''state'' (dbg_value dbg (SvEnum ''STOP''))
            else if c = DcSetTilt x then e = CeUnsupportedCapability ''tilt''
            else e = CeUnsupportedCapability ''state'' \<and> \<not> declares is_switch d))"
proof -
  note defs = sc_with_def sc_new_def plan_command_def plan_set_def lower_set_def Let_def
    ascii_upper_def truthy_word_def plan_specific_def plan_cover_def plan_on_off_def plan_lock_def result_bind_ok_or
  from assms show ?thesis
    by (elim insertE emptyE)
      (auto simp: defs on_off_endpoints_iff [symmetric] dest: declared_found(3) split: option.splits if_splits)
qed

text \<open>A covering that is also a switch: its set form switches it on instead of opening it.\<close>

theorem set_form_diverges_witness:
  "let dbg = \<lparr>dbg_value = (\<lambda>_. []), dbg_command = (\<lambda>_. [])\<rparr>;
       d = (dd_new ''m'')\<lparr>dd_extend := [ExWindowCovering True True False]\<rparr>;
       info = di_new (Ieee 1) (Nwk 2) DkRouter
   in \<exists>changes. dc_to_changes DcOpen = Some changes
        \<and> plan_command dbg d info (DcSet changes) = Inl (CeUnsupportedCapability ''state'')"
proof -
  define dbg where "dbg = \<lparr>dbg_value = (\<lambda>_. []), dbg_command = (\<lambda>_. [])\<rparr>"
  define d where "d = (dd_new ''m'')\<lparr>dd_extend := [ExWindowCovering True True False]\<rparr>"
  define info where "info = di_new (Ieee 1) (Nwk 2) DkRouter"
  have need: "declares is_cover d" "\<not> declares is_switch d" by (simp_all add: declares_def d_def)
  from need(1) obtain p where "plan_command dbg d info DcOpen = Inr p"
    using plan_specific_decided [where c = DcOpen and dbg = dbg and d = d and info = info] by (auto simp: plan_command_def)
  from set_form_diverges [of DcOpen undefined, OF _ this] need(2)
  have "\<exists>changes. dc_to_changes DcOpen = Some changes
      \<and> plan_command dbg d info (DcSet changes) = Inl (CeUnsupportedCapability ''state'')"
    by (auto split: sum.splits)
  then show ?thesis by (simp only: Let_def dbg_def d_def info_def)
qed

end
