(* ===== verification/Tuya_Engine.thy ===== *)
theory Tuya_Engine
  imports Dev_Commands Dev_Configure Tuya
begin

text \<open>
  The Tuya datapoint engine, \<open>rszigbee-core/src/runtime/tuya.rs\<close>, and the named behaviours it
  delegates to, \<open>runtime/behavior.rs\<close>: reported datapoints to state and commands to datapoints,
  both through the definition's table.
\<close>

section \<open>Behaviours\<close>

datatype 'a outcome = Handled 'a | NotHandled

primrec out_handled :: "'a outcome \<Rightarrow> 'a option" where
  "out_handled (Handled a) = Some a"
| "out_handled NotHandled = None"

definition out_is_handled :: "'a outcome \<Rightarrow> bool" where
  "out_is_handled x \<longleftrightarrow> (case x of Handled _ \<Rightarrow> True | NotHandled \<Rightarrow> False)"

record decode_context =
  dctx_device :: device_info
  dctx_definition :: device_def
  dctx_datapoint :: datapoint
  dctx_capability :: string

record encode_context =
  ectx_device :: device_info
  ectx_definition :: device_def
  ectx_command :: device_command

record configure_context =
  cctx_device :: device_info
  cctx_definition :: device_def

text \<open>An implementation of the trait is its name and its methods.\<close>

record behavior =
  bh_name :: string
  bh_decode_datapoint :: "decode_context \<Rightarrow> state_changes outcome"
  bh_encode_command :: "encode_context \<Rightarrow> datapoint list outcome"
  bh_configure :: "configure_context \<Rightarrow> configure_step list outcome"

type_synonym behavior_registry = "(string, behavior) btree"

definition bhr_new :: behavior_registry where "bhr_new = []"

definition bhr_insert :: "behavior \<Rightarrow> behavior_registry \<Rightarrow> behavior_registry" where
  "bhr_insert b r = bt_insert (bh_name b) b r"

definition bhr_get :: "string \<Rightarrow> behavior_registry \<Rightarrow> behavior option" where
  "bhr_get name r = bt_get r name"

definition bhr_names :: "behavior_registry \<Rightarrow> string list" where
  "bhr_names r = map fst r"

definition bhr_len :: "behavior_registry \<Rightarrow> nat" where
  "bhr_len r = length r"

definition bhr_is_empty :: "behavior_registry \<Rightarrow> bool" where
  "bhr_is_empty r \<longleftrightarrow> r = []"

section \<open>Datapoints to state\<close>

definition named_value :: "(i64 \<times> string) list \<Rightarrow> i64 \<Rightarrow> string option" where
  "named_value names v = map_option snd (find (\<lambda>n. fst n = v) names)"

text \<open>
  The shift of \<open>1u32\<close> by a bit number of 32 or more is an overflow; without overflow checks it
  shifts by the number modulo 32.
\<close>

definition dp_convert :: "tuya_datapoint \<Rightarrow> tuya_value \<Rightarrow> state_value option" where
  "dp_convert entry v =
     (case (td_kind entry, v) of
        (TkBool inverted, TvBool on) \<Rightarrow> Some (SvBool (on \<noteq> inverted))
      | (TkBool inverted, TvEnum x) \<Rightarrow> Some (SvBool ((x \<noteq> 0) \<noteq> inverted))
      | (TkBool inverted, TvNumber x) \<Rightarrow> Some (SvBool ((x \<noteq> 0) \<noteq> inverted))
      | (TkValue spec, TvNumber raw) \<Rightarrow> Some (SvFloat (ns_apply spec (scast raw)))
      | (TkValue spec, TvBitmap raw) \<Rightarrow> Some (SvFloat (ns_apply spec (ucast raw)))
      | (TkEnum names, TvBool on) \<Rightarrow>
          Some (case named_value names (if on then 1 else 0) of
            None \<Rightarrow> SvBool on | Some name \<Rightarrow> SvEnum name)
      | (TkEnum names, TvEnum raw) \<Rightarrow>
          Some (case named_value names (ucast raw) of
            None \<Rightarrow> SvInt (ucast raw) | Some name \<Rightarrow> SvEnum name)
      | (TkBitmap names, TvBitmap bits) \<Rightarrow>
          Some (SvList (map (\<lambda>n. SvStr (snd n)) (filter (\<lambda>n. bit bits (unat (fst n) mod 32)) names)))
      | (TkString, TvStr text) \<Rightarrow> Some (SvStr text)
      | (TkRaw, TvRaw bytes) \<Rightarrow> Some (SvList (map (\<lambda>b. SvInt (ucast b)) bytes))
      | _ \<Rightarrow> None)"

definition dp_entry :: "device_def \<Rightarrow> u8 \<Rightarrow> tuya_datapoint option" where
  "dp_entry d dp = find (\<lambda>e. td_dp e = dp) (dd_tuya_datapoints d)"

text \<open>The body of the loop over reported datapoints.\<close>

definition dp_state ::
  "device_def \<Rightarrow> device_info \<Rightarrow> behavior_registry \<Rightarrow> datapoint \<Rightarrow> state_changes \<Rightarrow> state_changes" where
  "dp_state d device behaviors point changes =
     (case dp_entry d (dpt_dp point) of
        None \<Rightarrow> changes
      | Some entry \<Rightarrow>
          (case td_kind entry of
             TkBehavior name \<Rightarrow>
               (case bhr_get name behaviors of
                  None \<Rightarrow> changes
                | Some behavior \<Rightarrow>
                    (case out_handled (bh_decode_datapoint behavior
                       \<lparr>dctx_device = device, dctx_definition = d, dctx_datapoint = point,
                        dctx_capability = td_name entry\<rparr>) of
                       Some delegated \<Rightarrow> sc_merge delegated changes
                     | None \<Rightarrow> changes))
           | _ \<Rightarrow>
               (case dp_convert entry (dpt_value point) of
                  Some v \<Rightarrow> sc_set (td_name entry) v changes
                | None \<Rightarrow> changes)))"

definition datapoints_to_state ::
  "device_def \<Rightarrow> datapoint list \<Rightarrow> device_info \<Rightarrow> behavior_registry \<Rightarrow> state_changes" where
  "datapoints_to_state d points device behaviors = fold (dp_state d device behaviors) points sc_new"

section \<open>Commands to datapoints\<close>

datatype intent = InBool bool | InNumber i64 | InNamed string

fun intent_of :: "device_command \<Rightarrow> (string \<times> intent) option" where
  "intent_of (DcSetOn on) = Some (''state'', InBool on)"
| "intent_of (DcSetBrightness level) = Some (''brightness'', InNumber (ucast (br_raw level)))"
| "intent_of (DcSetPosition p) = Some (''position'', InNumber (ucast (percent_raw p)))"
| "intent_of (DcSetPreset name) = Some (''preset'', InNamed name)"
| "intent_of (DcSetTargetTemperature degrees) =
     Some (''current_heating_setpoint'', InNumber (f64_round_as_i64 degrees))"
| "intent_of DcOpen = Some (''state'', InNamed ''OPEN'')"
| "intent_of DcClose = Some (''state'', InNamed ''CLOSE'')"
| "intent_of DcStop = Some (''state'', InNamed ''STOP'')"
| "intent_of DcLock = Some (''lock'', InBool True)"
| "intent_of DcUnlock = Some (''lock'', InBool False)"
| "intent_of _ = None"

definition i64_clamp :: "int \<Rightarrow> int" where
  "i64_clamp i = max (- (2 ^ 63)) (min (2 ^ 63 - 1) i)"

definition scaled_raw :: "numeric_spec \<Rightarrow> i64 \<Rightarrow> int" where
  "scaled_raw spec n =
     (let divisor = (if ns_divisor spec = 0 then 1 else ns_divisor spec) in
      i64_clamp (i64_clamp (sint n - sint (ns_offset spec)) * sint divisor))"

definition value_of_name :: "(string \<Rightarrow> bool) \<Rightarrow> (i64 \<times> string) list \<Rightarrow> i64 option" where
  "value_of_name p names = map_option fst (find (\<lambda>n. p (snd n)) names)"

definition encode_intent :: "tuya_datapoint \<Rightarrow> intent \<Rightarrow> tuya_value option" where
  "encode_intent entry intent =
     (case (td_kind entry, intent) of
        (TkBool inverted, InBool on) \<Rightarrow> Some (TvBool (on \<noteq> inverted))
      | (TkValue spec, InNumber n) \<Rightarrow>
          (let raw = scaled_raw spec n in
           if - (2 ^ 31) \<le> raw \<and> raw < 2 ^ 31 then Some (TvNumber (of_int raw)) else None)
      | (TkEnum names, InNamed name) \<Rightarrow>
          map_option TvEnum (Option.bind (value_of_name (\<lambda>n. n = name) names) (i64_to 256))
      | (TkEnum names, InBool on) \<Rightarrow>
          map_option TvEnum (Option.bind
            (value_of_name (\<lambda>n. ascii_upper n = (if on then ''ON'' else ''OFF'')) names) (i64_to 256))
      | (TkString, InNamed name) \<Rightarrow> Some (TvStr name)
      | _ \<Rightarrow> None)"

definition command_to_datapoint :: "device_def \<Rightarrow> device_command \<Rightarrow> datapoint option" where
  "command_to_datapoint d c =
     Option.bind (intent_of c) (\<lambda>(capability, intent).
     Option.bind (find (\<lambda>e. td_name e = capability) (dd_tuya_datapoints d)) (\<lambda>entry.
       if td_access entry = AccReport then None
       else map_option (\<lambda>v. \<lparr>dpt_dp = td_dp entry, dpt_value = v\<rparr>) (encode_intent entry intent)))"

primrec via_behavior ::
  "device_def \<Rightarrow> device_command \<Rightarrow> device_info \<Rightarrow> behavior_registry \<Rightarrow> tuya_datapoint list
     \<Rightarrow> datapoint list option" where
  "via_behavior d c device behaviors [] = None"
| "via_behavior d c device behaviors (entry # entries) =
     (case td_kind entry of
        TkBehavior name \<Rightarrow>
          (case bhr_get name behaviors of
             None \<Rightarrow> via_behavior d c device behaviors entries
           | Some behavior \<Rightarrow>
               (case out_handled (bh_encode_command behavior
                  \<lparr>ectx_device = device, ectx_definition = d, ectx_command = c\<rparr>) of
                  Some points \<Rightarrow> Some points
                | None \<Rightarrow> via_behavior d c device behaviors entries))
      | _ \<Rightarrow> via_behavior d c device behaviors entries)"

definition command_via_behavior ::
  "device_def \<Rightarrow> device_command \<Rightarrow> device_info \<Rightarrow> behavior_registry \<Rightarrow> datapoint list option" where
  "command_via_behavior d c device behaviors =
     via_behavior d c device behaviors (dd_tuya_datapoints d)"

section \<open>What is written reads back\<close>

text \<open>What a reader of the state expects of a value that was asked for.\<close>

fun reads_as :: "intent \<Rightarrow> state_value \<Rightarrow> bool" where
  "reads_as (InBool on) v \<longleftrightarrow>
     v = SvBool on \<or> (\<exists>n. v = SvEnum n \<and> ascii_upper n = (if on then ''ON'' else ''OFF''))"
| "reads_as (InNumber n) v \<longleftrightarrow> (\<exists>x. v = SvFloat x \<and> f64_is_finite x \<and> f64_value x = of_int (sint n))"
| "reads_as (InNamed name) v \<longleftrightarrow> v = SvEnum name \<or> v = SvStr name"

text \<open>
  A table entry of sensible numbers: a divisor and an offset that a double represents, and no
  wire value with two names.
\<close>

definition entry_ok :: "tuya_datapoint \<Rightarrow> bool" where
  "entry_ok e \<longleftrightarrow>
     (case td_kind e of
        TkValue spec \<Rightarrow> \<bar>sint (ns_divisor spec)\<bar> \<le> 2 ^ 53 \<and> \<bar>sint (ns_offset spec)\<bar> \<le> 2 ^ 52
      | TkEnum names \<Rightarrow> distinct (map fst names)
      | _ \<Rightarrow> True)"

lemma i64_clamp_small: "\<bar>i64_clamp i\<bar> \<le> 2 ^ 31 \<Longrightarrow> i64_clamp i = i"
  by (auto simp: i64_clamp_def split: if_splits)

lemma named_value_distinct:
  assumes "distinct (map fst names)" "find (\<lambda>n. p (snd n)) names = Some (v, name)"
  shows "named_value names v = Some name \<and> p name"
proof -
  have mem: "(v, name) \<in> set names" and p: "p name"
    using assms(2) by (auto simp: find_Some_iff in_set_conv_nth) (metis snd_conv)
  have "map_of names v = Some name" using assms(1) mem by simp
  moreover have "named_value names v = map_of names v"
    by (induction names) (auto simp: named_value_def)
  ultimately show ?thesis using p by simp
qed

lemma ucast_i64_to_256:
  assumes "i64_to 256 v = Some (x :: u8)"
  shows "(ucast x :: i64) = v"
proof -
  have "unat v < 256" "x = ucast v" using assms by (auto simp: i64_to_def split: if_splits)
  then show ?thesis
    by (simp add: word_unat_eq_iff unsigned_ucast_eq unsigned_take_bit_eq take_bit_nat_eq_self_iff)
qed

lemma scast_i32:
  assumes "- (2 ^ 31) \<le> i" "i < 2 ^ 31"
  shows "sint (scast (of_int i :: u32) :: i64) = i"
proof -
  have a: "sint (of_int i :: u32) = i"
    using assms by (simp add: signed_of_int signed_take_bit_int_eq_self_iff)
  have b: "sint (of_int i :: i64) = i"
    using assms by (simp add: signed_of_int signed_take_bit_int_eq_self_iff)
  have "scast (of_int i :: u32) = (of_int (sint (of_int i :: u32)) :: i64)"
    by (rule scast_eq)
  then show ?thesis by (simp only: a b)
qed

lemma scaled_raw_exact:
  assumes "- (2 ^ 31) \<le> scaled_raw spec n" "scaled_raw spec n < 2 ^ 31"
  shows "scaled_raw spec n
      = (sint n - sint (ns_offset spec)) * sint (if ns_divisor spec = 0 then 1 else ns_divisor spec)"
    and "\<bar>sint n - sint (ns_offset spec)\<bar> \<le> 2 ^ 31"
proof -
  define d where "d = sint (if ns_divisor spec = 0 then 1 else ns_divisor spec)"
  define a where "a = sint n - sint (ns_offset spec)"
  have "(if ns_divisor spec = 0 then 1 else ns_divisor spec) \<noteq> 0" by simp
  then have d: "d \<noteq> 0" unfolding d_def using signed_word_eqI [where v = 0] by fastforce
  have raw: "scaled_raw spec n = i64_clamp (i64_clamp a * d)"
    by (simp add: scaled_raw_def Let_def a_def d_def)
  have "\<bar>i64_clamp (i64_clamp a * d)\<bar> \<le> 2 ^ 31" using assms unfolding raw by linarith
  then have p: "i64_clamp (i64_clamp a * d) = i64_clamp a * d" "\<bar>i64_clamp a * d\<bar> \<le> 2 ^ 31"
    using i64_clamp_small [of "i64_clamp a * d"] by simp_all
  have "\<bar>i64_clamp a\<bar> * 1 \<le> \<bar>i64_clamp a\<bar> * \<bar>d\<bar>" using d by (intro mult_left_mono) simp_all
  also have "\<dots> \<le> 2 ^ 31" using p(2) by (simp add: abs_mult)
  finally have a: "\<bar>i64_clamp a\<bar> \<le> 2 ^ 31" by simp
  then have "i64_clamp a = a" by (rule i64_clamp_small)
  with a p(1) show "scaled_raw spec n
      = (sint n - sint (ns_offset spec)) * sint (if ns_divisor spec = 0 then 1 else ns_divisor spec)"
    "\<bar>sint n - sint (ns_offset spec)\<bar> \<le> 2 ^ 31"
    by (simp_all add: raw a_def d_def)
qed

lemma value_reads_back:
  assumes "- (2 ^ 31) \<le> scaled_raw spec n" "scaled_raw spec n < 2 ^ 31"
    and "\<bar>sint (ns_divisor spec)\<bar> \<le> 2 ^ 53" "\<bar>sint (ns_offset spec)\<bar> \<le> 2 ^ 52"
  shows "reads_as (InNumber n) (SvFloat (ns_apply spec (scast (of_int (scaled_raw spec n) :: u32))))"
proof -
  let ?w = "scast (of_int (scaled_raw spec n) :: u32) :: i64"
  note exact = scaled_raw_exact [OF assms(1,2)]
  have w: "sint ?w = scaled_raw spec n" by (rule scast_i32 [OF assms(1,2)])
  have "f64_value (ns_apply spec ?w) = of_int ((sint n - sint (ns_offset spec)) + sint (ns_offset spec))
      \<and> f64_is_finite (ns_apply spec ?w)"
  proof (rule ns_apply_exact)
    show "sint ?w = (sint n - sint (ns_offset spec))
        * sint (if ns_divisor spec = 0 then 1 else ns_divisor spec)"
      unfolding w by (rule exact(1))
    show "\<bar>sint ?w\<bar> \<le> 2 ^ 53" unfolding w using assms(1,2) by simp
    show "\<bar>sint (ns_offset spec)\<bar> \<le> 2 ^ 53" "\<bar>sint n - sint (ns_offset spec)\<bar> \<le> 2 ^ 53"
      "\<bar>sint n - sint (ns_offset spec) + sint (ns_offset spec)\<bar> \<le> 2 ^ 53"
      using exact(2) assms(4) by simp_all
  qed (rule assms(3))
  then show ?thesis by simp
qed

text \<open>One entry: the value encoded for an intent converts back to it.\<close>

lemma encode_convert:
  assumes "encode_intent entry intent = Some v" "entry_ok entry"
  shows "\<exists>x. dp_convert entry v = Some x \<and> reads_as intent x"
proof (cases "td_kind entry")
  case (TkBool inverted)
  with assms show ?thesis by (cases intent) (auto simp: encode_intent_def dp_convert_def)
next
  case (TkValue spec)
  then obtain n where n: "intent = InNumber n" "- (2 ^ 31) \<le> scaled_raw spec n" "scaled_raw spec n < 2 ^ 31"
    "v = TvNumber (of_int (scaled_raw spec n))"
    using assms(1) by (cases intent) (auto simp: encode_intent_def Let_def split: if_splits)
  have "reads_as intent (SvFloat (ns_apply spec (scast (of_int (scaled_raw spec n) :: u32))))"
    unfolding n(1) using assms(2) by (intro value_reads_back n) (simp_all add: entry_ok_def TkValue)
  then show ?thesis by (simp add: dp_convert_def TkValue n(4))
next
  case (TkEnum names)
  obtain p x where p: "\<And>n. p n \<Longrightarrow> reads_as intent (SvEnum n)" "v = TvEnum x"
    and b: "Option.bind (value_of_name p names) (i64_to 256) = Some x"
  proof (cases intent)
    case (InBool on)
    with assms(1) TkEnum that [of "\<lambda>n. ascii_upper n = (if on then ''ON'' else ''OFF'')"] show ?thesis
      by (auto simp: encode_intent_def)
  next
    case (InNamed name)
    with assms(1) TkEnum that [of "\<lambda>n. n = name"] show ?thesis by (auto simp: encode_intent_def)
  qed (use assms(1) TkEnum in \<open>simp add: encode_intent_def\<close>)
  from b obtain w name where w: "find (\<lambda>n. p (snd n)) names = Some (w, name)" "i64_to 256 w = Some x"
    by (auto simp: bind_eq_Some_conv value_of_name_def)
  have "distinct (map fst names)" using assms(2) by (simp add: entry_ok_def TkEnum)
  from named_value_distinct [OF this w(1)] have "named_value names (ucast x) = Some name" "p name"
    using ucast_i64_to_256 [OF w(2)] by simp_all
  with p show ?thesis by (simp add: dp_convert_def TkEnum)
next
  case TkString
  with assms show ?thesis by (cases intent) (auto simp: encode_intent_def dp_convert_def)
qed (use assms in \<open>cases intent; simp add: encode_intent_def\<close>)+

section \<open>Properties\<close>

text \<open>
  C16: a datapoint written for a command reads back, under the command's own capability, as the
  value the command asked for: the switch position, the named mode, or the number exactly, after
  the scaling of both directions. The table gives every datapoint number one entry of sensible
  numbers.
\<close>

theorem tuya_write_reads_back:
  assumes "command_to_datapoint d c = Some point"
    and "distinct (map td_dp (dd_tuya_datapoints d))" "list_all entry_ok (dd_tuya_datapoints d)"
  shows "\<exists>k i x. intent_of c = Some (k, i)
    \<and> datapoints_to_state d [point] device behaviors = [(k, x)] \<and> reads_as i x"
proof -
  from assms(1) obtain k i entry v where c: "intent_of c = Some (k, i)"
    "find (\<lambda>e. td_name e = k) (dd_tuya_datapoints d) = Some entry"
    "encode_intent entry i = Some v" "point = \<lparr>dpt_dp = td_dp entry, dpt_value = v\<rparr>"
    by (auto simp: command_to_datapoint_def bind_eq_Some_conv split: if_splits)
  then have mem: "entry \<in> set (dd_tuya_datapoints d)" and name: "td_name entry = k"
    by (auto simp: find_Some_iff in_set_conv_nth)
  have "\<exists>e. dp_entry d (td_dp entry) = Some e \<and> e \<in> set (dd_tuya_datapoints d) \<and> td_dp e = td_dp entry"
    using mem by (cases "dp_entry d (td_dp entry)") (auto simp: dp_entry_def find_None_iff find_Some_iff)
  then have entry: "dp_entry d (td_dp entry) = Some entry"
    using assms(2) mem by (auto simp: distinct_map dest: inj_onD)
  obtain x where x: "dp_convert entry v = Some x" "reads_as i x"
    using encode_convert [OF c(3)] assms(3) mem by (auto simp: list_all_iff)
  have "\<nexists>n. td_kind entry = TkBehavior n" using c(3) by (auto simp: encode_intent_def)
  then have "dp_state d device behaviors point sc_new = [(k, x)]"
    using x(1) name by (cases "td_kind entry") (simp_all add: dp_state_def c(4) entry sc_new_def)
  with c(1) x(2) show ?thesis by (auto simp: datapoints_to_state_def)
qed

definition example_table :: device_def where
  "example_table = (dd_new ''TS0601'')\<lparr>dd_tuya_datapoints :=
     [(td_new 2 ''current_heating_setpoint'' (TkValue (ns_default\<lparr>ns_divisor := 10\<rparr>)))
        \<lparr>td_access := AccReportAndSet\<rparr>,
      (td_new 1 ''state'' (TkEnum [(0, ''OFF''), (1, ''ON'')]))\<lparr>td_access := AccSet\<rparr>]\<rparr>"

theorem tuya_write_reads_back_witness:
  "\<exists>x. datapoints_to_state example_table [\<lparr>dpt_dp = 1, dpt_value = TvEnum 1\<rparr>]
      (di_new (Ieee 1) (Nwk 2) DkRouter) [] = [(''state'', x)] \<and> reads_as (InBool True) x"
proof -
  have "command_to_datapoint example_table (DcSetOn True) = Some \<lparr>dpt_dp = 1, dpt_value = TvEnum 1\<rparr>"
    by (simp add: command_to_datapoint_def example_table_def td_new_def encode_intent_def
        value_of_name_def ascii_upper_def Let_def i64_to_def)
  moreover have "distinct (map td_dp (dd_tuya_datapoints example_table))"
    by (simp add: example_table_def td_new_def)
  moreover have "list_all entry_ok (dd_tuya_datapoints example_table)"
    by (simp add: example_table_def td_new_def entry_ok_def ns_default_def)
  ultimately show ?thesis
    using tuya_write_reads_back [of example_table "DcSetOn True"] by fastforce
qed


text \<open>
  A setpoint is rounded to a whole degree before it is scaled: 21.5 degrees on a table in tenths is
  written as 220 and not as 215.
\<close>

lemma setpoint_loses_fraction:
  "f64_value 0x4035800000000000 = 43 / 2 \<and>
   command_to_datapoint example_table (DcSetTargetTemperature 0x4035800000000000)
     = Some \<lparr>dpt_dp = 2, dpt_value = TvNumber 220\<rparr>"
proof -
  have e: "f64_exponent 0x4035800000000000 = 1027" by (simp add: f64_exponent_def)
  have m: "f64_significand 0x4035800000000000 = 6051711999279104" by (simp add: f64_significand_def e)
  have v: "f64_value 0x4035800000000000 = 43 / 2" by (simp add: f64_value_def e m bit_word_iff_drop_bit_and)
  have "f64_round_as_i64 0x4035800000000000 = 22"
    by (simp add: f64_round_as_i64_def f64_is_nan_def f64_is_finite_def e f64_round_def v Let_def)
  then have "command_to_datapoint example_table (DcSetTargetTemperature 0x4035800000000000)
     = Some \<lparr>dpt_dp = 2, dpt_value = TvNumber 220\<rparr>"
    by (simp add: command_to_datapoint_def example_table_def td_new_def encode_intent_def
        scaled_raw_def ns_default_def i64_clamp_def Let_def)
  with v show ?thesis by simp
qed

end
