(* ===== verification/Tuya_Schedule.thy ===== *)
theory Tuya_Schedule
  imports Tuya_Engine F64 Decimal Utf8
begin

text \<open>
  The behaviours of this build, \<open>rszigbee-core/src/runtime/behaviors.rs\<close>: the weekly schedule of a
  Tuya thermostat as one raw datapoint per day, and its text form. Temperatures are parsed as 64-bit
  floats; their rounding is that of \<open>F64\<close>.
\<close>

section \<open>Parsing a float\<close>

text \<open>\<open>str::parse\<close> for \<open>f64\<close>: a decimal number with an optional exponent, or a name.\<close>

definition is_digit :: "char \<Rightarrow> bool" where
  "is_digit c \<longleftrightarrow> dec_val c \<noteq> None"

definition nat_of_digits :: "string \<Rightarrow> nat" where
  "nat_of_digits s = foldl (\<lambda>n c. 10 * n + the (dec_val c)) 0 s"

fun parse_exponent :: "string \<Rightarrow> int option" where
  "parse_exponent [] = Some 0"
| "parse_exponent (c # s) =
     (if c = CHR ''e'' \<or> c = CHR ''E''
      then let digits = (case s of d # r \<Rightarrow> if d = CHR ''+'' \<or> d = CHR ''-'' then r else s | [] \<Rightarrow> []) in
        if digits \<noteq> [] \<and> list_all is_digit digits
        then Some (if take 1 s = ''-'' then - int (nat_of_digits digits) else int (nat_of_digits digits))
        else None
      else None)"

definition parse_decimal :: "string \<Rightarrow> rat option" where
  "parse_decimal s =
     (let whole = takeWhile is_digit s; r = dropWhile is_digit s;
          (frac, r) = (if take 1 r = ''.'' then (takeWhile is_digit (tl r), dropWhile is_digit (tl r)) else ([], r))
      in if whole = [] \<and> frac = [] then None
         else map_option (\<lambda>e. of_nat (nat_of_digits (whole @ frac)) * 10 powi (e - int (length frac)))
           (parse_exponent r))"

definition lower :: "string \<Rightarrow> string" where
  "lower s = map (\<lambda>c. if CHR ''A'' \<le> c \<and> c \<le> CHR ''Z'' then char_of (of_char c + (32 :: nat)) else c) s"

definition parse_f64 :: "string \<Rightarrow> f64 option" where
  "parse_f64 s =
     (let negative = (take 1 s = ''-'');
          r = (if negative \<or> take 1 s = ''+'' then tl s else s);
          signed = (\<lambda>x :: f64. if negative then x OR 0x8000000000000000 else x)
      in case parse_decimal r of
        Some q \<Rightarrow> Some (signed (f64_nearest q))
      | None \<Rightarrow>
          if lower r = ''inf'' \<or> lower r = ''infinity'' then Some (signed 0x7ff0000000000000)
          else if lower r = ''nan'' then Some (signed 0x7ff8000000000000)
          else None)"

text \<open>\<open>(x * 10.0).round() as u16\<close>: the cast saturates, and a NaN becomes zero.\<close>

definition f64_times_ten :: "f64 \<Rightarrow> f64" where
  "f64_times_ten x = (if f64_is_finite x then f64_nearest (f64_value x * 10) else x)"

definition f64_round_as_u16 :: "f64 \<Rightarrow> u16" where
  "f64_round_as_u16 x =
     (if f64_is_nan x then 0
      else if \<not> f64_is_finite x then (if bit x 63 then 0 else 0xffff)
      else of_int (max 0 (min 0xffff (f64_round x))))"

section \<open>Texts\<close>

text \<open>\<open>split_once\<close> at a character, and \<open>split_whitespace\<close>.\<close>

definition split_once :: "char \<Rightarrow> string \<Rightarrow> (string \<times> string) option" where
  "split_once c s =
     (if c \<in> set s then Some (takeWhile (\<lambda>x. x \<noteq> c) s, tl (dropWhile (\<lambda>x. x \<noteq> c) s)) else None)"

function split_spaces :: "nat list \<Rightarrow> nat list list" where
  "split_spaces cs =
     (case dropWhile is_whitespace cs of
        [] \<Rightarrow> []
      | c # r \<Rightarrow>
          (c # takeWhile (\<lambda>x. \<not> is_whitespace x) r)
            # split_spaces (dropWhile (\<lambda>x. \<not> is_whitespace x) r))"
  by pat_completeness auto
termination
proof (relation "measure length")
  fix cs r :: "nat list" and c :: nat
  assume "dropWhile is_whitespace cs = c # r"
  then have "Suc (length r) \<le> length cs" by (metis length_Cons length_dropWhile_le)
  then show "(dropWhile (\<lambda>x. \<not> is_whitespace x) r, cs) \<in> measure length"
    using length_dropWhile_le [of "\<lambda>x. \<not> is_whitespace x" r] by simp
qed simp

declare split_spaces.simps [simp del]

definition split_whitespace :: "string \<Rightarrow> string list" where
  "split_whitespace s = map str_of (split_spaces (chars s))"

fun join_spaces :: "string list \<Rightarrow> string" where
  "join_spaces [] = []"
| "join_spaces [s] = s"
| "join_spaces (s # t # ts) = s @ CHR '' '' # join_spaces (t # ts)"

section \<open>The schedule of a day\<close>

definition BYTES_PER_TRANSITION :: nat where "BYTES_PER_TRANSITION = 4"
definition MIN_TENTHS :: u16 where "MIN_TENTHS = 50"
definition MAX_TENTHS :: u16 where "MAX_TENTHS = 350"

definition schedule_name :: string where "schedule_name = ''tuya:thermostat-schedule''"

definition schedule_day :: "string \<Rightarrow> u8 option" where
  "schedule_day capability =
     (let day = (case rsplit_once CHR ''_'' capability of None \<Rightarrow> capability | Some (_, d) \<Rightarrow> d) in
      if day = ''monday'' then Some 1 else if day = ''tuesday'' then Some 2
      else if day = ''wednesday'' then Some 3 else if day = ''thursday'' then Some 4
      else if day = ''friday'' then Some 5 else if day = ''saturday'' then Some 6
      else if day = ''sunday'' then Some 7 else None)"

definition transition_text :: "u8 \<Rightarrow> u8 \<Rightarrow> u16 \<Rightarrow> string" where
  "transition_text hour minute tenths =
     show_dec_pad 2 (unat hour) @ '':'' @ show_dec_pad 2 (unat minute) @ ''/''
       @ show_dec (unat tenths div 10) @ ''.'' @ show_dec (unat tenths mod 10)"

fun decode_transitions :: "u8 list \<Rightarrow> string list option" where
  "decode_transitions (hour # minute # high # low # rest) =
     (if hour > 24 \<or> minute > 59 then None
      else map_option (\<lambda>parts. transition_text hour minute (from_be [high, low]) # parts)
        (decode_transitions rest))"
| "decode_transitions _ = Some []"

definition decode_schedule :: "u8 list \<Rightarrow> string option" where
  "decode_schedule bytes =
     (case bytes of
        [] \<Rightarrow> None
      | _ # body \<Rightarrow>
          if body = [] \<or> length body mod BYTES_PER_TRANSITION \<noteq> 0 then None
          else map_option join_spaces (decode_transitions body))"

definition encode_transition :: "string \<Rightarrow> u8 list option" where
  "encode_transition transition =
     Option.bind (split_once CHR ''/'' transition) (\<lambda>(time, temperature).
     Option.bind (split_once CHR '':'' time) (\<lambda>(hour, minute).
     Option.bind (parse_dec 255 hour) (\<lambda>hour.
     Option.bind (parse_dec 255 minute) (\<lambda>minute.
     Option.bind (parse_f64 temperature) (\<lambda>degrees.
       let tenths = f64_round_as_u16 (f64_times_ten degrees) in
       if hour > 24 \<or> minute > 59 \<or> \<not> (MIN_TENTHS \<le> tenths \<and> tenths \<le> MAX_TENTHS) then None
       else Some ([of_nat hour, of_nat minute] @ be_bytes 2 tenths))))))"

primrec encode_transitions :: "string list \<Rightarrow> u8 list option" where
  "encode_transitions [] = Some []"
| "encode_transitions (t # ts) =
     Option.bind (encode_transition t) (\<lambda>bytes.
     Option.bind (encode_transitions ts) (\<lambda>rest. Some (bytes @ rest)))"

definition encode_schedule :: "u8 \<Rightarrow> string \<Rightarrow> u8 list option" where
  "encode_schedule day text =
     (let transitions = split_whitespace text in
      Option.bind (encode_transitions transitions) (\<lambda>bytes.
        if transitions = [] then None else Some (day # bytes)))"

section \<open>The behaviour\<close>

definition is_schedule :: "tuya_datapoint \<Rightarrow> bool" where
  "is_schedule entry \<longleftrightarrow> td_kind entry = TkBehavior schedule_name"

definition schedule_decode :: "decode_context \<Rightarrow> state_changes outcome" where
  "schedule_decode ctx =
     (case find (\<lambda>d. td_dp d = dpt_dp (dctx_datapoint ctx)) (dd_tuya_datapoints (dctx_definition ctx)) of
        None \<Rightarrow> NotHandled
      | Some entry \<Rightarrow>
          if \<not> is_schedule entry then NotHandled
          else case dpt_value (dctx_datapoint ctx) of
            TvRaw bytes \<Rightarrow>
              (case decode_schedule bytes of
                 Some text \<Rightarrow> Handled (sc_set (dctx_capability ctx) (SvStr text) sc_new)
               | None \<Rightarrow> Handled sc_new)
          | _ \<Rightarrow> NotHandled)"

definition schedule_encode :: "encode_context \<Rightarrow> datapoint list outcome" where
  "schedule_encode ctx =
     (case ectx_command ctx of
        DcSetPreset text \<Rightarrow>
          (case find is_schedule (dd_tuya_datapoints (ectx_definition ctx)) of
             None \<Rightarrow> NotHandled
           | Some entry \<Rightarrow>
               (case schedule_day (td_name entry) of
                  None \<Rightarrow> NotHandled
                | Some day \<Rightarrow>
                    (case encode_schedule day text of
                       Some bytes \<Rightarrow> Handled [\<lparr>dpt_dp = td_dp entry, dpt_value = TvRaw bytes\<rparr>]
                     | None \<Rightarrow> Handled [])))
      | _ \<Rightarrow> NotHandled)"

definition thermostat_schedule :: behavior where
  "thermostat_schedule =
     \<lparr>bh_name = schedule_name, bh_decode_datapoint = schedule_decode,
      bh_encode_command = schedule_encode, bh_configure = (\<lambda>_. NotHandled)\<rparr>"

definition bhr_with_builtins :: behavior_registry where
  "bhr_with_builtins = bhr_insert thermostat_schedule bhr_new"

section \<open>A temperature in tenths is read back exactly\<close>

lemma tenths_exact:
  assumes "50 \<le> t" "t \<le> 350"
  shows "f64_round_as_u16 (f64_times_ten (f64_nearest (of_nat t / 10))) = of_nat t"
proof -
  define q :: rat where "q = of_nat t / 10"
  define v where "v = f64_value (f64_nearest q)"
  define y where "y = f64_nearest (v * 10)"
  have t: "(50 :: rat) \<le> of_nat t" "of_nat t \<le> (350 :: rat)" using assms by (simp_all add: nat_le_real_less)
  have q: "1 \<le> q" "q \<le> 2 ^ 53" "q \<le> 35" "5 \<le> q" using t by (simp_all add: q_def)
  have qt: "q * 10 = of_nat t" by (simp add: q_def)
  note e1 = f64_nearest_error [OF q(1,2), folded v_def]
  have "q / 2 ^ 53 \<le> 1 / 1000" using q(3) by simp
  with e1(1) have v: "\<bar>v - q\<bar> \<le> 1 / 1000" by (rule order_trans)
  then have x1: "1 \<le> v * 10" "v * 10 \<le> 351" using q(3,4) by linarith+
  then have x: "1 \<le> v * 10" "v * 10 \<le> 2 ^ 53" by simp_all
  note e2 = f64_nearest_error [OF x(1,2), folded y_def]
  have "v * 10 / 2 ^ 53 \<le> 1 / 1000" using x1(2) by simp
  with e2(1) have "\<bar>f64_value y - v * 10\<bar> \<le> 1 / 1000" by (rule order_trans)
  then have err: "\<bar>f64_value y - of_nat t\<bar> < 1 / 2" using v qt by linarith
  then have "\<lfloor>f64_value y + 1 / 2\<rfloor> = int t" by linarith
  moreover have "0 < f64_value y" using err t by linarith
  ultimately have round: "f64_round y = int t" by (simp add: f64_round_def Let_def)
  have "f64_times_ten (f64_nearest q) = y" using e1(2) by (simp add: f64_times_ten_def v_def y_def)
  moreover have "f64_round_as_u16 y = of_nat t"
    using e2(2) f64_finite_not_nan [OF e2(2)] assms by (simp add: f64_round_as_u16_def round)
  ultimately show ?thesis by (simp add: q_def)
qed

lemma is_digit_char [simp]: "d < 10 \<Longrightarrow> is_digit (dec_char d)"
  by (simp add: is_digit_def)

lemma not_digit [simp]: "\<not> is_digit CHR ''.''" "\<not> is_digit CHR ''+''" "\<not> is_digit CHR ''-''"
  by (simp_all add: is_digit_def dec_val_def)

lemma digits_show: "c \<in> set (show_dec n) \<Longrightarrow> is_digit c"
  using show_dec_digits [of c n] by auto

lemma nat_of_digits_show: "nat_of_digits (show_dec n) = n"
proof (induction n rule: show_dec.induct)
  case (1 n)
  then show ?case
    by (cases "n < 10") (simp_all add: show_dec.simps [of n] nat_of_digits_def mult.commute)
qed

lemma parse_decimal_tenths: "parse_decimal (show_dec a @ ''.'' @ show_dec b)
    = Some (of_nat (nat_of_digits (show_dec a @ show_dec b)) * 10 powi (- int (length (show_dec b))))"
proof -
  have tw: "takeWhile is_digit (show_dec a @ CHR ''.'' # s) = show_dec a"
    "dropWhile is_digit (show_dec a @ CHR ''.'' # s) = CHR ''.'' # s" for s
    using digits_show [of _ a] by (auto simp: takeWhile_append dropWhile_append)
  have td: "takeWhile is_digit (show_dec b) = show_dec b" "dropWhile is_digit (show_dec b) = []"
    using digits_show [of _ b] by (auto simp: takeWhile_eq_all_conv dropWhile_eq_Nil_conv)
  show ?thesis by (simp add: parse_decimal_def tw td Let_def)
qed

lemma parse_f64_plain:
  assumes "s = c # r" "c \<noteq> CHR ''-''" "c \<noteq> CHR ''+''" "parse_decimal s = Some q"
  shows "parse_f64 s = Some (f64_nearest q)"
  using assms by (simp add: parse_f64_def)

lemma parse_f64_tenths:
  "parse_f64 (show_dec (t div 10) @ ''.'' @ show_dec (t mod 10)) = Some (f64_nearest (of_nat t / 10))"
proof -
  have one: "show_dec (t mod 10) = [dec_char (t mod 10)]" by (simp add: show_dec.simps [of "t mod 10"])
  have "nat_of_digits (show_dec (t div 10) @ show_dec (t mod 10)) = 10 * nat_of_digits (show_dec (t div 10)) + t mod 10"
    by (simp add: one nat_of_digits_def)
  then have n: "nat_of_digits (show_dec (t div 10) @ show_dec (t mod 10)) = t" by (simp add: nat_of_digits_show)
  obtain c s where cs: "show_dec (t div 10) = c # s" by (cases "show_dec (t div 10)") auto
  have c: "c \<noteq> CHR ''-''" "c \<noteq> CHR ''+''" using digits_show [of c "t div 10"] cs by auto
  have q: "of_nat t * 10 powi (- int (length (show_dec (t mod 10)))) = (of_nat t / 10 :: rat)"
    by (simp add: one power_int_minus)
  have pd: "parse_decimal (show_dec (t div 10) @ ''.'' @ show_dec (t mod 10)) = Some (of_nat t / 10)"
    unfolding parse_decimal_tenths n q ..
  have "show_dec (t div 10) @ ''.'' @ show_dec (t mod 10) = c # (s @ ''.'' @ show_dec (t mod 10))"
    unfolding cs by (rule append_Cons)
  then show ?thesis by (rule parse_f64_plain [OF _ c pd])
qed

section \<open>A schedule reads back\<close>

lemma split_once_append: "c \<notin> set a \<Longrightarrow> split_once c (a @ c # b) = Some (a, b)"
  by (auto simp: split_once_def takeWhile_append dropWhile_append)

lemma pad_no_mark:
  "CHR ''/'' \<notin> set (show_dec_pad w n)" "CHR '':'' \<notin> set (show_dec_pad w n)"
proof -
  have "c \<noteq> CHR ''/'' \<and> c \<noteq> CHR '':''" if c: "c \<in> set (show_dec_pad w n)" for c
  proof -
    obtain d where "d < 10" "c = dec_char d" using show_dec_pad_digits [OF c] by blast
    then show ?thesis using dec_val_char [of d] by (auto simp: dec_val_def)
  qed
  then show "CHR ''/'' \<notin> set (show_dec_pad w n)" "CHR '':'' \<notin> set (show_dec_pad w n)" by blast+
qed

lemma encode_transition_text:
  assumes "h \<le> 24" "m \<le> 59" "MIN_TENTHS \<le> t" "t \<le> MAX_TENTHS"
  shows "encode_transition (transition_text h m t) = Some ([h, m] @ be_bytes 2 t)"
proof -
  have h: "unat h \<le> 24" "unat m \<le> 59" using assms(1,2) by (simp_all add: word_le_nat_alt)
  have t: "50 \<le> unat t" "unat t \<le> 350"
    using assms(3,4) by (simp_all add: word_le_nat_alt MIN_TENTHS_def MAX_TENTHS_def)
  have "split_once CHR ''/'' (transition_text h m t)
      = Some (show_dec_pad 2 (unat h) @ CHR '':'' # show_dec_pad 2 (unat m),
          show_dec (unat t div 10) @ ''.'' @ show_dec (unat t mod 10))"
    using split_once_append [of "CHR ''/''" "show_dec_pad 2 (unat h) @ CHR '':'' # show_dec_pad 2 (unat m)"]
    by (simp add: transition_text_def pad_no_mark)
  moreover have "split_once CHR '':'' (show_dec_pad 2 (unat h) @ CHR '':'' # show_dec_pad 2 (unat m))
      = Some (show_dec_pad 2 (unat h), show_dec_pad 2 (unat m))"
    by (rule split_once_append) (rule pad_no_mark)
  moreover have "parse_dec 255 (show_dec_pad 2 (unat h)) = Some (unat h)"
    "parse_dec 255 (show_dec_pad 2 (unat m)) = Some (unat m)"
    using h by (simp_all add: parse_show_dec_pad)
  moreover note parse_f64_tenths [of "unat t"]
  moreover have "f64_round_as_u16 (f64_times_ten (f64_nearest (of_nat (unat t) / 10))) = t"
    using tenths_exact [OF t] by simp
  ultimately show ?thesis using h assms(3,4)
    by (simp only: encode_transition_def bind.simps prod.case Let_def) simp
qed

text \<open>What an accepted transition becomes.\<close>

lemma encode_transition_Some:
  assumes "encode_transition s = Some bytes"
  shows "\<exists>h m t. bytes = [h, m] @ be_bytes 2 t \<and> h \<le> 24 \<and> m \<le> 59 \<and> MIN_TENTHS \<le> t \<and> t \<le> MAX_TENTHS"
proof -
  obtain h m t where b: "bytes = [of_nat h, of_nat m] @ be_bytes 2 t" "h \<le> 24" "m \<le> 59"
    "MIN_TENTHS \<le> t" "t \<le> MAX_TENTHS"
    using assms by (auto simp: encode_transition_def Let_def bind_eq_Some_conv split: if_splits)
  then have "(of_nat h :: u8) \<le> 24" "(of_nat m :: u8) \<le> 59"
    by (simp_all add: word_le_nat_alt unat_of_nat)
  with b show ?thesis by blast
qed

lemma split_spaces_skip: "is_whitespace c \<Longrightarrow> split_spaces (c # cs) = split_spaces cs"
  by (simp add: split_spaces.simps [of "c # cs"] split_spaces.simps [of cs])

definition is_word :: "string \<Rightarrow> bool" where
  "is_word s \<longleftrightarrow> s \<noteq> [] \<and> (\<forall>c \<in> set s. 32 < (of_char c :: nat) \<and> (of_char c :: nat) < 128)"

lemma chars_ascii:
  assumes "\<forall>c \<in> set s. (of_char c :: nat) < 128"
  shows "chars s = map of_char s"
proof -
  have "unat (of_nat (of_char c) :: u8) = (of_char c :: nat)" if "c \<in> set s" for c
    using assms that by (auto simp: unat_of_nat)
  then have "\<forall>b \<in> set (str_bytes s). unat b < 0x80" "map unat (str_bytes s) = map of_char s"
    using assms by (auto simp: str_bytes_def)
  with utf8_decode_ascii [of "str_bytes s"] show ?thesis by (simp add: chars_def)
qed

lemma split_spaces_word:
  assumes w: "w \<noteq> []" "\<forall>x \<in> set w. \<not> is_whitespace x"
  shows "split_spaces (w @ 32 # cs) = w # split_spaces cs" "split_spaces w = [w]"
proof -
  obtain c r where c: "w = c # r" using w(1) by (cases w) auto
  have ws: "is_whitespace 32" by (simp add: is_whitespace_def)
  have "takeWhile (\<lambda>x. \<not> is_whitespace x) (r @ 32 # cs) = r" "dropWhile (\<lambda>x. \<not> is_whitespace x) (r @ 32 # cs) = 32 # cs"
    "takeWhile (\<lambda>x. \<not> is_whitespace x) r = r" "dropWhile (\<lambda>x. \<not> is_whitespace x) r = []"
    using w(2) ws by (auto simp: c takeWhile_append dropWhile_append takeWhile_eq_all_conv dropWhile_eq_Nil_conv)
  note parts = this
  have no: "\<not> is_whitespace c" using w(2) by (simp add: c)
  have "split_spaces (c # r @ 32 # cs) = (c # r) # split_spaces (32 # cs)"
    by (subst split_spaces.simps) (simp only: dropWhile.simps no if_False list.case parts)
  then show "split_spaces (w @ 32 # cs) = w # split_spaces cs" by (simp add: c split_spaces_skip [OF ws])
  have "split_spaces (c # r) = (c # r) # split_spaces []"
    by (subst split_spaces.simps) (simp only: dropWhile.simps no if_False list.case parts)
  then show "split_spaces w = [w]" by (simp add: c split_spaces.simps [of "[]"])
qed

lemma split_join: "list_all is_word ts \<Longrightarrow> split_whitespace (join_spaces ts) = ts"
proof -
  assume ts: "list_all is_word ts"
  have nows: "\<forall>x \<in> set (map of_char w). \<not> is_whitespace x" if "is_word w" for w
    using that by (auto simp: is_word_def is_whitespace_def)
  have ascii: "\<forall>c \<in> set (join_spaces ts). (of_char c :: nat) < 128" if "list_all is_word ts" for ts
    using that by (induction ts rule: join_spaces.induct) (auto simp: is_word_def)
  have "split_spaces (map of_char (join_spaces ts)) = map (map of_char) ts" if "list_all is_word ts" for ts
    using that
  proof (induction ts rule: join_spaces.induct)
    case 1
    then show ?case by (simp add: split_spaces.simps [of "[]"])
  next
    case (2 w)
    then show ?case using split_spaces_word(2) [of "map of_char w"] nows [of w] by (simp add: is_word_def)
  next
    case (3 w v ts)
    then show ?case using split_spaces_word(1) [of "map of_char w"] nows [of w] by (simp add: is_word_def)
  qed
  moreover have "str_of (map of_char w) = w" if "is_word w" for w
  proof -
    have "chars w = map of_char w" using that by (intro chars_ascii) (simp add: is_word_def)
    moreover have "str_valid w" using that by (intro str_valid_ascii) (simp add: is_word_def)
    ultimately show ?thesis using str_of_chars by metis
  qed
  then have "map (\<lambda>w. str_of (map of_char w)) ts = ts" using ts by (induction ts) auto
  ultimately show ?thesis using ts chars_ascii [OF ascii [OF ts]] by (simp add: split_whitespace_def o_def)
qed

text \<open>The body of a payload the device accepts: times within the clock, temperatures in range.\<close>

fun valid_transitions :: "u8 list \<Rightarrow> bool" where
  "valid_transitions (h # m # a # b # rest) \<longleftrightarrow>
     h \<le> 24 \<and> m \<le> 59 \<and> MIN_TENTHS \<le> from_be [a, b] \<and> from_be [a, b] \<le> MAX_TENTHS \<and> valid_transitions rest"
| "valid_transitions bytes \<longleftrightarrow> bytes = []"

lemma valid_transitions_length: "valid_transitions bytes \<Longrightarrow> length bytes mod 4 = 0"
  by (induction bytes rule: valid_transitions.induct) auto

lemma be_bytes_pair:
  fixes t :: u16
  shows "\<exists>a b. be_bytes 2 t = [a, b] \<and> from_be [a, b] = t"
proof -
  have "from_be (be_bytes 2 t) = t" by (rule from_be_be_bytes) simp
  moreover obtain a b where "be_bytes 2 t = [a, b]"
    using length_be_bytes [of 2 t] by (auto simp: numeral_2_eq_2 length_Suc_conv simp del: length_be_bytes)
  ultimately show ?thesis by auto
qed

lemma encode_transitions_valid: "encode_transitions ts = Some bytes \<Longrightarrow> valid_transitions bytes \<and> (bytes = [] \<longleftrightarrow> ts = [])"
proof (induction ts arbitrary: bytes)
  case (Cons t ts)
  then obtain x rest where x: "encode_transition t = Some x" "encode_transitions ts = Some rest" "bytes = x @ rest"
    by (auto simp: bind_eq_Some_conv)
  obtain h m tenths where b: "x = [h, m] @ be_bytes 2 tenths" "h \<le> 24" "m \<le> 59" "MIN_TENTHS \<le> tenths" "tenths \<le> MAX_TENTHS"
    using encode_transition_Some [OF x(1)] by blast
  then show ?case using Cons.IH [OF x(2)] be_bytes_pair [of tenths] by (auto simp: x(3))
qed simp

lemma transition_text_word: "is_word (transition_text h m t)"
proof -
  have d: "32 < (of_char c :: nat) \<and> (of_char c :: nat) < 128" if c: "\<exists>k < 10. c = dec_char k" for c
  proof -
    obtain k where "k < 10" "c = dec_char k" using c by blast
    then have "dec_val c = Some k" by simp
    then show ?thesis by (auto simp: dec_val_def Let_def split: if_splits)
  qed
  show ?thesis
    using d [OF show_dec_pad_digits] d [OF show_dec_digits] by (auto simp: is_word_def transition_text_def)
qed

lemma valid_transitions_decode:
  "valid_transitions bytes \<Longrightarrow>
    \<exists>ts. decode_transitions bytes = Some ts \<and> encode_transitions ts = Some bytes \<and> list_all is_word ts"
proof (induction bytes rule: valid_transitions.induct)
  case (1 h m a b rest)
  then obtain ts where ts: "decode_transitions rest = Some ts" "encode_transitions ts = Some rest" "list_all is_word ts"
    by auto
  have "be_bytes (length [a, b]) (from_be [a, b] :: u16) = [a, b]" by (rule be_bytes_from_be) simp
  then have "be_bytes 2 (from_be [a, b] :: u16) = [a, b]" by (simp add: numeral_2_eq_2)
  then have "encode_transition (transition_text h m (from_be [a, b])) = Some [h, m, a, b]"
    using encode_transition_text [of h m "from_be [a, b]"] 1(2) by simp
  moreover have "\<not> 24 < h" "\<not> 59 < m" using 1(2) by (simp_all add: not_less)
  ultimately show ?case using ts transition_text_word by simp
qed simp_all

text \<open>
  What four bytes have to be for a word of a schedule: its hour and minute, written in decimal on both
  sides of a colon, and its temperature after a slash, rounded to a tenth of a degree.
\<close>

definition transition_says :: "string \<Rightarrow> u8 list \<Rightarrow> bool" where
  "transition_says word bytes \<longleftrightarrow> (\<exists>hour minute temperature h m degrees.
     word = hour @ '':'' @ minute @ ''/'' @ temperature
     \<and> CHR '':'' \<notin> set hour \<and> CHR ''/'' \<notin> set hour \<and> CHR ''/'' \<notin> set minute
     \<and> parse_dec 255 hour = Some h \<and> h \<le> 24 \<and> parse_dec 255 minute = Some m \<and> m \<le> 59
     \<and> parse_f64 temperature = Some degrees
     \<and> (let tenths = f64_round_as_u16 (f64_times_ten degrees) in
          MIN_TENTHS \<le> tenths \<and> tenths \<le> MAX_TENTHS \<and> bytes = [of_nat h, of_nat m] @ be_bytes 2 tenths))"

lemma split_once_Some: "split_once c s = Some (a, b) \<longleftrightarrow> s = a @ c # b \<and> c \<notin> set a"
proof
  assume s: "split_once c s = Some (a, b)"
  then have "c \<in> set s" by (auto simp: split_once_def split: if_splits)
  then obtain x y where "s = x @ c # y" "c \<notin> set x" using split_list_first by metis
  with s split_once_append [of c x y] show "s = a @ c # b \<and> c \<notin> set a" by simp
qed (auto simp: split_once_append)

lemma encode_transition_iff: "encode_transition word = Some bytes \<longleftrightarrow> transition_says word bytes"
proof
  assume "encode_transition word = Some bytes"
  then obtain time temperature hour minute h m degrees where e:
    "split_once CHR ''/'' word = Some (time, temperature)" "split_once CHR '':'' time = Some (hour, minute)"
    "parse_dec 255 hour = Some h" "parse_dec 255 minute = Some m" "parse_f64 temperature = Some degrees"
    "h \<le> 24" "m \<le> 59" "MIN_TENTHS \<le> f64_round_as_u16 (f64_times_ten degrees)"
    "f64_round_as_u16 (f64_times_ten degrees) \<le> MAX_TENTHS"
    "bytes = [of_nat h, of_nat m] @ be_bytes 2 (f64_round_as_u16 (f64_times_ten degrees))"
    by (auto simp: encode_transition_def Let_def bind_eq_Some_conv not_less split: if_splits)
  from e(1,2) have w: "word = hour @ '':'' @ minute @ ''/'' @ temperature"
    "CHR '':'' \<notin> set hour" "CHR ''/'' \<notin> set hour" "CHR ''/'' \<notin> set minute"
    by (auto simp: split_once_Some)
  show "transition_says word bytes"
    unfolding transition_says_def Let_def using w e(3-10) by blast
next
  assume "transition_says word bytes"
  then obtain hour minute temperature h m degrees where e:
    "word = (hour @ CHR '':'' # minute) @ CHR ''/'' # temperature"
    "CHR '':'' \<notin> set hour" "CHR ''/'' \<notin> set (hour @ CHR '':'' # minute)"
    "parse_dec 255 hour = Some h" "parse_dec 255 minute = Some m" "parse_f64 temperature = Some degrees"
    "h \<le> 24" "m \<le> 59" "MIN_TENTHS \<le> f64_round_as_u16 (f64_times_ten degrees)"
    "f64_round_as_u16 (f64_times_ten degrees) \<le> MAX_TENTHS"
    "bytes = [of_nat h, of_nat m] @ be_bytes 2 (f64_round_as_u16 (f64_times_ten degrees))"
    by (auto simp: transition_says_def Let_def)
  have "split_once CHR ''/'' word = Some (hour @ CHR '':'' # minute, temperature)"
    "split_once CHR '':'' (hour @ CHR '':'' # minute) = Some (hour, minute)"
    unfolding e(1) by (rule split_once_append [OF e(3)], rule split_once_append [OF e(2)])
  then show "encode_transition word = Some bytes"
    using e(4-11) by (simp add: encode_transition_def Let_def)
qed

lemma encode_transitions_iff:
  "encode_transitions ws = Some body \<longleftrightarrow> (\<exists>parts. body = concat parts \<and> list_all2 transition_says ws parts)"
proof (induction ws arbitrary: body)
  case (Cons w ws)
  have "encode_transitions (w # ws) = Some body
      \<longleftrightarrow> (\<exists>b parts. transition_says w b \<and> body = b @ concat parts \<and> list_all2 transition_says ws parts)"
    by (auto simp: bind_eq_Some_conv Cons.IH encode_transition_iff)
  also have "\<dots> \<longleftrightarrow> (\<exists>parts. body = concat parts \<and> list_all2 transition_says (w # ws) parts)"
    unfolding list_all2_Cons1 by (metis concat.simps(2))
  finally show ?case .
qed auto

lemma encode_transitions_None:
  "encode_transitions ws = None \<longleftrightarrow> (\<exists>w \<in> set ws. \<forall>bytes. \<not> transition_says w bytes)"
proof -
  have none: "encode_transition w = None \<longleftrightarrow> (\<forall>bytes. \<not> transition_says w bytes)" for w
    by (auto simp flip: encode_transition_iff)
  have "encode_transitions ws = None \<longleftrightarrow> (\<exists>w \<in> set ws. encode_transition w = None)"
    by (induction ws) (auto simp: bind_eq_None_conv)
  then show ?thesis by (simp add: none)
qed

text \<open>
  C17: a schedule is stored whole or not at all. It is refused exactly when it has no transition or
  one that does not say a time within the clock and a temperature in range. Otherwise the payload is
  the day and then four bytes for each transition of the text, in order, that say what it says; it
  reads back as a text, and that text is accepted and gives the same payload.
\<close>

theorem schedule_reads_back:
  "case encode_schedule day text of
     None \<Rightarrow> split_whitespace text = []
       \<or> (\<exists>word \<in> set (split_whitespace text). \<forall>bytes. \<not> transition_says word bytes)
   | Some bytes \<Rightarrow> split_whitespace text \<noteq> []
       \<and> (\<exists>parts text'. bytes = day # concat parts \<and> list_all2 transition_says (split_whitespace text) parts
            \<and> decode_schedule bytes = Some text' \<and> encode_schedule day text' = Some bytes)"
proof (cases "encode_schedule day text")
  case None
  then have "split_whitespace text = [] \<or> encode_transitions (split_whitespace text) = None"
    by (auto simp: encode_schedule_def Let_def bind_eq_None_conv split: if_splits)
  then show ?thesis by (simp add: None encode_transitions_None)
next
  case (Some bytes)
  then obtain body where body: "encode_transitions (split_whitespace text) = Some body" "bytes = day # body"
    "split_whitespace text \<noteq> []"
    by (auto simp: encode_schedule_def Let_def bind_eq_Some_conv split: if_splits)
  have valid: "valid_transitions body" "body \<noteq> []" using encode_transitions_valid [OF body(1)] body(3) by simp_all
  obtain ts where ts: "decode_transitions body = Some ts" "encode_transitions ts = Some body" "list_all is_word ts"
    using valid_transitions_decode [OF valid(1)] by blast
  have "ts \<noteq> []" using ts(2) valid(2) by auto
  then have "encode_schedule day (join_spaces ts) = Some bytes"
    by (simp add: encode_schedule_def split_join [OF ts(3)] ts(2) body(2))
  moreover have "decode_schedule bytes = Some (join_spaces ts)"
    using valid valid_transitions_length [OF valid(1)]
    by (simp add: decode_schedule_def body(2) ts(1) BYTES_PER_TRANSITION_def)
  ultimately show ?thesis using Some body(1,3) by (auto simp: body(2) encode_transitions_iff)
qed

text \<open>One transition: six o'clock, twenty-one degrees.\<close>

lemma encode_example: "encode_schedule 1 ''06:00/21.0'' = Some [1, 6, 0, 0, 210]"
proof -
  have word: "transition_text 6 0 210 = ''06:00/21.0''" by code_simp
  have "encode_transition (transition_text 6 0 210) = Some ([6, 0] @ be_bytes 2 (210 :: u16))"
    by (rule encode_transition_text) (simp_all add: MIN_TENTHS_def MAX_TENTHS_def)
  moreover have "be_bytes 2 (210 :: u16) = [0, 210]" by code_simp
  moreover have "split_whitespace ''06:00/21.0'' = [''06:00/21.0'']"
    using split_join [of "[transition_text 6 0 210]"] transition_text_word [of 6 0 210] by (simp add: word)
  ultimately show ?thesis by (simp add: encode_schedule_def word)
qed

section \<open>Only one day can be written\<close>

text \<open>
  A command is encoded for the first datapoint the definition gives to this behaviour, whichever day
  was meant: the schedules of the other days cannot be written.
\<close>

lemma schedule_written_to_first_day:
  assumes "dd_tuya_datapoints d = before @ entry # later" "is_schedule entry" "\<forall>e \<in> set before. \<not> is_schedule e"
    and "schedule_encode \<lparr>ectx_device = i, ectx_definition = d, ectx_command = c\<rparr> = Handled points" "p \<in> set points"
  shows "dpt_dp p = td_dp entry"
proof -
  have "find is_schedule (before @ entry # later) = Some entry"
    using assms(2,3) by (induction before) auto
  then show ?thesis using assms(1,4,5)
    by (auto simp: schedule_encode_def split: device_command.splits option.splits)
qed

end
