(* ===== verification/Interview.thy ===== *)
theory Interview
  imports Events Store "HOL-Library.Multiset"
begin

text \<open>
  Interviewing a device, \<open>rszigbee-core/src/runtime/interview.rs\<close>, with the errors of
  \<open>runtime.rs\<close>. An interview runs as a task of its own and reaches the runtime through a handle:
  what it asks and reports is the list of its actions, and what it is answered is a function of
  that list, so an answer may depend on everything that went before. A failure carries the error
  where the code carries its text.
\<close>

section \<open>Errors, updates and outcomes\<close>

datatype runtime_error =
    ReStopped
  | ReAdapter adapter_error
  | ReStore store_error
  | ReUnknownDevice ieee
  | ReReadRefused ieee u8
  | ReZdoTimeout ieee duration
  | ReZclTimeout ieee duration
  | ReCoordinatorMismatch (re_expected: ieee) (re_found: ieee)

datatype step_failure =
    SfRuntime runtime_error
  | SfZdo zdo_error
  | SfText string

record interview_outcome =
  io_state :: interview_state
  io_completed :: "interview_step list"
  io_failures :: "(interview_step \<times> step_failure) list"
  io_endpoints :: "endpoint_info list"
  io_basic :: "basic_info option"

definition io_is_usable :: "interview_outcome \<Rightarrow> bool" where
  "io_is_usable o' \<longleftrightarrow> io_endpoints o' \<noteq> []"

datatype interview_update =
    UpStarted
  | UpNodeDescriptor device_kind power_source bool
  | UpStep interview_step
  | UpFinished interview_outcome

section \<open>Talking to the runtime\<close>

datatype interview_action =
    IaUpdate interview_update
  | IaZdo zdo_cluster "u8 \<Rightarrow> nwk \<Rightarrow> u8 list"
  | IaRead endpoint_id cluster_id "attr_id list"

text \<open>The answers, each given the actions so far, the one being answered last.\<close>

record zigbee_link =
  zl_update :: "interview_action list \<Rightarrow> runtime_error + unit"
  zl_zdo :: "interview_action list \<Rightarrow> runtime_error + u8 list"
  zl_read :: "interview_action list \<Rightarrow> runtime_error + (u16 \<times> zcl_value) list"

definition itv_update ::
  "zigbee_link \<Rightarrow> interview_update \<Rightarrow> interview_action list \<Rightarrow> (runtime_error + unit) \<times> interview_action list" where
  "itv_update z u lg = (let lg = lg @ [IaUpdate u] in (zl_update z lg, lg))"

definition itv_zdo ::
  "zigbee_link \<Rightarrow> zdo_cluster \<Rightarrow> (u8 \<Rightarrow> nwk \<Rightarrow> u8 list) \<Rightarrow> interview_action list
     \<Rightarrow> (runtime_error + u8 list) \<times> interview_action list" where
  "itv_zdo z cluster build lg = (let lg = lg @ [IaZdo cluster build] in (zl_zdo z lg, lg))"

definition itv_read ::
  "zigbee_link \<Rightarrow> endpoint_id \<Rightarrow> cluster_id \<Rightarrow> attr_id list \<Rightarrow> interview_action list
     \<Rightarrow> (runtime_error + (u16 \<times> zcl_value) list) \<times> interview_action list" where
  "itv_read z ep cluster attributes lg =
     (let lg = lg @ [IaRead ep cluster attributes] in (zl_read z lg, lg))"

text \<open>A request and the decoding of its answer, either of which may fail.\<close>

definition itv_ask ::
  "zigbee_link \<Rightarrow> zdo_cluster \<Rightarrow> (u8 \<Rightarrow> nwk \<Rightarrow> u8 list) \<Rightarrow> (u8 list \<Rightarrow> zdo_error + 'a)
     \<Rightarrow> interview_action list \<Rightarrow> (step_failure + 'a) \<times> interview_action list" where
  "itv_ask z cluster build dec lg =
     (case itv_zdo z cluster build lg of
        (Inl e, lg) \<Rightarrow> (Inl (SfRuntime e), lg)
      | (Inr payload, lg) \<Rightarrow> (map_err SfZdo (dec payload), lg))"

section \<open>The steps\<close>

definition io_complete :: "interview_step \<Rightarrow> interview_outcome \<Rightarrow> interview_outcome" where
  "io_complete s o' = o'\<lparr>io_completed := io_completed o' @ [s]\<rparr>"

definition io_fail :: "interview_step \<Rightarrow> step_failure \<Rightarrow> interview_outcome \<Rightarrow> interview_outcome" where
  "io_fail s e o' = o'\<lparr>io_failures := io_failures o' @ [(s, e)]\<rparr>"

type_synonym interview_result =
  "(runtime_error + interview_outcome) \<times> interview_action list"

text \<open>The report of a step ends every step, and its failure ends the interview.\<close>

definition itv_step_done ::
  "zigbee_link \<Rightarrow> interview_step \<Rightarrow> interview_outcome \<Rightarrow> interview_action list \<Rightarrow> interview_result" where
  "itv_step_done z s o' lg =
     (case itv_update z (UpStep s) lg of (Inl e, lg) \<Rightarrow> (Inl e, lg) | (Inr _, lg) \<Rightarrow> (Inr o', lg))"

definition kind_of_logical :: "logical_type \<Rightarrow> device_kind" where
  "kind_of_logical t =
     (case t of Coordinator \<Rightarrow> DkCoordinator | Router \<Rightarrow> DkRouter | EndDevice \<Rightarrow> DkEndDevice
      | LReserved _ \<Rightarrow> DkUnknown)"

definition itv_node_descriptor ::
  "zigbee_link \<Rightarrow> interview_outcome \<Rightarrow> interview_action list \<Rightarrow> interview_result" where
  "itv_node_descriptor z o' lg =
     (case itv_ask z NODE_DESC_REQ encode_node_desc_req decode_node_desc_rsp lg of
        (Inr d, lg) \<Rightarrow>
          (case itv_update z (UpNodeDescriptor (kind_of_logical (nd_logical_type d))
              (if nd_mains_powered d then PsMains else PsBattery) (\<not> nd_rx_on_when_idle d)) lg of
             (Inl e, lg) \<Rightarrow> (Inl e, lg)
           | (Inr _, lg) \<Rightarrow> itv_step_done z StNodeDescriptor (io_complete StNodeDescriptor o') lg)
      | (Inl e, lg) \<Rightarrow> itv_step_done z StNodeDescriptor (io_fail StNodeDescriptor e o') lg)"

definition itv_active_endpoints ::
  "zigbee_link \<Rightarrow> interview_outcome \<Rightarrow> interview_action list
     \<Rightarrow> (runtime_error + interview_outcome \<times> endpoint_id list) \<times> interview_action list" where
  "itv_active_endpoints z o' lg =
     (let (answer, lg) = itv_ask z ACTIVE_EP_REQ encode_active_ep_req decode_active_ep_rsp lg;
          (o', endpoints) = (case answer of
             Inr r \<Rightarrow> (io_complete StActiveEndpoints o', ae_endpoints r)
           | Inl e \<Rightarrow> (io_fail StActiveEndpoints e o', []))
      in (case itv_step_done z StActiveEndpoints o' lg of
            (Inl e, lg) \<Rightarrow> (Inl e, lg)
          | (Inr o', lg) \<Rightarrow> (Inr (o', endpoints), lg)))"

definition sd_endpoint_info :: "simple_descriptor \<Rightarrow> endpoint_info" where
  "sd_endpoint_info d =
     \<lparr>ep_id = sd_endpoint d, ep_profile = sd_profile d, ep_device_id = sd_device_id d,
      ep_input_clusters = sd_input_clusters d, ep_output_clusters = sd_output_clusters d\<rparr>"

primrec itv_simple_descriptors ::
  "zigbee_link \<Rightarrow> endpoint_id list \<Rightarrow> interview_outcome \<Rightarrow> interview_action list \<Rightarrow> interview_result" where
  "itv_simple_descriptors z [] o' lg = (Inr o', lg)"
| "itv_simple_descriptors z (ep # eps) o' lg =
     (let (answer, lg) = itv_ask z SIMPLE_DESC_REQ (\<lambda>seq nwk. encode_simple_desc_req seq nwk ep)
            decode_simple_desc_rsp lg;
          o' = (case answer of
             Inr d \<Rightarrow> io_complete (StSimpleDescriptor ep)
               (o'\<lparr>io_endpoints := io_endpoints o' @ [sd_endpoint_info d]\<rparr>)
           | Inl e \<Rightarrow> io_fail (StSimpleDescriptor ep) e o')
      in (case itv_step_done z (StSimpleDescriptor ep) o' lg of
            (Inl e, lg) \<Rightarrow> (Inl e, lg)
          | (Inr o', lg) \<Rightarrow> itv_simple_descriptors z eps o' lg))"

definition GEN_BASIC :: cluster_id where "GEN_BASIC = ClusterId 0x0000"

definition ZCL_VERSION :: u16 where "ZCL_VERSION = 0x0000"
definition APP_VERSION :: u16 where "APP_VERSION = 0x0001"
definition STACK_VERSION :: u16 where "STACK_VERSION = 0x0002"
definition HW_VERSION :: u16 where "HW_VERSION = 0x0003"
definition MANUFACTURER_NAME :: u16 where "MANUFACTURER_NAME = 0x0004"
definition MODEL_ID :: u16 where "MODEL_ID = 0x0005"
definition DATE_CODE :: u16 where "DATE_CODE = 0x0006"
definition POWER_SOURCE :: u16 where "POWER_SOURCE = 0x0007"
definition SW_BUILD_ID :: u16 where "SW_BUILD_ID = 0x4000"

definition basic_attribute_ids :: "attr_id list" where
  "basic_attribute_ids = map AttrId [ZCL_VERSION, APP_VERSION, STACK_VERSION, HW_VERSION,
     MANUFACTURER_NAME, MODEL_ID, DATE_CODE, POWER_SOURCE, SW_BUILD_ID]"

fun zv_text :: "zcl_value \<Rightarrow> string option" where
  "zv_text (VStr s) =
     (let trimmed = str_trim (str_of (filter (\<lambda>c. \<not> is_control c) (chars s))) in
      if trimmed = [] then None else Some trimmed)"
| "zv_text _ = None"

fun zv_small :: "zcl_value \<Rightarrow> u8 option" where
  "zv_small (VUint v) = (if unat v < 256 then Some (ucast v) else None)"
| "zv_small (VInt v) = (if unat v < 256 then Some (ucast v) else None)"
| "zv_small (VEnum v) = (if unat v < 256 then Some (ucast v) else None)"
| "zv_small _ = None"

text \<open>The first value under an identifier that reads as asked.\<close>

primrec first_reading :: "u16 \<Rightarrow> (zcl_value \<Rightarrow> 'a option) \<Rightarrow> (u16 \<times> zcl_value) list \<Rightarrow> 'a option" where
  "first_reading i f [] = None"
| "first_reading i f (v # vs) =
     (case (if fst v = i then f (snd v) else None) of
        Some a \<Rightarrow> Some a
      | None \<Rightarrow> first_reading i f vs)"

definition basic_of_values :: "(u16 \<times> zcl_value) list \<Rightarrow> basic_info" where
  "basic_of_values vs =
     \<lparr>bi_manufacturer_name = first_reading MANUFACTURER_NAME zv_text vs,
      bi_model_id = first_reading MODEL_ID zv_text vs,
      bi_date_code = first_reading DATE_CODE zv_text vs,
      bi_software_build_id = first_reading SW_BUILD_ID zv_text vs,
      bi_zcl_version = first_reading ZCL_VERSION zv_small vs,
      bi_app_version = first_reading APP_VERSION zv_small vs,
      bi_stack_version = first_reading STACK_VERSION zv_small vs,
      bi_hardware_version = first_reading HW_VERSION zv_small vs\<rparr>"

definition basic_endpoint :: "endpoint_info list \<Rightarrow> endpoint_id" where
  "basic_endpoint eps =
     (case find (ep_has_input GEN_BASIC) eps of
        Some e \<Rightarrow> ep_id e
      | None \<Rightarrow> (case eps of e # _ \<Rightarrow> ep_id e | [] \<Rightarrow> EndpointId 1))"

definition itv_basic_attributes ::
  "zigbee_link \<Rightarrow> interview_outcome \<Rightarrow> interview_action list \<Rightarrow> interview_result" where
  "itv_basic_attributes z o' lg =
     (let (answer, lg) = itv_read z (basic_endpoint (io_endpoints o')) GEN_BASIC basic_attribute_ids lg;
          o' = (case answer of
             Inr values \<Rightarrow>
               (let o' = o'\<lparr>io_basic := Some (basic_of_values values)\<rparr> in
                if bi_model_id (basic_of_values values) \<noteq> None then io_complete StBasicAttributes o'
                else io_fail StBasicAttributes
                  (SfText ''answered without a modelId, so no definition can be resolved'') o')
           | Inl e \<Rightarrow> io_fail StBasicAttributes (SfRuntime e) o')
      in itv_step_done z StBasicAttributes o' lg)"

definition io_start :: interview_outcome where
  "io_start = \<lparr>io_state = IsFailed, io_completed = [], io_failures = [], io_endpoints = [], io_basic = None\<rparr>"

text \<open>\<open>?\<close>: an error ends the interview.\<close>

definition itv_then ::
  "(runtime_error + 'a) \<times> interview_action list
     \<Rightarrow> ('a \<Rightarrow> interview_action list \<Rightarrow> (runtime_error + 'b) \<times> interview_action list)
     \<Rightarrow> (runtime_error + 'b) \<times> interview_action list" where
  "itv_then r f = (case r of (Inl e, lg) \<Rightarrow> (Inl e, lg) | (Inr a, lg) \<Rightarrow> f a lg)"

definition itv_verdict :: "interview_outcome \<Rightarrow> interview_outcome" where
  "itv_verdict o' = o'\<lparr>io_state := (if io_is_usable o' then IsSuccessful else IsFailed)\<rparr>"

definition interview_run :: "zigbee_link \<Rightarrow> interview_result" where
  "interview_run z =
     itv_then (itv_update z UpStarted []) (\<lambda>_ lg.
     itv_then (itv_node_descriptor z io_start lg) (\<lambda>o' lg.
     itv_then (itv_active_endpoints z o' lg) (\<lambda>(o', endpoints) lg.
     itv_then (itv_simple_descriptors z endpoints o' lg) (\<lambda>o' lg.
     itv_then (itv_basic_attributes z o' lg) (\<lambda>o' lg.
       let o' = itv_verdict o' in
       itv_then (itv_update z (UpFinished o') lg) (\<lambda>_ lg. (Inr o', lg)))))))"

section \<open>Every step is accounted for\<close>

definition steps_of :: "interview_action list \<Rightarrow> interview_step list" where
  "steps_of lg = List.map_filter (\<lambda>a. case a of IaUpdate (UpStep s) \<Rightarrow> Some s | _ \<Rightarrow> None) lg"

definition finished_of :: "interview_action list \<Rightarrow> interview_outcome list" where
  "finished_of lg = List.map_filter (\<lambda>a. case a of IaUpdate (UpFinished s) \<Rightarrow> Some s | _ \<Rightarrow> None) lg"

lemma steps_of_append: "steps_of (xs @ ys) = steps_of xs @ steps_of ys"
  by (simp add: steps_of_def List.map_filter_def)

lemma finished_of_append: "finished_of (xs @ ys) = finished_of xs @ finished_of ys"
  by (simp add: finished_of_def List.map_filter_def)

lemma steps_of_single:
  "steps_of [IaUpdate (UpStep s)] = [s]" "steps_of [IaUpdate UpStarted] = []"
  "steps_of [IaUpdate (UpNodeDescriptor k p b)] = []" "steps_of [IaUpdate (UpFinished o')] = []"
  "steps_of [IaZdo c g] = []" "steps_of [IaRead ep cl as] = []" "steps_of [] = []"
  by (simp_all add: steps_of_def map_filter_simps)

lemma finished_of_single:
  "finished_of [IaUpdate (UpStep s)] = []" "finished_of [IaUpdate UpStarted] = []"
  "finished_of [IaUpdate (UpNodeDescriptor k p b)] = []" "finished_of [IaUpdate (UpFinished o')] = [o']"
  "finished_of [IaZdo c g] = []" "finished_of [IaRead ep cl as] = []" "finished_of [] = []"
  by (simp_all add: finished_of_def map_filter_simps)

lemmas logs = steps_of_append finished_of_append steps_of_single finished_of_single

text \<open>
  A triple on a stage: an error is that of the update it ended with, and a result with its log
  satisfies the postcondition.
\<close>

definition ended_by_update :: "zigbee_link \<Rightarrow> runtime_error \<Rightarrow> interview_action list \<Rightarrow> bool" where
  "ended_by_update z e lg \<longleftrightarrow> (\<exists>pre u. lg = pre @ [IaUpdate u]) \<and> zl_update z lg = Inl e"

definition itv_ok ::
  "zigbee_link \<Rightarrow> (runtime_error + 'a) \<times> interview_action list \<Rightarrow> ('a \<Rightarrow> interview_action list \<Rightarrow> bool) \<Rightarrow> bool" where
  "itv_ok z r P \<longleftrightarrow> (case r of (Inl e, lg) \<Rightarrow> ended_by_update z e lg | (Inr a, lg) \<Rightarrow> P a lg)"

lemma itv_ok_then:
  assumes "itv_ok z r P" "\<And>a lg. P a lg \<Longrightarrow> itv_ok z (f a lg) Q"
  shows "itv_ok z (itv_then r f) Q"
proof (cases r)
  case (Pair v lg)
  with assms show ?thesis by (cases v) (auto simp: itv_ok_def itv_then_def)
qed

lemma itv_ok_update: "itv_ok z (itv_update z u lg) (\<lambda>_ lg'. lg' = lg @ [IaUpdate u])"
  by (auto simp: itv_ok_def itv_update_def Let_def ended_by_update_def split: sum.splits)

lemma itv_ok_weaken: "itv_ok z r P \<Longrightarrow> (\<And>a lg. P a lg \<Longrightarrow> Q a lg) \<Longrightarrow> itv_ok z r Q"
  by (auto simp: itv_ok_def split: sum.splits prod.splits)

lemma itv_ok_step_done: "itv_ok z (itv_step_done z s p lg) (\<lambda>q lg'. q = p \<and> lg' = lg @ [IaUpdate (UpStep s)])"
  using itv_ok_update [of z "UpStep s" lg]
  by (auto simp: itv_ok_def itv_step_done_def split: sum.splits prod.splits)

text \<open>The steps so far: each completed or failed, each reported, and nothing is finished yet.\<close>

definition accounted :: "interview_step list \<Rightarrow> interview_outcome \<Rightarrow> interview_action list \<Rightarrow> bool" where
  "accounted steps p lg \<longleftrightarrow> steps_of lg = steps \<and> finished_of lg = []
     \<and> mset (io_completed p) + mset (map fst (io_failures p)) = mset steps"

definition done_with :: "interview_step \<Rightarrow> interview_outcome \<Rightarrow> interview_outcome \<Rightarrow> bool" where
  "done_with s p q \<longleftrightarrow>
     io_completed q = io_completed p @ [s] \<and> io_failures q = io_failures p
     \<or> io_completed q = io_completed p \<and> (\<exists>e. io_failures q = io_failures p @ [(s, e)])"

lemma done_with_intros:
  "done_with s p (io_complete s p)" "done_with s p (io_fail s e p)"
  "done_with s p (io_complete s (p\<lparr>io_endpoints := eps\<rparr>))"
  "done_with s p (io_complete s (p\<lparr>io_basic := b\<rparr>))" "done_with s p (io_fail s e (p\<lparr>io_basic := b\<rparr>))"
  by (simp_all add: done_with_def io_complete_def io_fail_def)

lemma accounted_done:
  assumes "accounted steps p lg" "done_with s p q" "steps_of ys = []" "finished_of ys = []"
  shows "itv_ok z (itv_step_done z s q (lg @ ys)) (\<lambda>q' lg'. q' = q \<and> accounted (steps @ [s]) q' lg')"
  using assms
  by (intro itv_ok_weaken [OF itv_ok_step_done]) (auto simp: accounted_def logs done_with_def)

lemma itv_ask_log:
  "itv_ask z c build dec lg = (r, lg') \<Longrightarrow> lg' = lg @ [IaZdo c build]"
  by (auto simp: itv_ask_def itv_zdo_def Let_def split: sum.splits)

lemma node_descriptor_ok:
  assumes "accounted steps p lg"
  shows "itv_ok z (itv_node_descriptor z p lg) (accounted (steps @ [StNodeDescriptor]))"
proof (cases "itv_ask z NODE_DESC_REQ encode_node_desc_req decode_node_desc_rsp lg")
  case (Pair r lg1)
  note lg1 = itv_ask_log [OF Pair]
  note fin = accounted_done [OF assms done_with_intros(1)] accounted_done [OF assms done_with_intros(2)]
  show ?thesis
  proof (cases r)
    case (Inl e)
    show ?thesis
      unfolding itv_node_descriptor_def Pair Inl lg1
      by (simp, rule itv_ok_weaken [OF fin(2)]) (simp_all add: logs)
  next
    case (Inr d)
    define u where "u = UpNodeDescriptor (kind_of_logical (nd_logical_type d))
      (if nd_mains_powered d then PsMains else PsBattery) (\<not> nd_rx_on_when_idle d)"
    have step: "itv_node_descriptor z p lg = itv_then (itv_update z u lg1)
        (\<lambda>_ lg. itv_step_done z StNodeDescriptor (io_complete StNodeDescriptor p) lg)"
      by (simp add: itv_node_descriptor_def Pair Inr u_def itv_then_def)
    have empty: "steps_of [IaZdo NODE_DESC_REQ encode_node_desc_req, IaUpdate u] = []"
      "finished_of [IaZdo NODE_DESC_REQ encode_node_desc_req, IaUpdate u] = []"
      by (simp_all add: u_def steps_of_def finished_of_def map_filter_simps)
    show ?thesis
      unfolding step
      by (rule itv_ok_then [OF itv_ok_update])
        (use fin(1) [OF empty] in \<open>auto simp: lg1 intro: itv_ok_weaken\<close>)
  qed
qed

lemma active_endpoints_ok:
  assumes "accounted steps p lg"
  shows "itv_ok z (itv_active_endpoints z p lg) (\<lambda>(q, _). accounted (steps @ [StActiveEndpoints]) q)"
proof (cases "itv_ask z ACTIVE_EP_REQ encode_active_ep_req decode_active_ep_rsp lg")
  case (Pair r lg1)
  note lg1 = itv_ask_log [OF Pair]
  define q where "q = (case r of
      Inr d \<Rightarrow> io_complete StActiveEndpoints p | Inl e \<Rightarrow> io_fail StActiveEndpoints e p)"
  have q: "done_with StActiveEndpoints p q"
    unfolding q_def by (cases r) (simp_all add: done_with_intros)
  have step: "itv_active_endpoints z p lg = itv_then (itv_step_done z StActiveEndpoints q lg1)
      (\<lambda>q lg. (Inr (q, case r of Inr d \<Rightarrow> ae_endpoints d | Inl e \<Rightarrow> []), lg))"
    by (cases r) (simp_all add: itv_active_endpoints_def Pair q_def itv_then_def)
  show ?thesis
    unfolding step lg1
    by (rule itv_ok_then [OF accounted_done [OF assms q]]) (simp_all add: logs itv_ok_def)
qed

lemma simple_descriptors_ok:
  "accounted steps p lg \<Longrightarrow>
     itv_ok z (itv_simple_descriptors z eps p lg) (accounted (steps @ map StSimpleDescriptor eps))"
proof (induction eps arbitrary: steps p lg)
  case Nil
  then show ?case by (simp add: itv_ok_def)
next
  case (Cons ep eps)
  obtain r lg1 where ask: "itv_ask z SIMPLE_DESC_REQ (\<lambda>seq nwk. encode_simple_desc_req seq nwk ep)
      decode_simple_desc_rsp lg = (r, lg1)" by fastforce
  define q where "q = (case r of
      Inr d \<Rightarrow> io_complete (StSimpleDescriptor ep) (p\<lparr>io_endpoints := io_endpoints p @ [sd_endpoint_info d]\<rparr>)
    | Inl e \<Rightarrow> io_fail (StSimpleDescriptor ep) e p)"
  have q: "done_with (StSimpleDescriptor ep) p q"
    unfolding q_def by (cases r) (simp_all add: done_with_intros)
  have step: "itv_simple_descriptors z (ep # eps) p lg
      = itv_then (itv_step_done z (StSimpleDescriptor ep) q lg1) (itv_simple_descriptors z eps)"
    by (simp add: ask q_def itv_then_def)
  show ?case
    unfolding step itv_ask_log [OF ask]
    using Cons.IH [of "steps @ [StSimpleDescriptor ep]"]
    by (intro itv_ok_then [OF accounted_done [OF Cons.prems q]]) (simp_all add: logs)
qed

lemma basic_attributes_ok:
  assumes "accounted steps p lg"
  shows "itv_ok z (itv_basic_attributes z p lg) (accounted (steps @ [StBasicAttributes]))"
proof -
  have done_: "itv_ok z (itv_step_done z StBasicAttributes q (lg @ [IaRead ep GEN_BASIC basic_attribute_ids]))
      (accounted (steps @ [StBasicAttributes]))"
    if "done_with StBasicAttributes p q" for q ep
    by (rule itv_ok_weaken [OF accounted_done [OF assms that]]) (simp_all add: logs)
  show ?thesis
    by (auto simp: itv_basic_attributes_def itv_read_def Let_def done_with_intros done_
        split: sum.splits)
qed

section \<open>Properties\<close>

text \<open>
  C18: a finished interview accounts for every step, in order: the node descriptor, the active
  endpoints, one simple descriptor per endpoint listed, the basic attributes. Each was reported
  once, and each either completed or failed, so no refusal hides another step. The last action
  reports the outcome, which is successful exactly when an endpoint was described. The interview
  itself only fails by an update that could not be delivered: no refusal by the device ends it.
\<close>

theorem interview_accounts_for_every_step:
  "case interview_run z of
     (Inl e, lg) \<Rightarrow> (\<exists>pre u. lg = pre @ [IaUpdate u]) \<and> zl_update z lg = Inl e
   | (Inr p, lg) \<Rightarrow> \<exists>eps.
       steps_of lg = [StNodeDescriptor, StActiveEndpoints] @ map StSimpleDescriptor eps @ [StBasicAttributes]
       \<and> mset (io_completed p) + mset (map fst (io_failures p)) = mset (steps_of lg)
       \<and> finished_of lg = [p] \<and> (io_state p = IsSuccessful \<longleftrightarrow> io_endpoints p \<noteq> [])"
proof -
  define post where "post = (\<lambda>p lg. \<exists>eps.
       steps_of lg = [StNodeDescriptor, StActiveEndpoints] @ map StSimpleDescriptor eps @ [StBasicAttributes]
       \<and> mset (io_completed p) + mset (map fst (io_failures p)) = mset (steps_of lg)
       \<and> finished_of lg = [p] \<and> (io_state p = IsSuccessful \<longleftrightarrow> io_endpoints p \<noteq> []))"
  have finish: "itv_ok z (let p = itv_verdict p in itv_then (itv_update z (UpFinished p) lg) (\<lambda>_ lg. (Inr p, lg))) post"
    if "accounted ([StNodeDescriptor, StActiveEndpoints] @ map StSimpleDescriptor eps @ [StBasicAttributes]) p lg"
    for p lg eps
    unfolding Let_def
    by (rule itv_ok_then [OF itv_ok_update])
      (use that in \<open>auto simp: itv_ok_def post_def accounted_def logs itv_verdict_def io_is_usable_def\<close>)
  have basic: "itv_ok z (itv_then (itv_basic_attributes z p lg) (\<lambda>p lg.
      let p = itv_verdict p in itv_then (itv_update z (UpFinished p) lg) (\<lambda>_ lg. (Inr p, lg)))) post"
    if "accounted ([StNodeDescriptor, StActiveEndpoints] @ map StSimpleDescriptor eps) p lg" for p lg eps
    by (rule itv_ok_then [OF basic_attributes_ok [OF that]]) (rule finish, simp)
  have simple: "itv_ok z (itv_then (itv_simple_descriptors z eps p lg) (\<lambda>p lg.
      itv_then (itv_basic_attributes z p lg) (\<lambda>p lg.
      let p = itv_verdict p in itv_then (itv_update z (UpFinished p) lg) (\<lambda>_ lg. (Inr p, lg))))) post"
    if "accounted [StNodeDescriptor, StActiveEndpoints] p lg" for p lg eps
    by (rule itv_ok_then [OF simple_descriptors_ok [OF that]]) (rule basic)
  have "itv_ok z (interview_run z) post"
    unfolding interview_run_def
  proof (rule itv_ok_then [OF itv_ok_update])
    fix a lg
    assume "lg = [] @ [IaUpdate UpStarted]"
    then have start: "accounted [] io_start lg" by (simp add: accounted_def io_start_def logs)
    show "itv_ok z (itv_then (itv_node_descriptor z io_start lg) (\<lambda>p lg.
        itv_then (itv_active_endpoints z p lg) (\<lambda>(p, eps) lg.
        itv_then (itv_simple_descriptors z eps p lg) (\<lambda>p lg.
        itv_then (itv_basic_attributes z p lg) (\<lambda>p lg.
        let p = itv_verdict p in itv_then (itv_update z (UpFinished p) lg) (\<lambda>_ lg. (Inr p, lg))))))) post"
      by (rule itv_ok_then [OF node_descriptor_ok [OF start]], rule itv_ok_then [OF active_endpoints_ok],
          assumption) (auto intro: simple)
  qed
  then show ?thesis unfolding itv_ok_def ended_by_update_def post_def .
qed

end
