(* ===== verification/Task_State.thy ===== *)
theory Task_State
  imports Inventory Interview Tuya_Engine
begin

text \<open>
  The state of the runtime task, \<open>rszigbee-core/src/runtime/task/mod.rs\<close>, with the requests of
  \<open>runtime.rs\<close> and the adapter's interface of \<open>rszigbee-adapter/src/lib.rs\<close>, and what the task does
  about availability, \<open>task/availability.rs\<close>. What the task does to the outside is recorded in
  its state: events emitted, replies given, frames sent, interviews started.
\<close>

section \<open>The adapter\<close>

datatype mismatch_policy = MmFail | MmForm

record network_config =
  nc_pan_id :: "u16 option"
  nc_extended_pan_id :: "u64 option"
  nc_channel :: u8
  nc_network_key :: "secret_key option"
  nc_on_mismatch :: mismatch_policy

text \<open>
  An implementation of the adapter's trait: its methods over a state of its own. Its frames are
  sent through it, and what the runtime sends is also kept in the task's log.
\<close>

record 'a adapter_ops =
  ad_start :: "network_config \<Rightarrow> u8 list option \<Rightarrow> 'a \<Rightarrow> (adapter_error + start_outcome) \<times> 'a"
  ad_stop :: "'a \<Rightarrow> (adapter_error + unit) \<times> 'a"
  ad_coordinator_ieee :: "'a \<Rightarrow> (adapter_error + ieee) \<times> 'a"
  ad_network_info :: "'a \<Rightarrow> (adapter_error + network_info) \<times> 'a"
  ad_network_key :: "'a \<Rightarrow> (adapter_error + secret_key option) \<times> 'a"
  ad_permit_join :: "duration \<Rightarrow> nwk option \<Rightarrow> 'a \<Rightarrow> (adapter_error + unit) \<times> 'a"
  ad_send_zcl :: "zcl_tx \<Rightarrow> 'a \<Rightarrow> (adapter_error + zcl_rx option) \<times> 'a"
  ad_send_zdo :: "zdo_tx \<Rightarrow> 'a \<Rightarrow> (adapter_error + u8 list option) \<times> 'a"

section \<open>Requests and replies\<close>

record configure_outcome =
  cfo_bound :: nat
  cfo_configured :: nat
  cfo_failed :: nat

definition cfo_default :: configure_outcome where
  "cfo_default = \<lparr>cfo_bound = 0, cfo_configured = 0, cfo_failed = 0\<rparr>"

text \<open>A sender of a reply is the number of the request it answers.\<close>

type_synonym sender = nat

datatype request =
    RqDevices sender
  | RqDevice ieee sender
  | RqNetwork sender
  | RqDefinition ieee sender
  | RqConfigure ieee sender
  | RqConfigurePlan ieee sender
  | RqPermitJoin duration "ieee option" sender
  | RqZclRead ieee endpoint_id cluster_id "attr_id list" sender
  | RqZdo ieee zdo_cluster "u8 \<Rightarrow> nwk \<Rightarrow> u8 list" sender
  | RqCommand ieee device_command sender
  | RqInterview ieee sender
  | RqInterviewUpdate ieee interview_update
  | RqStop sender

datatype reply =
    RpDevices "device_info list"
  | RpDevice "device_info option"
  | RpNetwork "adapter_error + network_info"
  | RpDefinition "(string \<times> bool) option"
  | RpConfigure "runtime_error + configure_outcome"
  | RpConfigurePlan "configure_step list"
  | RpUnit "runtime_error + unit"
  | RpRead "runtime_error + (u16 \<times> zcl_value) list"
  | RpZdo "runtime_error + u8 list"
  | RpCommand "command_error + command_outcome"
  | RpInterview "runtime_error + interview_outcome"

record pending_zdo =
  pzd_reply :: sender
  pzd_ieee :: ieee
  pzd_deadline :: instant

record pending_zcl =
  pzc_reply :: sender
  pzc_ieee :: ieee
  pzc_deadline :: instant

definition ZDO_TIMEOUT :: duration where "ZDO_TIMEOUT = secs 5"

section \<open>The state\<close>

text \<open>
  What a task is given and never changes. The clocks answer the \<open>n\<close>th reading of the run, so
  nothing is assumed of how time passes.
\<close>

record 'a config =
  cf_adapter :: "'a adapter_ops"
  cf_now :: "nat \<Rightarrow> instant"
  cf_wall :: "nat \<Rightarrow> system_time"
  cf_policy :: "reach_context \<Rightarrow> assessment"
  cf_interview_on_join :: bool
  cf_coordinator :: ieee
  cf_behaviors :: behavior_registry
  cf_definitions :: def_index
  cf_lower :: "string \<Rightarrow> string"
  cf_debug :: debug_text

record 'a task =
  tk_adapter :: 'a
  tk_store :: memory_store
  tk_network_known :: bool
  tk_persisted_frame_counter :: u32
  tk_devices :: inventory
  tk_pending_zdo :: "(zdo_cluster \<times> u8, pending_zdo) hashmap"
  tk_pending_zcl :: "(cluster_id \<times> u8, pending_zcl) hashmap"
  tk_zdo_sequence :: u8
  tk_zcl_sequence :: u8
  tk_tuya_sequence :: u16
  tk_registry :: cluster_registry
  tk_ticks :: nat
  tk_events :: "event list"
  tk_replies :: "(sender \<times> reply) list"
  tk_sent_zcl :: "zcl_tx list"
  tk_sent_zdo :: "zdo_tx list"
  tk_interviews :: "(ieee \<times> sender option) list"

definition tk_emit :: "event \<Rightarrow> 'a task \<Rightarrow> 'a task" where
  "tk_emit e t = t\<lparr>tk_events := tk_events t @ [e]\<rparr>"

definition tk_reply :: "sender \<Rightarrow> reply \<Rightarrow> 'a task \<Rightarrow> 'a task" where
  "tk_reply s r t = t\<lparr>tk_replies := tk_replies t @ [(s, r)]\<rparr>"

definition tk_now :: "'a config \<Rightarrow> 'a task \<Rightarrow> instant \<times> 'a task" where
  "tk_now c t = (cf_now c (tk_ticks t), t\<lparr>tk_ticks := Suc (tk_ticks t)\<rparr>)"

definition tk_wall :: "'a config \<Rightarrow> 'a task \<Rightarrow> system_time \<times> 'a task" where
  "tk_wall c t = (cf_wall c (tk_ticks t), t\<lparr>tk_ticks := Suc (tk_ticks t)\<rparr>)"

definition tk_send_zcl :: "'a config \<Rightarrow> zcl_tx \<Rightarrow> 'a task \<Rightarrow> (adapter_error + zcl_rx option) \<times> 'a task" where
  "tk_send_zcl c tx t =
     (case ad_send_zcl (cf_adapter c) tx (tk_adapter t) of
        (r, a) \<Rightarrow> (r, t\<lparr>tk_adapter := a, tk_sent_zcl := tk_sent_zcl t @ [tx]\<rparr>))"

definition tk_send_zdo :: "'a config \<Rightarrow> zdo_tx \<Rightarrow> 'a task \<Rightarrow> (adapter_error + u8 list option) \<times> 'a task" where
  "tk_send_zdo c tx t =
     (case ad_send_zdo (cf_adapter c) tx (tk_adapter t) of
        (r, a) \<Rightarrow> (r, t\<lparr>tk_adapter := a, tk_sent_zdo := tk_sent_zdo t @ [tx]\<rparr>))"

text \<open>\<open>get_mut\<close> on the device table.\<close>

definition tk_modify :: "ieee \<Rightarrow> (inv_entry \<Rightarrow> inv_entry) \<Rightarrow> 'a task \<Rightarrow> 'a task" where
  "tk_modify i f t = t\<lparr>tk_devices := iv_modify i f (tk_devices t)\<rparr>"

section \<open>Availability\<close>

text \<open>The two clock readings of one assessment: \<open>now\<close> and then \<open>wall_now\<close>.\<close>

definition tk_assess :: "'a config \<Rightarrow> ieee \<Rightarrow> evidence \<Rightarrow> 'a task \<Rightarrow> 'a task" where
  "tk_assess c i ev t =
     (case iv_get i (tk_devices t) of
        None \<Rightarrow> t
      | Some entry \<Rightarrow>
          (let (now, t) = tk_now c t; (wall, t) = tk_wall c t;
               a = cf_policy c \<lparr>rc_device = en_info entry, rc_current = en_reachability entry,
                 rc_now = now, rc_wall_now = wall\<rparr>;
               previous = ri_state (en_reachability entry);
               t = tk_modify i (\<lambda>e. e\<lparr>en_reachability := (en_reachability e)\<lparr>ri_state := as_verdict a\<rparr>,
                 en_next_check := as_next a\<rparr>) t
           in if previous \<noteq> as_verdict a
              then tk_emit (EvReachabilityChanged i previous (as_verdict a) ev) t
              else t))"

definition tk_touch :: "'a config \<Rightarrow> ieee \<Rightarrow> system_time \<Rightarrow> last_seen_reason \<Rightarrow> 'a task \<Rightarrow> 'a task" where
  "tk_touch c i stamp reason t =
     (case iv_get i (tk_devices t) of
        None \<Rightarrow> t
      | Some _ \<Rightarrow>
          (let t = tk_modify i (\<lambda>e. e\<lparr>en_info := (en_info e)\<lparr>di_last_seen := Some stamp\<rparr>,
                 en_reachability := ri_record_traffic stamp (en_reachability e)\<rparr>) t;
               t = tk_emit (EvLastSeenChanged i stamp reason) t
           in tk_assess c i EvTraffic t))"

definition tk_record_tx :: "'a config \<Rightarrow> ieee \<Rightarrow> instant \<Rightarrow> tx_failure + unit \<Rightarrow> 'a task \<Rightarrow> 'a task" where
  "tk_record_tx c i stamp result t =
     tk_assess c i (case result of Inr _ \<Rightarrow> EvCommandAcked | Inl failure \<Rightarrow> evidence.EvCommandFailed failure)
       (tk_modify i (\<lambda>e. e\<lparr>en_reachability := ri_record_tx stamp result (en_reachability e)\<rparr>) t)"

definition first_endpoint :: "device_info \<Rightarrow> endpoint_id" where
  "first_endpoint info = (case di_endpoints info of [] \<Rightarrow> EndpointId 1 | e # _ \<Rightarrow> ep_id e)"

definition tk_probe :: "'a config \<Rightarrow> ieee \<Rightarrow> bool \<Rightarrow> 'a task \<Rightarrow> 'a task" where
  "tk_probe c i allow_recovery t =
     (case iv_get i (tk_devices t) of
        None \<Rightarrow> t
      | Some entry \<Rightarrow>
          (let tx = \<lparr>ztx_dest = Unicast i (en_nwk entry), ztx_endpoint = first_endpoint (en_info entry),
                 ztx_source_endpoint = EndpointId 1, ztx_profile = profile_HA, ztx_cluster = PROBE_CLUSTER,
                 ztx_frame = enc_probe 0,
                 ztx_options = txo_default\<lparr>txo_expect_response := True,
                   txo_disable_recovery := \<not> allow_recovery\<rparr>\<rparr>;
               (result, t) = tk_send_zcl c tx t;
               (stamp, t) = tk_now c t;
               outcome = (case result of
                 Inr _ \<Rightarrow> Answered | Inl (AeTx failure) \<Rightarrow> ProbeFailed failure | Inl _ \<Rightarrow> ProbeFailed NoAck);
               t = tk_modify i (\<lambda>e. e\<lparr>en_reachability := ri_record_probe stamp outcome (en_reachability e)\<rparr>) t
           in tk_assess c i (EvProbe outcome) t))"

definition due_check :: "instant \<Rightarrow> inv_entry \<Rightarrow> (ieee \<times> next_check) option" where
  "due_check now e =
     (case en_next_check e of
        NcProbe stamp _ _ \<Rightarrow> if stamp \<le> now then Some (di_ieee (en_info e), en_next_check e) else None
      | NcReassess stamp \<Rightarrow> if stamp \<le> now then Some (di_ieee (en_info e), en_next_check e) else None
      | NcAwaitTraffic \<Rightarrow> None)"

definition run_check :: "'a config \<Rightarrow> ieee \<times> next_check \<Rightarrow> 'a task \<Rightarrow> 'a task" where
  "run_check c x t =
     (case snd x of
        NcProbe _ _ allow_recovery \<Rightarrow> tk_probe c (fst x) allow_recovery t
      | NcReassess _ \<Rightarrow> tk_assess c (fst x) EvElapsed t
      | NcAwaitTraffic \<Rightarrow> t)"

definition tk_run_due :: "'a config \<Rightarrow> 'a task \<Rightarrow> 'a task" where
  "tk_run_due c t =
     (let (now, t) = tk_now c t;
          due = List.map_filter (due_check now) (iv_all (tk_devices t))
      in fold (run_check c) due t)"

end
