(* ===== verification/Task_Transport.thy ===== *)
theory Task_Transport
  imports Task_State
begin

text \<open>
  Talking to the coordinator, \<open>rszigbee-core/src/runtime/task/transport.rs\<close>: requests with the
  sequence numbers they are answered under, the expiry of those that are not answered, and the texts
  of encoding errors (\<open>spec/src/codec.rs\<close>, \<open>runtime/encode.rs\<close>).
\<close>

section \<open>Requests\<close>

definition tk_send_zdo_request ::
  "'a config \<Rightarrow> ieee \<Rightarrow> zdo_cluster \<Rightarrow> (u8 \<Rightarrow> nwk \<Rightarrow> u8 list) \<Rightarrow> sender \<Rightarrow> 'a task \<Rightarrow> 'a task" where
  "tk_send_zdo_request c i cluster build reply t =
     (case map_option en_nwk (iv_get i (tk_devices t)) of
        None \<Rightarrow> tk_reply reply (RpZdo (Inl (ReUnknownDevice i))) t
      | Some nwk \<Rightarrow>
          (let t = t\<lparr>tk_zdo_sequence := tk_zdo_sequence t + 1\<rparr>;
               sequence = tk_zdo_sequence t;
               tx = \<lparr>zdtx_dest = Unicast i nwk, zdtx_cluster = cluster,
                 zdtx_payload = build sequence nwk, zdtx_options = txo_default\<rparr>;
               (result, t) = tk_send_zdo c tx t
           in case result of
             Inr (Some payload) \<Rightarrow> tk_reply reply (RpZdo (Inr payload)) t
           | Inr None \<Rightarrow>
               (let (now, t) = tk_now c t in
                t\<lparr>tk_pending_zdo := hm_insert (zdo_response cluster, sequence)
                  \<lparr>pzd_reply = reply, pzd_ieee = i, pzd_deadline = now + ZDO_TIMEOUT\<rparr> (tk_pending_zdo t)\<rparr>)
           | Inl e \<Rightarrow> tk_reply reply (RpZdo (Inl (ReAdapter e))) t))"

text \<open>The attributes of a decoded answer, or none when it does not decode as attributes.\<close>

definition attributes_of :: "cluster_registry \<Rightarrow> ieee \<Rightarrow> zcl_rx \<Rightarrow> (u16 \<times> zcl_value) list" where
  "attributes_of registry i rx =
     (case dec_zcl_message registry i rx of
        Inr m \<Rightarrow> (case zm_kind m of MkAttributes a \<Rightarrow> a | _ \<Rightarrow> [])
      | Inl _ \<Rightarrow> [])"

definition tk_zcl_read ::
  "'a config \<Rightarrow> ieee \<Rightarrow> endpoint_id \<Rightarrow> cluster_id \<Rightarrow> attr_id list \<Rightarrow> sender \<Rightarrow> 'a task \<Rightarrow> 'a task" where
  "tk_zcl_read c i ep cluster attributes reply t =
     (case map_option en_nwk (iv_get i (tk_devices t)) of
        None \<Rightarrow> tk_reply reply (RpRead (Inl (ReUnknownDevice i))) t
      | Some nwk \<Rightarrow>
          (let t = t\<lparr>tk_zcl_sequence := tk_zcl_sequence t + 1\<rparr>;
               tsn = tk_zcl_sequence t;
               tx = \<lparr>ztx_dest = Unicast i nwk, ztx_endpoint = ep, ztx_source_endpoint = EndpointId 1,
                 ztx_profile = profile_HA, ztx_cluster = cluster, ztx_frame = enc_read_attributes tsn attributes,
                 ztx_options = txo_default\<lparr>txo_expect_response := True\<rparr>\<rparr>;
               (result, t) = tk_send_zcl c tx t
           in case result of
             Inr (Some rx) \<Rightarrow> tk_reply reply (RpRead (Inr (attributes_of (tk_registry t) i rx))) t
           | Inr None \<Rightarrow>
               (let (now, t) = tk_now c t in
                t\<lparr>tk_pending_zcl := hm_insert (cluster, tsn)
                  \<lparr>pzc_reply = reply, pzc_ieee = i, pzc_deadline = now + ZDO_TIMEOUT\<rparr> (tk_pending_zcl t)\<rparr>)
           | Inl e \<Rightarrow> tk_reply reply (RpRead (Inl (ReAdapter e))) t))"

section \<open>Expiry\<close>

text \<open>
  \<open>gone\<close> tells which callers have gone away. The keys are collected first and then removed one
  by one, each with its reply.
\<close>

definition expired_zdo :: "(sender \<Rightarrow> bool) \<Rightarrow> instant \<Rightarrow> pending_zdo \<Rightarrow> bool" where
  "expired_zdo gone now p \<longleftrightarrow> pzd_deadline p \<le> now \<or> gone (pzd_reply p)"

definition expired_zcl :: "(sender \<Rightarrow> bool) \<Rightarrow> instant \<Rightarrow> pending_zcl \<Rightarrow> bool" where
  "expired_zcl gone now p \<longleftrightarrow> pzc_deadline p \<le> now \<or> gone (pzc_reply p)"

definition expire_zdo :: "zdo_cluster \<times> u8 \<Rightarrow> 'a task \<Rightarrow> 'a task" where
  "expire_zdo key t =
     (case hm_get (tk_pending_zdo t) key of
        None \<Rightarrow> t
      | Some p \<Rightarrow> tk_reply (pzd_reply p) (RpZdo (Inl (ReZdoTimeout (pzd_ieee p) ZDO_TIMEOUT)))
          (t\<lparr>tk_pending_zdo := hm_remove key (tk_pending_zdo t)\<rparr>))"

definition expire_zcl :: "cluster_id \<times> u8 \<Rightarrow> 'a task \<Rightarrow> 'a task" where
  "expire_zcl key t =
     (case hm_get (tk_pending_zcl t) key of
        None \<Rightarrow> t
      | Some p \<Rightarrow> tk_reply (pzc_reply p) (RpRead (Inl (ReZclTimeout (pzc_ieee p) ZDO_TIMEOUT)))
          (t\<lparr>tk_pending_zcl := hm_remove key (tk_pending_zcl t)\<rparr>))"

definition tk_expire_pending :: "'a config \<Rightarrow> (sender \<Rightarrow> bool) \<Rightarrow> 'a task \<Rightarrow> 'a task" where
  "tk_expire_pending c gone t =
     (let (now, t) = tk_now c t;
          t = fold expire_zdo (map fst (filter (\<lambda>e. expired_zdo gone now (snd e)) (tk_pending_zdo t))) t
      in fold expire_zcl (map fst (filter (\<lambda>e. expired_zcl gone now (snd e)) (tk_pending_zcl t))) t)"

section \<open>Texts of errors\<close>

fun codec_error_text :: "codec_error \<Rightarrow> string" where
  "codec_error_text (Eof w p a) =
     ''unexpected end of input: wanted '' @ show_dec w @ '' bytes at offset '' @ show_dec p @ '', '' @
     show_dec a @ '' available''"
| "codec_error_text (BadLength n a p) =
     ''length prefix of '' @ show_dec n @ '' exceeds the '' @ show_dec a @
     '' bytes remaining at offset '' @ show_dec p"
| "codec_error_text (BadUtf8 p) = ''invalid UTF-8 in string field at offset '' @ show_dec p"
| "codec_error_text (OutputFull w) = ''output full: cannot write '' @ show_dec w @ '' more bytes''"

definition hex16 :: "u16 \<Rightarrow> string" where "hex16 x = ''0x'' @ hex_pad 4 (unat x)"
definition hex8 :: "u8 \<Rightarrow> string" where "hex8 x = ''0x'' @ hex_pad 2 (unat x)"

definition quoted :: "string \<Rightarrow> string" where
  "quoted s = [CHR 39] @ s @ [CHR 39]"

fun encode_error_text :: "encode_error \<Rightarrow> string" where
  "encode_error_text (EeUnknownCluster c) =
     ''cluster '' @ hex16 c @ '' is not in the registry, so parameter types are unknown. '' @
     ''Register it with `ClusterRegistry::insert_global` or '' @ ''`insert_for_device` first.''"
| "encode_error_text (EeUnknownCommand c x) =
     ''cluster '' @ hex16 c @ '' has no command '' @ hex8 x"
| "encode_error_text (EeUnknownAttribute c a) =
     ''cluster '' @ hex16 c @ '' has no attribute '' @ hex16 a"
| "encode_error_text (EeMissingParameter c p) =
     ''command '' @ quoted c @ '' requires parameter '' @ quoted p @ '', which was not supplied''"
| "encode_error_text (EeUnknownParameter c p) =
     ''command '' @ quoted c @ '' has no parameter '' @ quoted p"
| "encode_error_text (EeBadValue p e) =
     ''parameter '' @ quoted p @ '' does not encode as the declared type: '' @ codec_error_text e"
| "encode_error_text EeNoAttributes = ''an attribute write with no attributes would be a no-op frame''"
| "encode_error_text (EeUntypedParameters c) =
     ''command '' @ quoted c @ '' takes parameters this build cannot encode '' @
     ''(composite or list-valued), so it is refused rather than sent short''"

section \<open>Configuration\<close>

definition tk_bind ::
  "'a config \<Rightarrow> ieee \<Rightarrow> nwk \<Rightarrow> endpoint_id \<Rightarrow> cluster_id \<Rightarrow> ieee \<Rightarrow> 'a task
     \<Rightarrow> (adapter_error + unit) \<times> 'a task" where
  "tk_bind c i nwk ep cluster coordinator t =
     (let t = t\<lparr>tk_zdo_sequence := tk_zdo_sequence t + 1\<rparr>;
          payload = encode_bind_req (tk_zdo_sequence t) i ep cluster coordinator (EndpointId 1);
          (result, t) = tk_send_zdo c \<lparr>zdtx_dest = Unicast i nwk, zdtx_cluster = BIND_REQ,
            zdtx_payload = payload, zdtx_options = txo_default\<rparr> t
      in (map_sum id (\<lambda>_. ()) result, t))"

definition encoding_failed :: "codec_error \<Rightarrow> adapter_error" where
  "encoding_failed e = AeTransport (''cannot encode reporting config: '' @ codec_error_text e)"

definition tk_configure_reporting ::
  "'a config \<Rightarrow> ieee \<Rightarrow> nwk \<Rightarrow> endpoint_id \<Rightarrow> cluster_id \<Rightarrow> report_record list \<Rightarrow> 'a task
     \<Rightarrow> (adapter_error + unit) \<times> 'a task" where
  "tk_configure_reporting c i nwk ep cluster records t =
     (let t = t\<lparr>tk_zcl_sequence := tk_zcl_sequence t + 1\<rparr> in
      case enc_configure_reporting (tk_zcl_sequence t) records of
        Inl e \<Rightarrow> (Inl (encoding_failed e), t)
      | Inr frame \<Rightarrow>
          (let (result, t) = tk_send_zcl c \<lparr>ztx_dest = Unicast i nwk, ztx_endpoint = ep,
                 ztx_source_endpoint = EndpointId 1, ztx_profile = profile_HA, ztx_cluster = cluster,
                 ztx_frame = frame, ztx_options = txo_default\<rparr> t
           in (map_sum id (\<lambda>_. ()) result, t)))"

end
