(* ===== verification/Task_Devices.thy ===== *)
theory Task_Devices
  imports Task_Transport
begin

text \<open>
  The device table of the task and what a definition says about a device,
  \<open>rszigbee-core/src/runtime/task/devices.rs\<close>, and bringing a device into service,
  \<open>task/provisioning.rs\<close>. The store is the in-memory one; when it fails the task goes on.
\<close>

section \<open>Resolution and persistence\<close>

definition tk_resolve :: "'a config \<Rightarrow> ieee \<Rightarrow> 'a task \<Rightarrow> device_def option" where
  "tk_resolve c i t =
     Option.bind (iv_get i (tk_devices t)) (\<lambda>entry.
       ix_resolve (cf_lower c) (device_match_of (en_info entry)) (cf_definitions c))"

definition tk_persist :: "ieee \<Rightarrow> 'a task \<Rightarrow> 'a task" where
  "tk_persist i t =
     (case iv_get i (tk_devices t) of
        None \<Rightarrow> t
      | Some entry \<Rightarrow>
          (case ms_upsert_device (persisted_from_entry entry) (tk_store t) of
             Inl _ \<Rightarrow> t
           | Inr s \<Rightarrow> t\<lparr>tk_store := s\<rparr>))"

definition tk_register_custom_clusters :: "'a config \<Rightarrow> ieee \<Rightarrow> 'a task \<Rightarrow> 'a task" where
  "tk_register_custom_clusters c i t =
     (case tk_resolve c i t of
        None \<Rightarrow> t
      | Some d \<Rightarrow>
          (if custom_clusters d = [] then t
           else t\<lparr>tk_registry := fold (cr_insert_for_device i) (custom_clusters d) (tk_registry t)\<rparr>))"

definition forced_power_source :: "device_def \<Rightarrow> power_source_hint option" where
  "forced_power_source d =
     find_map (\<lambda>e. case e of ExForcePowerSource source \<Rightarrow> Some source | _ \<Rightarrow> None) (dd_extend d)"

primrec hint_power :: "power_source_hint \<Rightarrow> power_source \<times> bool" where
  "hint_power HintMains = (PsMains, False)"
| "hint_power HintDc = (PsDc, False)"
| "hint_power HintBattery = (PsBattery, True)"

definition tk_apply_definition_metadata :: "'a config \<Rightarrow> ieee \<Rightarrow> 'a task \<Rightarrow> 'a task" where
  "tk_apply_definition_metadata c i t =
     (case Option.bind (tk_resolve c i t) forced_power_source of
        None \<Rightarrow> t
      | Some source \<Rightarrow>
          (let (supply, sleepy) = hint_power source in
           case iv_get i (tk_devices t) of
             None \<Rightarrow> tk_persist i t
           | Some entry \<Rightarrow>
               (if di_power_source (en_info entry) = supply then t
                else tk_persist i (tk_modify i (\<lambda>e. e
                   \<lparr>en_info := (en_info e)\<lparr>di_power_source := supply\<rparr>,
                    en_reachability := (en_reachability e)\<lparr>ri_is_sleepy := sleepy\<rparr>\<rparr>) t))))"

section \<open>The table\<close>

definition tk_register_coordinator :: "'a config \<Rightarrow> 'a task \<Rightarrow> 'a task" where
  "tk_register_coordinator c t =
     (if iv_get (cf_coordinator c) (tk_devices t) \<noteq> None then t
      else
        (let (wall, t) = tk_wall c t;
             entry = new_entry (cf_coordinator c) nwk_COORDINATOR wall;
             entry = entry\<lparr>en_info := (en_info entry)\<lparr>di_kind := DkCoordinator, di_power_source := PsMains\<rparr>,
               en_reachability := (en_reachability entry)\<lparr>ri_is_sleepy := False\<rparr>\<rparr>
         in t\<lparr>tk_devices := iv_insert entry (tk_devices t)\<rparr>))"

definition tk_spawn_interview :: "ieee \<Rightarrow> sender option \<Rightarrow> 'a task \<Rightarrow> 'a task" where
  "tk_spawn_interview i reply t = t\<lparr>tk_interviews := tk_interviews t @ [(i, reply)]\<rparr>"

text \<open>A known device may have moved.\<close>

definition tk_readdress :: "ieee \<Rightarrow> nwk \<Rightarrow> 'a task \<Rightarrow> 'a task" where
  "tk_readdress i n t =
     (let (moved, v) = iv_set_nwk i n (tk_devices t);
          t = t\<lparr>tk_devices := v\<rparr>
      in case moved of None \<Rightarrow> t | Some previous \<Rightarrow> tk_emit (EvDeviceAddressChanged i previous n) t)"

definition needs_interview :: "ieee \<Rightarrow> 'a task \<Rightarrow> bool" where
  "needs_interview i t \<longleftrightarrow>
     (case iv_get i (tk_devices t) of None \<Rightarrow> False | Some e \<Rightarrow> di_interview (en_info e) \<noteq> IsSuccessful)"

definition tk_on_joined :: "'a config \<Rightarrow> ieee option \<Rightarrow> nwk \<Rightarrow> 'a task \<Rightarrow> 'a task" where
  "tk_on_joined c ieee nwk t =
     (case or_else ieee (iv_resolve nwk (tk_devices t)) of
        None \<Rightarrow> t
      | Some i \<Rightarrow>
          (let (now, t) = tk_wall c t;
               t = (if iv_get i (tk_devices t) \<noteq> None
                    then tk_emit (EvDeviceAnnounced i) (tk_readdress i nwk t)
                    else tk_emit (EvDeviceJoined i nwk)
                      (t\<lparr>tk_devices := iv_insert (new_entry i nwk now) (tk_devices t)\<rparr>));
               t = tk_touch c i now LsAnnounce t;
               t = tk_persist i t
           in if cf_interview_on_join c \<and> needs_interview i t then tk_spawn_interview i None t else t))"

definition tk_on_left :: "ieee option \<Rightarrow> nwk option \<Rightarrow> 'a task \<Rightarrow> 'a task" where
  "tk_on_left ieee nwk t =
     (case or_else ieee (Option.bind nwk (\<lambda>n. iv_resolve n (tk_devices t))) of
        None \<Rightarrow> t
      | Some i \<Rightarrow>
          (let t = t\<lparr>tk_devices := snd (iv_remove i (tk_devices t))\<rparr>;
               t = (case ms_delete_device i (tk_store t) of Inl _ \<Rightarrow> t | Inr s \<Rightarrow> t\<lparr>tk_store := s\<rparr>)
           in tk_emit (EvDeviceLeft i LrUnknown) t))"

section \<open>The network record\<close>

definition u32_saturating_add :: "u32 \<Rightarrow> u32 \<Rightarrow> u32" where
  "u32_saturating_add a b = (if unat a + unat b < 2 ^ 32 then a + b else - 1)"

definition tk_network_info :: "'a config \<Rightarrow> 'a task \<Rightarrow> (adapter_error + network_info) \<times> 'a task" where
  "tk_network_info c t =
     (case ad_network_info (cf_adapter c) (tk_adapter t) of (r, a) \<Rightarrow> (r, t\<lparr>tk_adapter := a\<rparr>))"

definition tk_persist_network :: "'a config \<Rightarrow> 'a task \<Rightarrow> 'a task" where
  "tk_persist_network c t =
     (if tk_network_known t then t
      else
        (case tk_network_info c t of
           (Inl _, t) \<Rightarrow> t
         | (Inr info, t) \<Rightarrow>
             (case ad_network_key (cf_adapter c) (tk_adapter t) of
                (key, a) \<Rightarrow>
                  (let t = t\<lparr>tk_adapter := a\<rparr>;
                       counter = u32_saturating_add (ni_frame_counter info) FRAME_COUNTER_MARGIN;
                       record' = \<lparr>pnw_pan_id = ni_pan_id info, pnw_extended_pan_id = ni_extended_pan_id info,
                         pnw_channel = ni_channel info, pnw_nwk_update_id = ni_nwk_update_id info,
                         pnw_coordinator_ieee = cf_coordinator c, pnw_key_sequence = ni_key_sequence info,
                         pnw_frame_counter = counter,
                         pnw_network_key = (case key of Inr k \<Rightarrow> k | Inl _ \<Rightarrow> None)\<rparr>
                   in (case ms_save_network record' (tk_store t) of
                         Inl _ \<Rightarrow> t
                       | Inr s \<Rightarrow> t\<lparr>tk_store := s, tk_network_known := True,
                           tk_persisted_frame_counter := counter\<rparr>)))))"

definition tk_refresh_frame_counter :: "'a config \<Rightarrow> 'a task \<Rightarrow> 'a task" where
  "tk_refresh_frame_counter c t =
     (if \<not> tk_network_known t then t
      else
        (case tk_network_info c t of
           (Inl _, t) \<Rightarrow> t
         | (Inr info, t) \<Rightarrow>
             (if ni_frame_counter info < tk_persisted_frame_counter t then t
              else
                (case ms_load_network (tk_store t) of
                   Inr (Some record') \<Rightarrow>
                     (let counter = u32_saturating_add (ni_frame_counter info) FRAME_COUNTER_MARGIN in
                      case ms_save_network (record'\<lparr>pnw_frame_counter := counter\<rparr>) (tk_store t) of
                        Inl _ \<Rightarrow> t
                      | Inr s \<Rightarrow> t\<lparr>tk_store := s, tk_persisted_frame_counter := counter\<rparr>)
                 | _ \<Rightarrow> t))))"

section \<open>Joining and configuring\<close>

definition tk_permit_join ::
  "'a config \<Rightarrow> duration \<Rightarrow> ieee option \<Rightarrow> 'a task \<Rightarrow> (runtime_error + unit) \<times> 'a task" where
  "tk_permit_join c duration via t =
     (case (case via of
              None \<Rightarrow> Inr None
            | Some i \<Rightarrow> map_sum id Some
                (ok_or (ReUnknownDevice i) (map_option en_nwk (iv_get i (tk_devices t))))) of
        Inl e \<Rightarrow> (Inl e, t)
      | Inr nwk \<Rightarrow>
          (case ad_permit_join (cf_adapter c) duration nwk (tk_adapter t) of
             (Inl e, a) \<Rightarrow> (Inl (ReAdapter e), t\<lparr>tk_adapter := a\<rparr>)
           | (Inr _, a) \<Rightarrow>
               (let t = t\<lparr>tk_adapter := a\<rparr>; permitted = (duration \<noteq> 0);
                    (ends, t) = (if permitted then (case tk_now c t of (now, t) \<Rightarrow> (Some (now + duration), t))
                                 else (None, t))
                in (Inr (), tk_emit (EvPermitJoinChanged permitted ends via) t))))"

text \<open>The body of the loop over the plan, with the bindings already made.\<close>

definition step_type :: "ieee \<Rightarrow> configure_step \<Rightarrow> 'a task \<Rightarrow> zcl_type option" where
  "step_type i step t =
     Option.bind (cs_attribute step) (\<lambda>a.
       or_else (cs_attribute_type step)
         (map_option ad_ty (cr_attr (tk_registry t) (Some i) (cs_cluster step) a)))"

definition tk_configure_bind ::
  "'a config \<Rightarrow> ieee \<Rightarrow> nwk \<Rightarrow> configure_step \<Rightarrow> (endpoint_id \<times> cluster_id) list \<times> configure_outcome \<times> 'a task
     \<Rightarrow> (endpoint_id \<times> cluster_id) list \<times> configure_outcome \<times> 'a task" where
  "tk_configure_bind c i nwk step = (\<lambda>(bound, o', t).
     (if (cs_endpoint step, cs_cluster step) \<in> set bound then (bound, o', t)
      else
        (case tk_bind c i nwk (cs_endpoint step) (cs_cluster step) (cf_coordinator c) t of
           (Inr _, t) \<Rightarrow> ((cs_endpoint step, cs_cluster step) # bound, o'\<lparr>cfo_bound := Suc (cfo_bound o')\<rparr>, t)
         | (Inl _, t) \<Rightarrow> ((cs_endpoint step, cs_cluster step) # bound, o'\<lparr>cfo_failed := Suc (cfo_failed o')\<rparr>, t))))"

definition tk_configure_report ::
  "'a config \<Rightarrow> ieee \<Rightarrow> nwk \<Rightarrow> configure_step \<Rightarrow> (endpoint_id \<times> cluster_id) list \<times> configure_outcome \<times> 'a task
     \<Rightarrow> (endpoint_id \<times> cluster_id) list \<times> configure_outcome \<times> 'a task" where
  "tk_configure_report c i nwk step = (\<lambda>(bound, o', t).
     (case cs_attribute step of
        None \<Rightarrow> (bound, o', t)
      | Some attribute \<Rightarrow>
          (case step_type i step t of
             None \<Rightarrow> (bound, o'\<lparr>cfo_failed := Suc (cfo_failed o')\<rparr>, t)
           | Some ty \<Rightarrow>
               (case tk_configure_reporting c i nwk (cs_endpoint step) (cs_cluster step)
                  [\<lparr>rr_attribute = attribute, rr_ty = ty, rr_min_interval = cs_min_interval step,
                    rr_max_interval = cs_max_interval step, rr_min_change = cs_min_change step\<rparr>] t of
                  (Inr _, t) \<Rightarrow> (bound, o'\<lparr>cfo_configured := Suc (cfo_configured o')\<rparr>, t)
                | (Inl _, t) \<Rightarrow> (bound, o'\<lparr>cfo_failed := Suc (cfo_failed o')\<rparr>, t)))))"

definition tk_configure_step ::
  "'a config \<Rightarrow> ieee \<Rightarrow> nwk \<Rightarrow> configure_step \<Rightarrow> (endpoint_id \<times> cluster_id) list \<times> configure_outcome \<times> 'a task
     \<Rightarrow> (endpoint_id \<times> cluster_id) list \<times> configure_outcome \<times> 'a task" where
  "tk_configure_step c i nwk step x = tk_configure_report c i nwk step (tk_configure_bind c i nwk step x)"

definition tk_execute_configure_plan ::
  "'a config \<Rightarrow> ieee \<Rightarrow> 'a task \<Rightarrow> configure_outcome \<times> 'a task" where
  "tk_execute_configure_plan c i t =
     (case (tk_resolve c i t, iv_get i (tk_devices t)) of
        (Some d, Some entry) \<Rightarrow>
          (case fold (tk_configure_step c i (en_nwk entry)) (configure_plan d (en_info entry))
              ([], cfo_default, t) of
             (_, o', t) \<Rightarrow> (o', t))
      | _ \<Rightarrow> (cfo_default, t))"

definition sort_endpoints :: "endpoint_info list \<Rightarrow> endpoint_info list" where
  "sort_endpoints eps = sort_key (\<lambda>e. endpoint_raw (ep_id e)) eps"

definition apply_outcome :: "interview_outcome \<Rightarrow> device_info \<Rightarrow> device_info" where
  "apply_outcome o' d =
     (let d = d\<lparr>di_interview := io_state o'\<rparr>;
          d = (if io_endpoints o' \<noteq> [] then d\<lparr>di_endpoints := sort_endpoints (io_endpoints o')\<rparr> else d)
      in case io_basic o' of Some basic \<Rightarrow> d\<lparr>di_basic := basic\<rparr> | None \<Rightarrow> d)"

definition tk_finish_interview :: "'a config \<Rightarrow> ieee \<Rightarrow> interview_outcome \<Rightarrow> 'a task \<Rightarrow> 'a task" where
  "tk_finish_interview c i o' t =
     (let t = tk_modify i (\<lambda>e. e\<lparr>en_info := apply_outcome o' (en_info e)\<rparr>) t;
          t = tk_persist i t;
          t = tk_emit (EvInterviewFinished i (io_state o')) t;
          resolved = tk_resolve c i t;
          t = tk_emit (EvDefinitionResolved i (map_option dd_model resolved) SrcBundled) t
      in if resolved \<noteq> None
         then snd (tk_execute_configure_plan c i
                (tk_apply_definition_metadata c i (tk_register_custom_clusters c i t)))
         else t)"

definition tk_interview_update :: "'a config \<Rightarrow> ieee \<Rightarrow> interview_update \<Rightarrow> 'a task \<Rightarrow> 'a task" where
  "tk_interview_update c i update t =
     (case update of
        UpStarted \<Rightarrow>
          tk_persist i (tk_emit (EvInterviewStarted i)
            (tk_modify i (\<lambda>e. e\<lparr>en_info := (en_info e)\<lparr>di_interview := IsInProgress\<rparr>\<rparr>) t))
      | UpNodeDescriptor kind supply sleepy \<Rightarrow>
          tk_persist i (tk_modify i (\<lambda>e. e
            \<lparr>en_info := (en_info e)\<lparr>di_kind := kind, di_power_source := supply\<rparr>,
             en_reachability := (en_reachability e)\<lparr>ri_is_sleepy := sleepy\<rparr>\<rparr>) t)
      | UpStep step \<Rightarrow> tk_emit (EvInterviewProgress i step) t
      | UpFinished o' \<Rightarrow> tk_finish_interview c i o' t)"

end
