(* ===== verification/Task_Inbound.thy ===== *)
theory Task_Inbound
  imports Task_Devices
begin

text \<open>
  Received frames and what they become, \<open>rszigbee-core/src/runtime/task/inbound.rs\<close>: an answer to
  an outstanding read, state, an action, or a frame that is reported as it is.
\<close>

section \<open>Answers to reads\<close>

datatype read_answer = RaAttributes | RaRefused u8

definition RA_READ_RESPONSE :: u8 where "RA_READ_RESPONSE = 0x01"
definition RA_DEFAULT_RESPONSE :: u8 where "RA_DEFAULT_RESPONSE = 0x0b"

definition read_answer_of :: "zcl_frame \<Rightarrow> read_answer option" where
  "read_answer_of frame =
     (if zh_direction (zf_header frame) \<noteq> ServerToClient then None
      else if zh_frame_type (zf_header frame) \<noteq> Global then None
      else if command_raw (zh_command (zf_header frame)) = RA_READ_RESPONSE then Some RaAttributes
      else if command_raw (zh_command (zf_header frame)) = RA_DEFAULT_RESPONSE
      then (case zf_payload frame of
              _ # status # _ \<Rightarrow> if status \<noteq> 0 then Some (RaRefused status) else None
            | _ \<Rightarrow> None)
      else None)"

text \<open>The outstanding read a frame answers, with the answer, when there is one.\<close>

definition answered_read :: "zcl_rx \<Rightarrow> 'a task \<Rightarrow> ((cluster_id \<times> u8) \<times> pending_zcl \<times> read_answer) option" where
  "answered_read rx t =
     (case zf_decode (zrx_frame rx) of
        Inl _ \<Rightarrow> None
      | Inr frame \<Rightarrow>
          Option.bind (read_answer_of frame) (\<lambda>answer.
            let key = (zrx_cluster rx, zh_tsn (zf_header frame)) in
            map_option (\<lambda>p. (key, p, answer)) (hm_get (tk_pending_zcl t) key)))"

section \<open>Publishing\<close>

definition reported_endpoint :: "ieee \<Rightarrow> endpoint_id \<Rightarrow> 'a task \<Rightarrow> endpoint_id option" where
  "reported_endpoint i ep t =
     (case iv_get i (tk_devices t) of
        Some e \<Rightarrow> if 1 < length (di_endpoints (en_info e)) then Some ep else None
      | None \<Rightarrow> None)"

definition attributes_to_state ::
  "device_def \<Rightarrow> cluster_id \<Rightarrow> (u16 \<times> zcl_value) list \<Rightarrow> state_changes" where
  "attributes_to_state d cluster attributes =
     fold (\<lambda>(attribute, v) changes. case report_to_state d cluster attribute v of
         Some (capability, state) \<Rightarrow> sc_set capability state changes
       | None \<Rightarrow> changes) attributes sc_new"

definition tk_publish_state ::
  "'a config \<Rightarrow> ieee \<Rightarrow> endpoint_id \<Rightarrow> cluster_id \<Rightarrow> (u16 \<times> zcl_value) list \<Rightarrow> 'a task \<Rightarrow> 'a task" where
  "tk_publish_state c i ep cluster attributes t =
     (case tk_resolve c i t of
        None \<Rightarrow> t
      | Some d \<Rightarrow>
          (let changes = attributes_to_state d cluster attributes in
           if sc_is_empty changes then t
           else tk_emit (EvStateChanged i (reported_endpoint i ep t) changes) t))"

definition tk_publish_action ::
  "'a config \<Rightarrow> ieee \<Rightarrow> endpoint_id \<Rightarrow> cluster_id \<Rightarrow> u8 \<Rightarrow> (string \<times> zcl_value) list \<Rightarrow> 'a task \<Rightarrow> 'a task" where
  "tk_publish_action c i ep cluster command params t =
     (case Option.bind (tk_resolve c i t) (\<lambda>d. command_to_action d cluster command params) of
        None \<Rightarrow> t
      | Some (capability, action) \<Rightarrow> tk_emit (EvAction i (reported_endpoint i ep t) capability action) t)"

definition tk_publish_tuya ::
  "'a config \<Rightarrow> ieee \<Rightarrow> endpoint_id \<Rightarrow> u8 list \<Rightarrow> 'a task \<Rightarrow> 'a task" where
  "tk_publish_tuya c i ep frame t =
     (case zf_decode frame of
        Inl _ \<Rightarrow> t
      | Inr parsed \<Rightarrow>
          (case tuya_decode (zf_payload parsed) of
             Inl _ \<Rightarrow> t
           | Inr (_, datapoints) \<Rightarrow>
               (if datapoints = [] then t
                else
                  (case (iv_get i (tk_devices t), tk_resolve c i t) of
                     (Some entry, Some d) \<Rightarrow>
                       (let changes = datapoints_to_state d datapoints (en_info entry) (cf_behaviors c) in
                        if sc_is_empty changes then t
                        else tk_emit (EvStateChanged i (reported_endpoint i ep t) changes) t)
                   | _ \<Rightarrow> t))))"

section \<open>Firmware queries\<close>

definition OTA_CLUSTER :: cluster_id where "OTA_CLUSTER = ClusterId 0x0019"
definition QUERY_NEXT_IMAGE_REQUEST :: u8 where "QUERY_NEXT_IMAGE_REQUEST = 0x01"

definition tk_answer_ota_query :: "'a config \<Rightarrow> ieee \<Rightarrow> zcl_rx \<Rightarrow> 'a task \<Rightarrow> 'a task" where
  "tk_answer_ota_query c i rx t =
     (case zf_decode (zrx_frame rx) of
        Inl _ \<Rightarrow> t
      | Inr frame \<Rightarrow>
          (if command_raw (zh_command (zf_header frame)) \<noteq> QUERY_NEXT_IMAGE_REQUEST
              \<or> zh_frame_type (zf_header frame) \<noteq> Specific then t
           else
             (case map_option en_nwk (iv_get i (tk_devices t)) of
                None \<Rightarrow> t
              | Some nwk \<Rightarrow>
                  snd (tk_send_zcl c \<lparr>ztx_dest = Unicast i nwk, ztx_endpoint = zrx_endpoint rx,
                    ztx_source_endpoint = EndpointId 1, ztx_profile = profile_HA,
                    ztx_cluster = OTA_CLUSTER, ztx_frame = enc_ota_no_image (zh_tsn (zf_header frame)),
                    ztx_options = txo_default\<rparr> t))))"

section \<open>Frames\<close>

definition tk_publish_message :: "'a config \<Rightarrow> ieee \<Rightarrow> zcl_rx \<Rightarrow> zcl_message \<Rightarrow> 'a task \<Rightarrow> 'a task" where
  "tk_publish_message c i rx m t =
     (case zm_kind m of
        MkAttributes attributes \<Rightarrow> tk_publish_state c i (zrx_endpoint rx) (zrx_cluster rx) attributes t
      | MkCommand command _ params \<Rightarrow>
          (if zrx_cluster rx = TUYA_CLUSTER \<and> tuya_is_report (CommandId command)
           then tk_publish_tuya c i (zrx_endpoint rx) (zrx_frame rx) t
           else tk_publish_action c i (zrx_endpoint rx) (zrx_cluster rx) command params t)
      | MkDefaultResponse _ _ \<Rightarrow> t)"

text \<open>Reporting a frame that answers no read.\<close>

definition tk_report_frame :: "'a config \<Rightarrow> ieee \<Rightarrow> zcl_rx \<Rightarrow> 'a task \<Rightarrow> 'a task" where
  "tk_report_frame c i rx t =
     (let t = (if zrx_cluster rx = OTA_CLUSTER then tk_answer_ota_query c i rx t else t) in
      case dec_zcl_message (tk_registry t) i rx of
        Inr m \<Rightarrow>
          (let (wall, t) = tk_wall c t in
           tk_emit (EvZclMessage m) (tk_publish_message c i rx m (tk_touch c i wall LsMessage t)))
      | Inl reason \<Rightarrow>
          (let (wall, t) = tk_wall c t in
           tk_emit (EvUnparsedFrame i (zrx_endpoint rx) (zrx_cluster rx) (zrx_frame rx) reason)
             (tk_touch c i wall LsMessageWithoutPayload t)))"

definition tk_resolve_read ::
  "'a config \<Rightarrow> ieee \<Rightarrow> zcl_rx \<Rightarrow> (cluster_id \<times> u8) \<times> pending_zcl \<times> read_answer \<Rightarrow> 'a task \<Rightarrow> 'a task" where
  "tk_resolve_read c i rx x t =
     (case x of
        (key, p, answer) \<Rightarrow>
          (let t = t\<lparr>tk_pending_zcl := hm_remove key (tk_pending_zcl t)\<rparr>;
               result = (case answer of
                 RaAttributes \<Rightarrow> Inr (attributes_of (tk_registry t) i rx)
               | RaRefused status \<Rightarrow> Inl (ReReadRefused i status));
               t = tk_reply (pzc_reply p) (RpRead result) t;
               (wall, t) = tk_wall c t
           in tk_touch c i wall LsMessage t))"

definition tk_on_zcl :: "'a config \<Rightarrow> zcl_rx \<Rightarrow> 'a task \<Rightarrow> 'a task" where
  "tk_on_zcl c rx t =
     (case or_else (zrx_ieee rx) (iv_resolve (zrx_nwk rx) (tk_devices t)) of
        None \<Rightarrow> t
      | Some i \<Rightarrow>
          (let t = tk_readdress i (zrx_nwk rx) t;
               t = tk_modify i (\<lambda>e. e\<lparr>en_info := (en_info e)
                 \<lparr>di_link_quality := or_else (zrx_link_quality rx) (di_link_quality (en_info e))\<rparr>\<rparr>) t
           in case answered_read rx t of
                Some x \<Rightarrow> tk_resolve_read c i rx x t
              | None \<Rightarrow> tk_report_frame c i rx t))"

definition tk_on_zdo :: "'a config \<Rightarrow> zdo_cluster \<Rightarrow> nwk \<Rightarrow> u8 list \<Rightarrow> 'a task \<Rightarrow> 'a task" where
  "tk_on_zdo c cluster nwk payload t =
     (let t = (case payload of
            [] \<Rightarrow> t
          | sequence # _ \<Rightarrow>
              (case hm_get (tk_pending_zdo t) (cluster, sequence) of
                 None \<Rightarrow> t
               | Some p \<Rightarrow> tk_reply (pzd_reply p) (RpZdo (Inr payload))
                   (t\<lparr>tk_pending_zdo := hm_remove (cluster, sequence) (tk_pending_zdo t)\<rparr>)));
          t = (case iv_resolve nwk (tk_devices t) of
            None \<Rightarrow> t
          | Some i \<Rightarrow> (let (wall, t) = tk_wall c t in tk_touch c i wall LsMessage t))
      in tk_emit (EvZdoResponse nwk cluster payload) t)"

end
