(* ===== verification/Task_Commands.thy ===== *)
theory Task_Commands
  imports Task_Inbound
begin

text \<open>
  Turning a command into a frame and sending it, \<open>rszigbee-core/src/runtime/task/commands.rs\<close>.
\<close>

section \<open>Planning\<close>

type_synonym planned_frame = "endpoint_id option \<times> cluster_id \<times> u8 list"

text \<open>A write of datapoints, with the next Tuya sequence number.\<close>

definition tk_tuya_frame :: "u8 \<Rightarrow> datapoint list \<Rightarrow> 'a task \<Rightarrow> planned_frame \<times> 'a task" where
  "tk_tuya_frame tsn points t =
     (let t = t\<lparr>tk_tuya_sequence := tk_tuya_sequence t + 1\<rparr> in
      ((Some (EndpointId 1), TUYA_CLUSTER,
        enc_planned tsn DATA_REQUEST (tuya_encode (tk_tuya_sequence t) points)), t))"

text \<open>The datapoints a behaviour gives, asked only for what the table cannot say.\<close>

definition behaviour_points ::
  "'a config \<Rightarrow> device_def \<Rightarrow> ieee \<Rightarrow> device_command \<Rightarrow> 'a task \<Rightarrow> datapoint list option" where
  "behaviour_points c d i command t =
     (if command_to_datapoint d command = None
      then Option.bind (iv_get i (tk_devices t)) (\<lambda>entry.
        command_via_behavior d command (en_info entry) (cf_behaviors c))
      else None)"

definition tk_plan_capability_command ::
  "'a config \<Rightarrow> ieee \<Rightarrow> device_command \<Rightarrow> u8 \<Rightarrow> 'a task \<Rightarrow> (command_error + planned_frame) \<times> 'a task" where
  "tk_plan_capability_command c i command tsn t =
     (case tk_resolve c i t of
        None \<Rightarrow> (Inl CeNoDefinition, t)
      | Some d \<Rightarrow>
          (case behaviour_points c d i command t of
             Some [] \<Rightarrow>
               (Inl (CeInvalidValue ''behavior'' ''the device behaviour refused this command''), t)
           | Some points \<Rightarrow> apfst Inr (tk_tuya_frame tsn points t)
           | None \<Rightarrow>
               (case command_to_datapoint d command of
                  Some point \<Rightarrow> apfst Inr (tk_tuya_frame tsn [point] t)
                | None \<Rightarrow>
                    (case iv_get i (tk_devices t) of
                       None \<Rightarrow> (Inl (CeUnknownDevice i), t)
                     | Some entry \<Rightarrow>
                         (map_sum id (\<lambda>p. (Some (pz_endpoint p), pz_cluster p,
                            enc_planned tsn (pz_command p) (pz_payload p)))
                            (plan_command (cf_debug c) d (en_info entry) command), t)))))"

text \<open>The three ways to a frame: two escape hatches and the definition.\<close>

definition tk_plan_frame ::
  "'a config \<Rightarrow> ieee \<Rightarrow> device_command \<Rightarrow> u8 \<Rightarrow> 'a task \<Rightarrow> (command_error + planned_frame) \<times> 'a task" where
  "tk_plan_frame c i command tsn t =
     (case command of
        DcZcl zcl \<Rightarrow>
          (map_sum (\<lambda>e. CeInvalidValue ''zcl'' (encode_error_text e))
             (\<lambda>frame. (zc_endpoint zcl, zc_cluster zcl, frame)) (enc_command (tk_registry t) i tsn zcl), t)
      | DcZclAttributes write \<Rightarrow>
          (map_sum (\<lambda>e. CeInvalidValue ''zcl-attributes'' (encode_error_text e))
             (\<lambda>frame. (za_endpoint write, za_cluster write, frame))
             (enc_attribute_write (tk_registry t) i tsn write), t)
      | _ \<Rightarrow> tk_plan_capability_command c i command tsn t)"

text \<open>
  The endpoint of a frame: the requested one if the device is not known to lack it, else the first
  that hosts the cluster, else the first of all numbers.
\<close>

definition frame_endpoint ::
  "endpoint_info list \<Rightarrow> endpoint_id option \<Rightarrow> cluster_id \<Rightarrow> command_error + endpoint_id" where
  "frame_endpoint endpoints requested cluster =
     (case requested of
        Some ident \<Rightarrow>
          if endpoints \<noteq> [] \<and> \<not> list_ex (\<lambda>e. ep_id e = ident) endpoints
          then Inl (CeUnknownEndpoint ident) else Inr ident
      | None \<Rightarrow>
          Inr (case find (\<lambda>e. cluster \<in> set (ep_input_clusters e)) endpoints of
                 None \<Rightarrow> EndpointId 1 | Some e \<Rightarrow> ep_id e))"

section \<open>Sending\<close>

definition tk_deliver ::
  "'a config \<Rightarrow> ieee \<Rightarrow> instant \<Rightarrow> zcl_tx \<Rightarrow> 'a task \<Rightarrow> (command_error + command_outcome) \<times> 'a task" where
  "tk_deliver c i started tx t =
     (let (result, t) = tk_send_zcl c tx t; (now, t) = tk_now c t in
      case result of
        Inr response \<Rightarrow>
          (Inr \<lparr>co_optimistic_state = None,
             co_confirmed = (if response \<noteq> None then CfAcked else CfNoResponseRequested),
             co_latency = now - started\<rparr>,
           tk_record_tx c i now (Inr ()) t)
      | Inl (AeTx failure) \<Rightarrow>
          (Inl (CeDelivery failure),
           tk_emit (event.EvCommandFailed i None failure) (tk_record_tx c i now (Inl failure) t))
      | Inl _ \<Rightarrow> (Inl (CeTimeout (now - started)), t))"

definition tk_run_command ::
  "'a config \<Rightarrow> ieee \<Rightarrow> device_command \<Rightarrow> 'a task \<Rightarrow> (command_error + command_outcome) \<times> 'a task" where
  "tk_run_command c i command t =
     (case iv_get i (tk_devices t) of
        None \<Rightarrow> (Inl (CeUnknownDevice i), t)
      | Some entry \<Rightarrow>
          (let (started, t) = tk_now c t;
               t = t\<lparr>tk_zcl_sequence := tk_zcl_sequence t + 1\<rparr>;
               (plan, t) = tk_plan_frame c i command (tk_zcl_sequence t) t
           in case plan of
                Inl e \<Rightarrow> (Inl e, t)
              | Inr (requested, cluster, frame) \<Rightarrow>
                  (case frame_endpoint (di_endpoints (en_info entry)) requested cluster of
                     Inl e \<Rightarrow> (Inl e, t)
                   | Inr ep \<Rightarrow>
                       tk_deliver c i started \<lparr>ztx_dest = Unicast i (en_nwk entry), ztx_endpoint = ep,
                         ztx_source_endpoint = EndpointId 1, ztx_profile = profile_HA, ztx_cluster = cluster,
                         ztx_frame = frame, ztx_options = txo_default\<rparr> t)))"

end
