(* ===== verification/Task_Loop.thy ===== *)
theory Task_Loop
  imports Task_Commands
begin

text \<open>
  The loop of the runtime task, \<open>rszigbee-core/src/runtime/task/mod.rs\<close>: how it starts, what it
  does for each request, each event of the adapter and each tick, and how it ends.
\<close>

section \<open>Starting and stopping\<close>

text \<open>The fields \<open>spawn\<close> sets, from the stored devices and what starting the adapter found out.\<close>

definition tk_initial ::
  "'a \<Rightarrow> memory_store \<Rightarrow> bool \<Rightarrow> cluster_registry \<Rightarrow> persisted_device list \<Rightarrow> 'a task" where
  "tk_initial a store known registry stored =
     \<lparr>tk_adapter = a, tk_store = store, tk_network_known = known, tk_persisted_frame_counter = 0,
      tk_devices = fold (\<lambda>p. iv_insert (entry_from_persisted p)) stored iv_new,
      tk_pending_zdo = [], tk_pending_zcl = [], tk_zdo_sequence = 0, tk_zcl_sequence = 0,
      tk_tuya_sequence = 0, tk_registry = registry, tk_ticks = 0, tk_events = [], tk_replies = [],
      tk_sent_zcl = [], tk_sent_zdo = [], tk_interviews = []\<rparr>"

text \<open>What \<open>run\<close> does before its loop.\<close>

definition tk_prologue :: "'a config \<Rightarrow> start_outcome \<Rightarrow> 'a task \<Rightarrow> 'a task" where
  "tk_prologue c outcome t =
     (let t = tk_register_coordinator c t;
          t = fold (tk_register_custom_clusters c) (map (\<lambda>e. di_ieee (en_info e)) (iv_all (tk_devices t))) t;
          t = tk_persist_network c t
      in tk_emit (EvStarted outcome) t)"

text \<open>The in-memory store writes straight through.\<close>

definition ms_flush :: "memory_store \<Rightarrow> store_error + unit" where
  "ms_flush s = Inr ()"

definition tk_stop_pending :: "'a task \<Rightarrow> 'a task" where
  "tk_stop_pending t =
     (let t = fold (\<lambda>e. tk_reply (pzd_reply (snd e)) (RpZdo (Inl ReStopped))) (tk_pending_zdo t)
            (t\<lparr>tk_pending_zdo := []\<rparr>)
      in fold (\<lambda>e. tk_reply (pzc_reply (snd e)) (RpRead (Inl ReStopped))) (tk_pending_zcl t)
           (t\<lparr>tk_pending_zcl := []\<rparr>))"

definition tk_shutdown :: "'a config \<Rightarrow> 'a task \<Rightarrow> (runtime_error + unit) \<times> 'a task" where
  "tk_shutdown c t =
     (let t = tk_stop_pending (tk_emit EvStopping t);
          t = tk_refresh_frame_counter c t;
          flushed = ms_flush (tk_store t);
          (stopped, a) = ad_stop (cf_adapter c) (tk_adapter t)
      in (case stopped of
            Inl e \<Rightarrow> Inl (ReAdapter e)
          | Inr _ \<Rightarrow> map_sum ReStore id flushed, t\<lparr>tk_adapter := a\<rparr>))"

section \<open>Requests\<close>

definition tk_plan_reply :: "'a config \<Rightarrow> ieee \<Rightarrow> 'a task \<Rightarrow> configure_step list" where
  "tk_plan_reply c i t =
     (case (tk_resolve c i t, iv_get i (tk_devices t)) of
        (Some d, Some entry) \<Rightarrow> configure_plan d (en_info entry)
      | _ \<Rightarrow> [])"

fun tk_handle_request :: "'a config \<Rightarrow> request \<Rightarrow> 'a task \<Rightarrow> 'a task" where
  "tk_handle_request c (RqDevices s) t = tk_reply s (RpDevices (iv_snapshot (tk_devices t))) t"
| "tk_handle_request c (RqDevice i s) t =
     tk_reply s (RpDevice (map_option en_info (iv_get i (tk_devices t)))) t"
| "tk_handle_request c (RqNetwork s) t =
     (case tk_network_info c t of (r, t) \<Rightarrow> tk_reply s (RpNetwork r) t)"
| "tk_handle_request c (RqPermitJoin d via s) t =
     (case tk_permit_join c d via t of (r, t) \<Rightarrow> tk_reply s (RpUnit r) t)"
| "tk_handle_request c (RqZclRead i ep cluster attributes s) t = tk_zcl_read c i ep cluster attributes s t"
| "tk_handle_request c (RqZdo i cluster build s) t = tk_send_zdo_request c i cluster build s t"
| "tk_handle_request c (RqCommand i command s) t =
     (case tk_run_command c i command t of (r, t) \<Rightarrow> tk_reply s (RpCommand r) t)"
| "tk_handle_request c (RqInterview i s) t =
     (if iv_get i (tk_devices t) = None then tk_reply s (RpInterview (Inl (ReUnknownDevice i))) t
      else tk_spawn_interview i (Some s) t)"
| "tk_handle_request c (RqInterviewUpdate i u) t = tk_interview_update c i u t"
| "tk_handle_request c (RqConfigure i s) t =
     (if iv_get i (tk_devices t) = None then tk_reply s (RpConfigure (Inl (ReUnknownDevice i))) t
      else (case tk_execute_configure_plan c i t of (o', t) \<Rightarrow> tk_reply s (RpConfigure (Inr o')) t))"
| "tk_handle_request c (RqDefinition i s) t =
     tk_reply s (RpDefinition (map_option (\<lambda>d. (dd_model d, dd_is_complete d)) (tk_resolve c i t))) t"
| "tk_handle_request c (RqConfigurePlan i s) t = tk_reply s (RpConfigurePlan (tk_plan_reply c i t)) t"
| "tk_handle_request c (RqStop s) t = tk_reply s (RpUnit (Inr ())) t"

section \<open>Events of the adapter and ticks\<close>

fun tk_handle_adapter_event :: "'a config \<Rightarrow> adapter_event \<Rightarrow> 'a task \<Rightarrow> 'a task" where
  "tk_handle_adapter_event c (AeDeviceJoined i n) t = tk_on_joined c i n t"
| "tk_handle_adapter_event c (AeDeviceLeft i n) t = tk_on_left i n t"
| "tk_handle_adapter_event c (AeZcl rx) t = tk_on_zcl c rx t"
| "tk_handle_adapter_event c (AeZdo cluster n payload) t = tk_on_zdo c cluster n payload t"
| "tk_handle_adapter_event c (AeDisconnected reason) t = tk_emit (EvAdapterDisconnected reason) t"

definition tk_tick :: "'a config \<Rightarrow> (sender \<Rightarrow> bool) \<Rightarrow> 'a task \<Rightarrow> 'a task" where
  "tk_tick c gone t = tk_refresh_frame_counter c (tk_run_due c (tk_expire_pending c gone t))"

section \<open>The loop\<close>

text \<open>
  What \<open>select!\<close> may choose: a request, an event, a tick, or that one of the two channels is closed.
  A tick carries which callers have gone away.
\<close>

datatype run_input =
    InRequest request
  | InHandlesDropped
  | InAdapterEvent adapter_event
  | InAdapterClosed
  | InTick "sender \<Rightarrow> bool"

text \<open>One turn of the loop; the second component tells whether the loop goes on.\<close>

fun run_turn :: "'a config \<Rightarrow> run_input \<Rightarrow> 'a task \<Rightarrow> 'a task \<times> bool" where
  "run_turn c (InRequest (RqStop s)) t =
     (case tk_shutdown c t of (r, t) \<Rightarrow> (tk_reply s (RpUnit r) t, False))"
| "run_turn c (InRequest rq) t = (tk_handle_request c rq t, True)"
| "run_turn c InHandlesDropped t = (snd (tk_shutdown c t), False)"
| "run_turn c (InAdapterEvent ev) t = (tk_handle_adapter_event c ev t, True)"
| "run_turn c InAdapterClosed t = (snd (tk_shutdown c t), False)"
| "run_turn c (InTick gone) t = (tk_tick c gone t, True)"

text \<open>The loop over what it is given, with what it leaves unread when it returns.\<close>

fun run_loop :: "'a config \<Rightarrow> run_input list \<Rightarrow> 'a task \<Rightarrow> 'a task \<times> bool \<times> run_input list" where
  "run_loop c [] t = (t, True, [])"
| "run_loop c (x # xs) t =
     (case run_turn c x t of (t, go) \<Rightarrow> if go then run_loop c xs t else (t, False, xs))"

end
