(* ===== verification/Task_Invariant.thy ===== *)
theory Task_Invariant
  imports Task_Loop
begin

text \<open>
  What the operations of the runtime task keep. Three locales, each extending the one before: a
  \<open>local_invariant\<close> survives what the task does to its own tables and its event stream, a
  \<open>task_invariant\<close> also what it does with the adapter, a \<open>call_invariant\<close> also what it does about
  callers. Each asks only that the property survives the primitive updates, and proves that it
  survives every operation that is made of them; the last proves it for the whole loop. The second
  parameter of a locale says which devices the property lets be assessed: a property that holds
  whatever is assessed has all of them there, one about a device that is silent all but that one.
\<close>

section \<open>The device table, the store and the event stream\<close>

text \<open>
  A change of an entry that leaves it where it is in the table, and leaves the verdict on its
  reachability and the next check of it alone.
\<close>

definition keeps_entry :: "(inv_entry \<Rightarrow> inv_entry) \<Rightarrow> bool" where
  "keeps_entry f \<longleftrightarrow>
     (\<forall>e. di_ieee (en_info (f e)) = di_ieee (en_info e) \<and> en_nwk (f e) = en_nwk e
        \<and> ri_state (en_reachability (f e)) = ri_state (en_reachability e)
        \<and> en_next_check (f e) = en_next_check e)"

text \<open>The events that are not about who is known and whether they are reachable.\<close>

fun neutral :: "event \<Rightarrow> bool" where
  "neutral (EvReachabilityChanged _ _ _ _) \<longleftrightarrow> False"
| "neutral (EvDeviceJoined _ _) \<longleftrightarrow> False"
| "neutral (EvDeviceLeft _ _) \<longleftrightarrow> False"
| "neutral _ \<longleftrightarrow> True"

lemma records_keep_verdict [simp]:
  "ri_state (ri_record_traffic s r) = ri_state r"
  "ri_state (ri_record_tx i x r) = ri_state r"
  "ri_state (ri_record_probe i y r) = ri_state r"
  by (simp_all add: ri_record_traffic_def ri_record_tx_def ri_record_probe_def Let_def
      split: sum.split unit.split probe_result.split)

locale local_invariant =
  fixes P :: "'a task \<Rightarrow> bool" and A :: "ieee \<Rightarrow> bool"
  assumes on_event: "P t \<Longrightarrow> neutral e \<Longrightarrow> P (t\<lparr>tk_events := tk_events t @ [e]\<rparr>)"
    and on_ticks: "P t \<Longrightarrow> P (t\<lparr>tk_ticks := k\<rparr>)"
    and on_zcl_sequence: "P t \<Longrightarrow> P (t\<lparr>tk_zcl_sequence := u\<rparr>)"
    and on_tuya_sequence: "P t \<Longrightarrow> P (t\<lparr>tk_tuya_sequence := w\<rparr>)"
    and on_registry: "P t \<Longrightarrow> P (t\<lparr>tk_registry := cr_insert_for_device i d (tk_registry t)\<rparr>)"
    and on_modify: "P t \<Longrightarrow> keeps_entry f \<Longrightarrow> P (t\<lparr>tk_devices := iv_modify i f (tk_devices t)\<rparr>)"
    and on_set_nwk: "P t \<Longrightarrow> P (t\<lparr>tk_devices := snd (iv_set_nwk i n (tk_devices t))\<rparr>)"
    and on_depart: "P t \<Longrightarrow> P (tk_emit (EvDeviceLeft i LrUnknown)
          (t\<lparr>tk_devices := snd (iv_remove i (tk_devices t))\<rparr>))"
    and on_join: "P t \<Longrightarrow> iv_get i (tk_devices t) = None \<Longrightarrow> P (tk_emit (EvDeviceJoined i n)
          (t\<lparr>tk_devices := iv_insert (new_entry i n wall) (tk_devices t)\<rparr>))"
    and on_upsert: "P t \<Longrightarrow> ms_upsert_device p (tk_store t) = Inr s \<Longrightarrow> P (t\<lparr>tk_store := s\<rparr>)"
    and on_delete: "P t \<Longrightarrow> ms_delete_device i (tk_store t) = Inr s \<Longrightarrow> P (t\<lparr>tk_store := s\<rparr>)"
    and assess: "P t \<Longrightarrow> A i \<Longrightarrow> P (tk_assess c i ev t)"
begin

lemma emit: "P t \<Longrightarrow> neutral e \<Longrightarrow> P (tk_emit e t)"
  by (simp add: tk_emit_def on_event)

lemma now: "P t \<Longrightarrow> P (snd (tk_now c t))"
  by (simp add: tk_now_def on_ticks)

lemma wall: "P t \<Longrightarrow> P (snd (tk_wall c t))"
  by (simp add: tk_wall_def on_ticks)

lemma modify: "P t \<Longrightarrow> keeps_entry f \<Longrightarrow> P (tk_modify i f t)"
  by (simp add: tk_modify_def on_modify)

lemma join_at: "P t \<Longrightarrow> iv_get i (tk_devices t) = None \<Longrightarrow> P (tk_emit (EvDeviceJoined i n)
    (t\<lparr>tk_ticks := k, tk_devices := iv_insert (new_entry i n wall) (tk_devices t)\<rparr>))"
  using on_join [OF on_ticks] by simp

lemma readdress: "P t \<Longrightarrow> P (tk_readdress i n t)"
  by (simp add: tk_readdress_def split_beta Let_def on_set_nwk emit split: option.split)

lemmas local_basic = emit now wall readdress modify

lemma loop: "(\<And>x s. x \<in> set xs \<Longrightarrow> P s \<Longrightarrow> P (f x s)) \<Longrightarrow> P s \<Longrightarrow> P (fold f xs s)"
  by (induction xs arbitrary: s) auto

text \<open>Availability.\<close>

lemma touch: "P t \<Longrightarrow> A i \<Longrightarrow> P (tk_touch c i s r t)"
  by (simp add: tk_touch_def Let_def local_basic assess keeps_entry_def split: option.split)

lemma record_tx: "P t \<Longrightarrow> A i \<Longrightarrow> P (tk_record_tx c i s r t)"
  by (simp add: tk_record_tx_def assess modify keeps_entry_def)

text \<open>Devices and the store.\<close>

lemma persist: "P t \<Longrightarrow> P (tk_persist i t)"
  by (auto simp: tk_persist_def split: option.split sum.split intro: on_upsert)

lemma register_clusters: "P t \<Longrightarrow> P (tk_register_custom_clusters c i t)"
proof -
  have "P s \<Longrightarrow> P (s\<lparr>tk_registry := fold (cr_insert_for_device i) ds (tk_registry s)\<rparr>)" for ds s
  proof (induction ds arbitrary: s)
    case (Cons d ds)
    from Cons.IH [OF on_registry [OF Cons.prems, of i d]] show ?case by simp
  qed simp
  then show "P t \<Longrightarrow> ?thesis"
    by (simp add: tk_register_custom_clusters_def split: option.split)
qed

lemma metadata: "P t \<Longrightarrow> P (tk_apply_definition_metadata c i t)"
  by (simp add: tk_apply_definition_metadata_def Let_def split_beta persist modify keeps_entry_def
      split: option.split)

lemma depart_at:
  assumes "P t" "ms_delete_device i (tk_store t) = Inr s"
  shows "P (tk_emit (EvDeviceLeft i LrUnknown) (t\<lparr>tk_devices := snd (iv_remove i (tk_devices t)), tk_store := s\<rparr>))"
proof -
  have swap: "t\<lparr>tk_devices := v, tk_store := s\<rparr> = t\<lparr>tk_store := s, tk_devices := v\<rparr>" for v by simp
  show ?thesis
    using on_depart [OF on_delete [OF assms], of i] by (simp only: swap) simp
qed

lemma on_left: "P t \<Longrightarrow> P (tk_on_left i n t)"
  by (simp add: tk_on_left_def Let_def on_depart depart_at split: option.split sum.split)

text \<open>Frames and commands.\<close>

lemma publish_state: "P t \<Longrightarrow> P (tk_publish_state c i ep cl attributes t)"
  by (simp add: tk_publish_state_def Let_def emit split: option.split)

lemma publish_action: "P t \<Longrightarrow> P (tk_publish_action c i ep cl command params t)"
  by (simp add: tk_publish_action_def emit split: option.split)

lemma publish_tuya: "P t \<Longrightarrow> P (tk_publish_tuya c i ep frame t)"
  by (simp add: tk_publish_tuya_def Let_def split_beta emit split: option.split sum.split)

lemma publish_message: "P t \<Longrightarrow> P (tk_publish_message c i rx m t)"
  by (simp add: tk_publish_message_def publish_state publish_action publish_tuya split: zcl_message_kind.split)

lemma tuya_frame: "P t \<Longrightarrow> P (snd (tk_tuya_frame tsn points t))"
  by (simp add: tk_tuya_frame_def Let_def on_tuya_sequence)

lemma plan_capability: "P t \<Longrightarrow> P (snd (tk_plan_capability_command c i command tsn t))"
  by (simp add: tk_plan_capability_command_def tuya_frame split: option.split list.split)

lemma plan_frame: "P t \<Longrightarrow> P (snd (tk_plan_frame c i command tsn t))"
  by (simp add: tk_plan_frame_def plan_capability split: device_command.split)

end

section \<open>The adapter\<close>

locale task_invariant = local_invariant P A for P :: "'a task \<Rightarrow> bool" and A :: "ieee \<Rightarrow> bool" +
  assumes on_adapter: "P t \<Longrightarrow> P (t\<lparr>tk_adapter := a\<rparr>)"
    and on_zcl: "P t \<Longrightarrow> P (t\<lparr>tk_sent_zcl := xs\<rparr>)"
    and on_zdo: "P t \<Longrightarrow> P (t\<lparr>tk_sent_zdo := ys\<rparr>)"
    and on_zdo_sequence: "P t \<Longrightarrow> P (t\<lparr>tk_zdo_sequence := u\<rparr>)"
    and on_known: "P t \<Longrightarrow> P (t\<lparr>tk_network_known := b\<rparr>)"
    and on_counter: "P t \<Longrightarrow> P (t\<lparr>tk_persisted_frame_counter := v\<rparr>)"
    and on_recount: "P t \<Longrightarrow> ms_load_network (tk_store t) = Inr (Some net) \<Longrightarrow>
          ms_save_network (net\<lparr>pnw_frame_counter := v\<rparr>) (tk_store t) = Inr s \<Longrightarrow> P (t\<lparr>tk_store := s\<rparr>)"
    and due: "P t \<Longrightarrow> e \<in> set (iv_all (tk_devices t)) \<Longrightarrow> due_check now e = Some x \<Longrightarrow> A (fst x)"
begin

lemma send_zcl: "P t \<Longrightarrow> P (snd (tk_send_zcl c tx t))"
  using on_adapter [THEN on_zcl] by (simp add: tk_send_zcl_def split_beta)

lemma send_zdo: "P t \<Longrightarrow> P (snd (tk_send_zdo c tx t))"
  using on_adapter [THEN on_zdo] by (simp add: tk_send_zdo_def split_beta)

lemma network_info: "P t \<Longrightarrow> P (snd (tk_network_info c t))"
  by (simp add: tk_network_info_def split_beta on_adapter)

lemmas basic = emit now wall send_zcl send_zdo network_info readdress

text \<open>Availability.\<close>

lemma probe: "P t \<Longrightarrow> A i \<Longrightarrow> P (tk_probe c i r t)"
  by (simp add: tk_probe_def Let_def split_beta basic modify assess keeps_entry_def split: option.split)

lemma run_check: "P t \<Longrightarrow> A (fst x) \<Longrightarrow> P (run_check c x t)"
  by (simp add: run_check_def probe assess split: next_check.split)

lemma run_due:
  assumes "P t"
  shows "P (tk_run_due c t)"
proof -
  obtain n u where u: "tk_now c t = (n, u)" by fastforce
  with now [OF assms, of c] have Pu: "P u" by simp
  have "A (fst x)" if "x \<in> set (List.map_filter (due_check n) (iv_all (tk_devices u)))" for x
    using that due [OF Pu] by (auto simp: List.map_filter_def)
  then have "P (fold (run_check c) (List.map_filter (due_check n) (iv_all (tk_devices u))) u)"
    by (intro loop Pu) (simp add: run_check)
  then show ?thesis by (simp add: tk_run_due_def u)
qed

text \<open>The network record.\<close>

lemma refresh:
  assumes "P t"
  shows "P (tk_refresh_frame_counter c t)"
proof -
  obtain r t' where r: "tk_network_info c t = (r, t')" by fastforce
  with network_info [OF assms, of c] have "P t'" by simp
  moreover have "tk_store t' = tk_store t"
    using r by (auto simp: tk_network_info_def split: prod.splits)
  ultimately show ?thesis
    using assms r
    by (auto simp: tk_refresh_frame_counter_def Let_def split: sum.split option.split
        intro!: on_counter intro: on_recount [of t'])
qed

text \<open>Writing the first record is only done before the loop, and names the coordinator.\<close>

lemma persist_network:
  assumes "P t" and on_save: "\<And>u net s. P u \<Longrightarrow> pnw_coordinator_ieee net = cf_coordinator c \<Longrightarrow>
    ms_save_network net (tk_store u) = Inr s \<Longrightarrow> P (u\<lparr>tk_store := s\<rparr>)"
  shows "P (tk_persist_network c t)"
proof -
  obtain r t' where r: "tk_network_info c t = (r, t')" by fastforce
  obtain k a where k: "ad_network_key (cf_adapter c) (tk_adapter t') = (k, a)" by fastforce
  from network_info [OF assms(1), of c] r have "P (t'\<lparr>tk_adapter := a\<rparr>)" "P t'"
    by (simp_all add: on_adapter)
  with assms(1) r k show ?thesis
    by (auto simp: tk_persist_network_def Let_def split: sum.split
        intro!: on_counter [OF on_known [OF on_save, of "t'\<lparr>tk_adapter := a\<rparr>", simplified], simplified])
qed

text \<open>Joining and configuring.\<close>

lemma bind: "P t \<Longrightarrow> P (snd (tk_bind c i n ep cl co t))"
  by (simp add: tk_bind_def Let_def split_beta send_zdo on_zdo_sequence)

lemma configure_reporting: "P t \<Longrightarrow> P (snd (tk_configure_reporting c i n ep cl rs t))"
  by (simp add: tk_configure_reporting_def Let_def split_beta send_zcl on_zcl_sequence split: sum.split)

lemma permit_join: "P t \<Longrightarrow> P (snd (tk_permit_join c d via t))"
  by (simp add: tk_permit_join_def Let_def split_beta emit now on_adapter split: sum.split)

lemma configure_bind: "P (snd (snd x)) \<Longrightarrow> P (snd (snd (tk_configure_bind c i n step x)))"
  using bind [of "snd (snd x)"] by (simp add: tk_configure_bind_def split_beta split: sum.split)

lemma configure_report: "P (snd (snd x)) \<Longrightarrow> P (snd (snd (tk_configure_report c i n step x)))"
  using configure_reporting [of "snd (snd x)"]
  by (simp add: tk_configure_report_def split_beta split: option.split sum.split)

lemma configure_step: "P (snd (snd x)) \<Longrightarrow> P (snd (snd (tk_configure_step c i n step x)))"
  by (simp add: tk_configure_step_def configure_report configure_bind)

lemma configure_steps: "P (snd (snd x)) \<Longrightarrow> P (snd (snd (fold (tk_configure_step c i n) steps x)))"
  by (induction steps arbitrary: x) (simp_all add: configure_step)

lemma execute_plan: "P t \<Longrightarrow> P (snd (tk_execute_configure_plan c i t))"
  using configure_steps [of "([], cfo_default, t)"]
  by (simp add: tk_execute_configure_plan_def split_beta split: option.split)

lemma finish_interview: "P t \<Longrightarrow> P (tk_finish_interview c i o' t)"
  by (simp add: tk_finish_interview_def Let_def execute_plan metadata register_clusters emit persist
      modify keeps_entry_def apply_outcome_def split: option.split)

lemma interview_update: "P t \<Longrightarrow> P (tk_interview_update c i u t)"
  by (simp add: tk_interview_update_def persist emit modify finish_interview keeps_entry_def
      split: interview_update.split)

text \<open>Frames and commands.\<close>

lemma ota: "P t \<Longrightarrow> P (tk_answer_ota_query c i rx t)"
  by (simp add: tk_answer_ota_query_def send_zcl split: option.split sum.split)

lemma report_frame: "P t \<Longrightarrow> A i \<Longrightarrow> P (tk_report_frame c i rx t)"
  by (simp add: tk_report_frame_def Let_def split_beta ota emit publish_message touch wall split: sum.split)

lemma deliver: "P t \<Longrightarrow> A i \<Longrightarrow> P (snd (tk_deliver c i started tx t))"
  by (simp add: tk_deliver_def Let_def split_beta record_tx emit send_zcl now
      split: sum.split adapter_error.split)

lemma run_command: "P t \<Longrightarrow> A i \<Longrightarrow> P (snd (tk_run_command c i command t))"
  by (simp add: tk_run_command_def Let_def split_beta plan_frame now on_zcl_sequence deliver
      split: option.split sum.split)

end

section \<open>The whole loop\<close>

text \<open>
  The device an input makes the task assess: one that is heard, or that a command is sent to. No other
  request, and no leaving, is evidence of whether a device can be reached.
\<close>

fun concerned :: "run_input \<Rightarrow> 'a task \<Rightarrow> ieee option" where
  "concerned (InRequest (RqCommand i _ _)) t = Some i"
| "concerned (InAdapterEvent (AeDeviceJoined i n)) t = or_else i (iv_resolve n (tk_devices t))"
| "concerned (InAdapterEvent (AeZcl rx)) t = or_else (zrx_ieee rx) (iv_resolve (zrx_nwk rx) (tk_devices t))"
| "concerned (InAdapterEvent (AeZdo cluster n payload)) t = iv_resolve n (tk_devices t)"
| "concerned _ t = None"

text \<open>A run in which only devices that satisfy \<open>A\<close> are concerned.\<close>

fun concerns_only :: "(ieee \<Rightarrow> bool) \<Rightarrow> 'a config \<Rightarrow> run_input list \<Rightarrow> 'a task \<Rightarrow> bool" where
  "concerns_only A c [] t \<longleftrightarrow> True"
| "concerns_only A c (x # xs) t \<longleftrightarrow> pred_option A (concerned x t)
     \<and> (case run_turn c x t of (t, go) \<Rightarrow> if go then concerns_only A c xs t else True)"

lemma concerns_only_all [simp]: "concerns_only (\<lambda>_. True) c xs t"
  by (induction xs arbitrary: t) (simp_all add: option.pred_True split_beta)

locale call_invariant = task_invariant P A for P :: "'a task \<Rightarrow> bool" and A :: "ieee \<Rightarrow> bool" +
  assumes on_replies: "P t \<Longrightarrow> P (t\<lparr>tk_replies := rs\<rparr>)"
    and on_interview: "P t \<Longrightarrow> P (t\<lparr>tk_interviews := tk_interviews t @ [x]\<rparr>)"
    and on_zdo_insert: "P t \<Longrightarrow> P (t\<lparr>tk_pending_zdo := hm_insert kd pd (tk_pending_zdo t)\<rparr>)"
    and on_zdo_remove: "P t \<Longrightarrow> P (t\<lparr>tk_pending_zdo := hm_remove kd (tk_pending_zdo t)\<rparr>)"
    and on_zdo_clear: "P t \<Longrightarrow> P (t\<lparr>tk_pending_zdo := []\<rparr>)"
    and on_zcl_insert: "P t \<Longrightarrow> P (t\<lparr>tk_pending_zcl := hm_insert kc pc (tk_pending_zcl t)\<rparr>)"
    and on_zcl_remove: "P t \<Longrightarrow> P (t\<lparr>tk_pending_zcl := hm_remove kc (tk_pending_zcl t)\<rparr>)"
    and on_zcl_clear: "P t \<Longrightarrow> P (t\<lparr>tk_pending_zcl := []\<rparr>)"
begin

lemma reply: "P t \<Longrightarrow> P (tk_reply s r t)"
  by (simp add: tk_reply_def on_replies)

lemma spawn_interview: "P t \<Longrightarrow> P (tk_spawn_interview i s t)"
  by (simp add: tk_spawn_interview_def on_interview)

lemma send_zdo_request: "P t \<Longrightarrow> P (tk_send_zdo_request c i cl build s t)"
  by (simp add: tk_send_zdo_request_def Let_def split_beta reply send_zdo on_zdo_sequence on_zdo_insert now
      split: option.split sum.split)

lemma zcl_read: "P t \<Longrightarrow> P (tk_zcl_read c i ep cl attributes s t)"
  by (simp add: tk_zcl_read_def Let_def split_beta reply send_zcl on_zcl_sequence on_zcl_insert now
      split: option.split sum.split)

lemma expire_zdo: "P t \<Longrightarrow> P (expire_zdo k t)"
  by (simp add: expire_zdo_def reply on_zdo_remove split: option.split)

lemma expire_zcl: "P t \<Longrightarrow> P (expire_zcl k t)"
  by (simp add: expire_zcl_def reply on_zcl_remove split: option.split)

lemma expire_pending: "P t \<Longrightarrow> P (tk_expire_pending c gone t)"
  by (simp add: tk_expire_pending_def Let_def split_beta loop expire_zdo expire_zcl now)

lemma on_joined:
  "P t \<Longrightarrow> pred_option A (or_else i (iv_resolve n (tk_devices t))) \<Longrightarrow> P (tk_on_joined c i n t)"
  by (cases "or_else i (iv_resolve n (tk_devices t))")
    (simp_all add: tk_on_joined_def tk_wall_def Let_def split_beta spawn_interview persist touch emit readdress
      on_ticks join_at)

lemma resolve_read: "P t \<Longrightarrow> A i \<Longrightarrow> P (tk_resolve_read c i rx x t)"
  by (simp add: tk_resolve_read_def Let_def split_beta touch wall reply on_zcl_remove)

lemma zcl_frame:
  "P t \<Longrightarrow> pred_option A (or_else (zrx_ieee rx) (iv_resolve (zrx_nwk rx) (tk_devices t))) \<Longrightarrow>
     P (tk_on_zcl c rx t)"
  by (cases "or_else (zrx_ieee rx) (iv_resolve (zrx_nwk rx) (tk_devices t))")
    (simp_all add: tk_on_zcl_def Let_def resolve_read report_frame modify readdress keeps_entry_def
      split: option.split)

lemma zdo_answer:
  assumes "P t"
  shows "P (case payload of [] \<Rightarrow> t | sequence # _ \<Rightarrow>
      (case hm_get (tk_pending_zdo t) (cl, sequence) of None \<Rightarrow> t
       | Some p \<Rightarrow> tk_reply (pzd_reply p) (RpZdo (Inr payload))
           (t\<lparr>tk_pending_zdo := hm_remove (cl, sequence) (tk_pending_zdo t)\<rparr>)))"
    and "tk_devices (case payload of [] \<Rightarrow> t | sequence # _ \<Rightarrow>
      (case hm_get (tk_pending_zdo t) (cl, sequence) of None \<Rightarrow> t
       | Some p \<Rightarrow> tk_reply (pzd_reply p) (RpZdo (Inr payload))
           (t\<lparr>tk_pending_zdo := hm_remove (cl, sequence) (tk_pending_zdo t)\<rparr>))) = tk_devices t"
  using assms
  by (simp_all add: reply on_zdo_remove split: list.split option.split)
    (simp_all add: tk_reply_def split: option.split)

lemma zdo_frame: "P t \<Longrightarrow> pred_option A (iv_resolve n (tk_devices t)) \<Longrightarrow> P (tk_on_zdo c cl n payload t)"
  by (cases "iv_resolve n (tk_devices t)")
    (simp_all add: tk_on_zdo_def Let_def split_beta emit touch wall zdo_answer)

lemma stop_pending: "P t \<Longrightarrow> P (tk_stop_pending t)"
  by (simp add: tk_stop_pending_def Let_def loop reply on_zdo_clear on_zcl_clear)

lemma shutdown: "P t \<Longrightarrow> P (snd (tk_shutdown c t))"
  by (simp add: tk_shutdown_def Let_def split_beta on_adapter refresh stop_pending emit)

lemma prologue:
  "P (tk_register_coordinator c t) \<Longrightarrow>
     (\<And>u net s. P u \<Longrightarrow> pnw_coordinator_ieee net = cf_coordinator c \<Longrightarrow>
        ms_save_network net (tk_store u) = Inr s \<Longrightarrow> P (u\<lparr>tk_store := s\<rparr>)) \<Longrightarrow>
     P (tk_prologue c outcome t)"
  by (simp add: tk_prologue_def Let_def emit persist_network loop register_clusters)

lemma handle_request: "P t \<Longrightarrow> pred_option A (concerned (InRequest rq) t) \<Longrightarrow> P (tk_handle_request c rq t)"
  by (cases rq)
    (simp_all add: split_beta reply network_info permit_join zcl_read send_zdo_request run_command
      spawn_interview interview_update execute_plan)

lemma handle_adapter_event:
  "P t \<Longrightarrow> pred_option A (concerned (InAdapterEvent ev) t) \<Longrightarrow> P (tk_handle_adapter_event c ev t)"
  by (cases ev) (simp_all add: on_joined on_left zcl_frame zdo_frame emit)

lemma tick: "P t \<Longrightarrow> P (tk_tick c gone t)"
  by (simp add: tk_tick_def refresh run_due expire_pending)

lemma turn: "P t \<Longrightarrow> pred_option A (concerned x t) \<Longrightarrow> P (fst (run_turn c x t))"
proof (induction c x t rule: run_turn.induct)
  case 4
  then show ?case by (simp add: handle_adapter_event del: tk_handle_adapter_event.simps)
qed (simp_all add: split_beta reply shutdown handle_request tick del: tk_handle_request.simps)

lemma run: "P t \<Longrightarrow> concerns_only A c xs t \<Longrightarrow> P (fst (run_loop c xs t))"
  by (induction xs arbitrary: t) (simp_all add: split_beta turn split: if_splits)

end

section \<open>The tables are well formed\<close>

text \<open>
  The short-address index names devices that have that address, the tables of devices, outstanding
  calls and clusters have distinct keys, and the store files every record under its own address.
\<close>

definition ms_filed :: "memory_store \<Rightarrow> bool" where
  "ms_filed s \<longleftrightarrow> bt_wf (mi_devices (ms_inner s))
     \<and> list_all (\<lambda>e. pdv_ieee (snd e) = fst e) (mi_devices (ms_inner s))"

definition tk_wf :: "'a task \<Rightarrow> bool" where
  "tk_wf t \<longleftrightarrow> iv_sound (tk_devices t) \<and> ms_filed (tk_store t)
     \<and> hm_wf (tk_pending_zdo t) \<and> hm_wf (tk_pending_zcl t)"

lemma ms_update_Inr:
  "ms_update f s = Inr s' \<longleftrightarrow> \<not> ms_poisoned s \<and> s' = s\<lparr>ms_inner := f (ms_inner s)\<rparr>"
  by (auto simp: ms_update_def ms_with_def)

lemma ms_upsert_filed: "ms_upsert_device p s = Inr s' \<Longrightarrow> ms_filed s \<Longrightarrow> ms_filed s'"
  by (auto simp: ms_upsert_device_def ms_update_Inr ms_filed_def bt_wf_insert list_all_iff bt_set_insert)

lemma ms_delete_filed: "ms_delete_device i s = Inr s' \<Longrightarrow> ms_filed s \<Longrightarrow> ms_filed s'"
  by (auto simp: ms_delete_device_def ms_update_Inr ms_filed_def bt_wf_remove list_all_iff bt_set_remove)

lemma ms_save_filed: "ms_save_network r s = Inr s' \<Longrightarrow> ms_filed s \<Longrightarrow> ms_filed s'"
  by (auto simp: ms_save_network_def ms_update_Inr ms_filed_def)

lemma iv_modify_get:
  "iv_get j (iv_modify i f v) = (if j = i then map_option f (iv_get i v) else iv_get j v)"
  by (auto simp: iv_modify_def iv_get_def map_simps split: option.split)

lemma iv_modify_resolve: "iv_resolve n (iv_modify i f v) = iv_resolve n v"
  by (simp add: iv_modify_def iv_resolve_def split: option.split)

lemma iv_modify_at:
  assumes "iv_sound v" "\<And>e. di_ieee (en_info (f e)) = di_ieee (en_info e)" "\<And>e. en_nwk (f e) = en_nwk e"
  shows "iv_sound (iv_modify i f v)"
proof (rule iv_soundI)
  show "bt_wf (iv_devices (iv_modify i f v))" "hm_wf (iv_by_nwk (iv_modify i f v))"
    using iv_sound_wf [OF assms(1)] by (simp_all add: iv_modify_def bt_wf_insert split: option.split)
next
  fix j e
  assume "iv_get j (iv_modify i f v) = Some e"
  then show "di_ieee (en_info e) = j"
    using iv_sound_key [OF assms(1)] assms(2) by (auto simp: iv_modify_get split: if_splits)
next
  fix n j
  assume "iv_resolve n (iv_modify i f v) = Some j"
  then obtain e where "iv_get j v = Some e" "en_nwk e = n"
    using iv_sound_resolve [OF assms(1)] by (auto simp: iv_modify_resolve)
  with assms(3) show "\<exists>e. iv_get j (iv_modify i f v) = Some e \<and> en_nwk e = n"
    by (auto simp: iv_modify_get)
qed

lemma iv_modify_sound: "iv_sound v \<Longrightarrow> keeps_entry f \<Longrightarrow> iv_sound (iv_modify i f v)"
  by (rule iv_modify_at) (simp_all add: keeps_entry_def)

lemma tk_wf_modify:
  "tk_wf t \<Longrightarrow> keeps_entry f \<Longrightarrow> tk_wf (t\<lparr>tk_devices := iv_modify i f (tk_devices t)\<rparr>)"
  by (simp add: tk_wf_def iv_modify_sound)

lemma tk_wf_fields [simp]:
  "tk_wf (t\<lparr>tk_events := es\<rparr>) = tk_wf t" "tk_wf (t\<lparr>tk_ticks := k\<rparr>) = tk_wf t"
  by (simp_all add: tk_wf_def)

lemma tk_wf_insert: "tk_wf t \<Longrightarrow> tk_wf (t\<lparr>tk_devices := iv_insert e (tk_devices t)\<rparr>)"
  by (simp add: tk_wf_def iv_insert_sound)

lemma iv_modify_verdict_sound:
  "iv_sound v \<Longrightarrow> iv_sound (iv_modify i (\<lambda>e. e\<lparr>en_reachability := r e, en_next_check := x\<rparr>) v)"
  by (rule iv_modify_at) simp_all

lemma tk_wf_assess: "tk_wf t \<Longrightarrow> tk_wf (tk_assess c i ev t)"
  by (simp add: tk_assess_def Let_def split_beta tk_now_def tk_wall_def tk_modify_def tk_emit_def tk_wf_def
      iv_modify_verdict_sound split: option.split)

lemma tk_wf_coordinator: "tk_wf t \<Longrightarrow> tk_wf (tk_register_coordinator c t)"
  by (simp add: tk_register_coordinator_def Let_def tk_wall_def tk_wf_def iv_insert_sound)

interpretation wf: call_invariant tk_wf "\<lambda>_. True"
  by unfold_locales
    (simp_all add: tk_wf_modify tk_wf_assess tk_emit_def tk_wf_insert,
     auto simp: tk_wf_def iv_set_nwk_sound iv_remove_sound hm_wf_insert
      hm_wf_remove hm.wf_empty intro: ms_upsert_filed ms_delete_filed ms_save_filed)

lemma tk_wf_save: "tk_wf u \<Longrightarrow> ms_save_network net (tk_store u) = Inr s \<Longrightarrow> tk_wf (u\<lparr>tk_store := s\<rparr>)"
  by (auto simp: tk_wf_def intro: ms_save_filed)

lemma iv_fold_insert_sound: "iv_sound v \<Longrightarrow> iv_sound (fold (\<lambda>p. iv_insert (entry_from_persisted p)) ds v)"
  by (induction ds arbitrary: v) (simp_all add: iv_insert_sound)

lemma tk_initial_wf: "ms_filed s \<Longrightarrow> tk_wf (tk_initial a s known registry stored)"
  using iv_fold_insert_sound [of iv_new] iv_new_exact
  by (simp add: tk_initial_def tk_wf_def iv_exact_def hm_wf_def)

end
