(* ===== verification/Task_Calls.thy ===== *)
theory Task_Calls
  imports Task_Invariant "HOL-Library.Multiset"
begin

text \<open>
  Callers of the runtime task: which requests are outstanding, and that every caller is answered at
  most once, in time, and before the task ends.
\<close>

section \<open>Callers\<close>

text \<open>The part of the state that is about callers. Only the operations on requests change it.\<close>

definition tk_calls :: "'a task \<Rightarrow> (sender \<times> reply) list \<times> (zdo_cluster \<times> u8, pending_zdo) hashmap
     \<times> (cluster_id \<times> u8, pending_zcl) hashmap \<times> (ieee \<times> sender option) list" where
  "tk_calls t = (tk_replies t, tk_pending_zdo t, tk_pending_zcl t, tk_interviews t)"

lemma calls_assess: "tk_calls (tk_assess c i ev t) = tk_calls t"
  by (simp add: tk_assess_def Let_def split_beta tk_now_def tk_wall_def tk_modify_def tk_emit_def tk_calls_def
      split: option.split)

lemma calls_coordinator: "tk_calls (tk_register_coordinator c t) = tk_calls t"
  by (simp add: tk_register_coordinator_def Let_def tk_wall_def tk_calls_def)

interpretation calls: task_invariant "\<lambda>t. tk_calls t = k" "\<lambda>_. True" for k
  by unfold_locales (simp_all add: calls_assess, simp_all add: tk_calls_def tk_emit_def)

text \<open>The callers that have their answer, and with them those that still wait.\<close>

definition tk_answered :: "'a task \<Rightarrow> sender multiset" where
  "tk_answered t = mset (map fst (tk_replies t))"

definition tk_waiting :: "'a task \<Rightarrow> sender multiset" where
  "tk_waiting t = mset (map (\<lambda>e. pzd_reply (snd e)) (tk_pending_zdo t))
     + mset (map (\<lambda>e. pzc_reply (snd e)) (tk_pending_zcl t)) + mset (List.map_filter snd (tk_interviews t))"

definition tk_callers :: "'a task \<Rightarrow> sender multiset" where
  "tk_callers t = tk_answered t + tk_waiting t"

fun request_senders :: "request \<Rightarrow> sender list" where
  "request_senders (RqDevices s) = [s]"
| "request_senders (RqDevice i s) = [s]"
| "request_senders (RqNetwork s) = [s]"
| "request_senders (RqDefinition i s) = [s]"
| "request_senders (RqConfigure i s) = [s]"
| "request_senders (RqConfigurePlan i s) = [s]"
| "request_senders (RqPermitJoin d v s) = [s]"
| "request_senders (RqZclRead i ep cl as s) = [s]"
| "request_senders (RqZdo i cl b s) = [s]"
| "request_senders (RqCommand i x s) = [s]"
| "request_senders (RqInterview i s) = [s]"
| "request_senders (RqInterviewUpdate i u) = []"
| "request_senders (RqStop s) = [s]"

fun input_senders :: "run_input \<Rightarrow> sender list" where
  "input_senders (InRequest rq) = request_senders rq"
| "input_senders _ = []"

lemma callers_of_calls: "tk_calls t = tk_calls t' \<Longrightarrow> tk_callers t = tk_callers t'"
  by (simp add: tk_calls_def tk_callers_def tk_answered_def tk_waiting_def)

lemma callers_reply [simp]: "tk_callers (tk_reply s r t) = add_mset s (tk_callers t)"
  by (simp add: tk_callers_def tk_answered_def tk_waiting_def tk_reply_def)

lemma callers_spawn [simp]:
  "tk_callers (tk_spawn_interview i s t) = tk_callers t + mset (case s of None \<Rightarrow> [] | Some s \<Rightarrow> [s])"
  by (simp add: tk_callers_def tk_answered_def tk_waiting_def tk_spawn_interview_def List.map_filter_def
      split: option.split)

text \<open>Inserting in a table of outstanding calls may displace a caller, never duplicate one.\<close>

lemma mset_hm_insert: "mset (map f (hm_insert k v m)) \<subseteq># add_mset (f (k, v)) (mset (map f m))"
  by (induction m) (auto simp: hm_insert_def add_mset_commute intro: subset_mset.order_trans)

lemma mset_hm_remove:
  "hm_get m k = Some v \<Longrightarrow> add_mset (f (k, v)) (mset (map f (hm_remove k m))) \<subseteq># mset (map f m)"
proof (induction m)
  case (Cons e m)
  have "mset (map f (hm_remove k m)) \<subseteq># mset (map f m)"
    by (simp add: hm_remove_def AList.delete_eq mset_filter image_mset_subseteq_mono)
  with Cons show ?case
    by (cases e) (auto simp: hm_remove_def add_mset_commute)
qed simp

text \<open>Most operations leave the callers as they are.\<close>

interpretation callers: task_invariant "\<lambda>t. tk_callers t = k" "\<lambda>_. True" for k
  by unfold_locales
    (simp_all add: callers_of_calls [OF calls_assess],
     simp_all add: tk_callers_def tk_answered_def tk_waiting_def tk_emit_def)

lemmas callers_kept [simp] =
  callers.emit [OF refl] callers.now [OF refl] callers.wall [OF refl] callers.send_zcl [OF refl]
  callers.send_zdo [OF refl] callers.network_info [OF refl] callers.readdress [OF refl]
  callers.touch [OF refl] callers.run_due [OF refl] callers.persist [OF refl]
  callers.on_left [OF refl] callers.refresh [OF refl] callers.permit_join [OF refl]
  callers.execute_plan [OF refl] callers.interview_update [OF refl] callers.report_frame [OF refl]
  callers.run_command [OF refl] callers.on_zdo_sequence [OF refl] callers.on_zcl_sequence [OF refl]
  callers.join_at [OF refl] callers.depart_at [OF refl] callers.on_depart [OF refl] callers.on_join [OF refl] callers.on_adapter [OF refl]
  callers_of_calls [OF calls_coordinator]

lemma callers_link_quality [simp]:
  "tk_callers (tk_modify i (\<lambda>e. e\<lparr>en_info := (en_info e)\<lparr>di_link_quality := q e\<rparr>\<rparr>) t) = tk_callers t"
  by (rule callers.modify [OF refl]) (simp add: keeps_entry_def)

text \<open>The others add the callers they are given, at most once.\<close>

definition serves :: "sender list \<Rightarrow> 'a task \<Rightarrow> 'a task \<Rightarrow> bool" where
  "serves ss t t' \<longleftrightarrow> tk_callers t' \<subseteq># tk_callers t + mset ss"

lemma serves_same: "tk_callers t' = tk_callers t \<Longrightarrow> serves [] t t'"
  by (simp add: serves_def)

lemma serves_one: "tk_callers t' = add_mset s (tk_callers t) \<Longrightarrow> serves [s] t t'"
  by (simp add: serves_def)

lemma serves_trans:
  assumes "serves ss t t'" "serves ss' t' t''"
  shows "serves (ss @ ss') t t''"
  using subset_mset.order_trans [OF assms(2) [unfolded serves_def]
      subset_mset.add_right_mono [OF assms(1) [unfolded serves_def], of "mset ss'"]]
  by (simp add: serves_def add.assoc)

lemma serves_nil_trans: "serves [] t u \<Longrightarrow> serves [] u v \<Longrightarrow> serves [] t v"
  using serves_trans [of "[]" t u "[]" v] by simp

lemma callers_zdo_insert:
  "tk_callers (t\<lparr>tk_pending_zdo := hm_insert k p (tk_pending_zdo t)\<rparr>)
     \<subseteq># add_mset (pzd_reply p) (tk_callers t)"
  using mset_hm_insert [of "\<lambda>e. pzd_reply (snd e)" k p "tk_pending_zdo t"]
  by (simp add: tk_callers_def tk_answered_def tk_waiting_def subset_mset.add_right_mono flip: add_mset_add_single)

lemma callers_zcl_insert:
  "tk_callers (t\<lparr>tk_pending_zcl := hm_insert k p (tk_pending_zcl t)\<rparr>)
     \<subseteq># add_mset (pzc_reply p) (tk_callers t)"
  using mset_hm_insert [of "\<lambda>e. pzc_reply (snd e)" k p "tk_pending_zcl t"]
  by (simp add: tk_callers_def tk_answered_def tk_waiting_def subset_mset.add_right_mono flip: add_mset_add_single)

lemma callers_zdo_remove:
  "hm_get (tk_pending_zdo t) k = Some p \<Longrightarrow>
     add_mset (pzd_reply p) (tk_callers (t\<lparr>tk_pending_zdo := hm_remove k (tk_pending_zdo t)\<rparr>))
       \<subseteq># tk_callers t"
  using mset_hm_remove [of "tk_pending_zdo t" k p "\<lambda>e. pzd_reply (snd e)"]
  by (simp add: tk_callers_def tk_answered_def tk_waiting_def subset_mset.add_right_mono flip: add_mset_add_single)

lemma callers_zcl_remove:
  "hm_get (tk_pending_zcl t) k = Some p \<Longrightarrow>
     add_mset (pzc_reply p) (tk_callers (t\<lparr>tk_pending_zcl := hm_remove k (tk_pending_zcl t)\<rparr>))
       \<subseteq># tk_callers t"
  using mset_hm_remove [of "tk_pending_zcl t" k p "\<lambda>e. pzc_reply (snd e)"]
  by (simp add: tk_callers_def tk_answered_def tk_waiting_def subset_mset.add_right_mono flip: add_mset_add_single)

lemma serves_zdo_insert:
  "tk_callers t' = tk_callers t \<Longrightarrow> s = pzd_reply p \<Longrightarrow>
     serves [s] t (t'\<lparr>tk_pending_zdo := hm_insert k p (tk_pending_zdo t')\<rparr>)"
  using callers_zdo_insert [of k p t'] by (simp add: serves_def)

lemma serves_zcl_insert:
  "tk_callers t' = tk_callers t \<Longrightarrow> s = pzc_reply p \<Longrightarrow>
     serves [s] t (t'\<lparr>tk_pending_zcl := hm_insert k p (tk_pending_zcl t')\<rparr>)"
  using callers_zcl_insert [of k p t'] by (simp add: serves_def)

lemma serves_zdo: "serves [s] t (tk_send_zdo_request c i cl build s t)"
  by (simp add: tk_send_zdo_request_def Let_def split_beta serves_one serves_zdo_insert
      split: option.split sum.split)

lemma serves_zcl: "serves [s] t (tk_zcl_read c i ep cl attributes s t)"
  by (simp add: tk_zcl_read_def Let_def split_beta serves_one serves_zcl_insert
      split: option.split sum.split)

lemma serves_expire_zdo: "serves [] t (expire_zdo k t)"
  by (auto simp: expire_zdo_def serves_def callers_zdo_remove split: option.split)

lemma serves_expire_zcl: "serves [] t (expire_zcl k t)"
  by (auto simp: expire_zcl_def serves_def callers_zcl_remove split: option.split)

lemma serves_fold: "(\<And>x t. serves [] t (f x t)) \<Longrightarrow> serves [] t (fold f xs t)"
proof (induction xs arbitrary: t)
  case (Cons x xs)
  from serves_nil_trans [OF Cons.prems Cons.IH [OF Cons.prems]] show ?case by simp
qed (simp add: serves_same)

lemma serves_expire: "serves [] t (tk_expire_pending c gone t)"
proof -
  have "serves [] t (snd (tk_now c t))" by (simp add: serves_same)
  from serves_nil_trans [OF serves_nil_trans [OF this serves_fold [OF serves_expire_zdo]]
      serves_fold [OF serves_expire_zcl]]
  show ?thesis by (simp add: tk_expire_pending_def Let_def split_beta)
qed

lemma serves_resolve:
  "answered_read rx t = Some x \<Longrightarrow> serves [] t (tk_resolve_read c i rx x t)"
  using callers_zcl_remove [of t]
  by (auto simp: answered_read_def tk_resolve_read_def serves_def Let_def split_beta
      split: sum.splits bind_splits)

lemma serves_on_zcl: "serves [] t (tk_on_zcl c rx t)"
proof -
  have "serves [] t (case answered_read rx u of Some x \<Rightarrow> tk_resolve_read c i rx x u
      | None \<Rightarrow> tk_report_frame c i rx u)" if "tk_callers u = tk_callers t" for u i
    using that serves_resolve [of rx u]
    by (cases "answered_read rx u") (simp_all add: serves_def)
  then show ?thesis
    by (simp add: tk_on_zcl_def Let_def serves_same split: option.split)
qed

lemma serves_on_zdo: "serves [] t (tk_on_zdo c cl n payload t)"
  by (auto simp: tk_on_zdo_def Let_def split_beta serves_def callers_zdo_remove split: list.split option.split)

lemma serves_on_joined: "serves [] t (tk_on_joined c i n t)"
  by (simp add: tk_on_joined_def Let_def split_beta serves_same split: option.split)

text \<open>Stopping answers every outstanding request and nothing else.\<close>

lemma fold_reply:
  "fold (\<lambda>e. tk_reply (g e) (r e)) es t = t\<lparr>tk_replies := tk_replies t @ map (\<lambda>e. (g e, r e)) es\<rparr>"
  by (induction es arbitrary: t) (simp_all add: tk_reply_def)

lemma stop_pending_exact:
  "tk_stop_pending t = t\<lparr>tk_pending_zdo := [], tk_pending_zcl := [], tk_replies := tk_replies t
     @ map (\<lambda>e. (pzd_reply (snd e), RpZdo (Inl ReStopped))) (tk_pending_zdo t)
     @ map (\<lambda>e. (pzc_reply (snd e), RpRead (Inl ReStopped))) (tk_pending_zcl t)\<rparr>"
  by (simp add: tk_stop_pending_def Let_def fold_reply)

lemma callers_stop_pending [simp]: "tk_callers (tk_stop_pending t) = tk_callers t"
  by (simp add: stop_pending_exact tk_callers_def tk_answered_def tk_waiting_def comp_def)

lemma callers_shutdown [simp]: "tk_callers (snd (tk_shutdown c t)) = tk_callers t"
  by (simp add: tk_shutdown_def Let_def split_beta)

section \<open>Every caller at most once\<close>

lemma serves_request: "serves (request_senders rq) t (tk_handle_request c rq t)"
  by (cases rq) (simp_all add: split_beta serves_one serves_same serves_zdo serves_zcl)

lemma serves_event: "serves [] t (tk_handle_adapter_event c ev t)"
  by (cases ev) (simp_all add: serves_same serves_on_joined serves_on_zcl serves_on_zdo)

lemma serves_tick: "serves [] t (tk_tick c gone t)"
  using serves_nil_trans [OF serves_expire serves_same, of "tk_tick c gone t" c gone t]
  by (simp add: tk_tick_def)

lemma serves_turn: "serves (input_senders x) t (fst (run_turn c x t))"
proof (cases x)
  case (InRequest rq)
  with serves_request [of rq t c] show ?thesis
    by (cases rq) (simp_all add: split_beta serves_one del: tk_handle_request.simps)
qed (simp_all add: serves_same serves_tick serves_event)

lemma serves_run: "serves (concat (map input_senders xs)) t (fst (run_loop c xs t))"
proof (induction xs arbitrary: t)
  case (Cons x xs)
  obtain u go where u: "run_turn c x t = (u, go)" by fastforce
  with serves_turn [of x t c] have "serves (input_senders x) t u" by simp
  from serves_trans [OF this Cons.IH [of u]] this u show ?case
    by (auto simp: serves_def intro: subset_mset.order_trans)
qed (simp add: serves_same)

lemma callers_initial: "tk_callers (tk_initial a s known registry stored) = {#}"
  by (simp add: tk_initial_def tk_callers_def tk_answered_def tk_waiting_def List.map_filter_def)

lemma calls_prologue: "tk_calls (tk_prologue c outcome t) = tk_calls t"
proof -
  have "tk_calls (tk_persist_network c u) = tk_calls u" for u
    by (rule calls.persist_network [OF refl]) (simp add: tk_calls_def)
  then show ?thesis
    by (simp add: tk_prologue_def Let_def calls.loop calls.register_clusters calls.emit calls_coordinator)
qed

lemma callers_prologue [simp]: "tk_callers (tk_prologue c outcome t) = tk_callers t"
  by (rule callers_of_calls) (rule calls_prologue)

section \<open>In time\<close>

text \<open>Removing the keys of the expired entries leaves the others, and answers each removed one.\<close>

lemma hm_remove_filter: "hm_remove k m = filter (\<lambda>e. fst e \<noteq> k) m"
  by (induction m) (auto simp: hm_remove_def)

lemma hm_get_filter: "k' \<noteq> k \<Longrightarrow> hm_get (filter (\<lambda>e. fst e \<noteq> k) m) k' = hm_get m k'"
  by (induction m) auto

lemma fold_expire_zdo:
  assumes "distinct ks" "list_all (\<lambda>k. hm_get (tk_pending_zdo t) k = Some (f k)) ks"
  shows "fold expire_zdo ks t = t
    \<lparr>tk_pending_zdo := filter (\<lambda>e. fst e \<notin> set ks) (tk_pending_zdo t),
     tk_replies := tk_replies t @ map (\<lambda>k. (pzd_reply (f k), RpZdo (Inl (ReZdoTimeout (pzd_ieee (f k)) ZDO_TIMEOUT)))) ks\<rparr>"
  using assms
proof (induction ks arbitrary: t)
  case (Cons k ks)
  have u: "expire_zdo k t = t\<lparr>tk_pending_zdo := filter (\<lambda>e. fst e \<noteq> k) (tk_pending_zdo t),
      tk_replies := tk_replies t @ [(pzd_reply (f k), RpZdo (Inl (ReZdoTimeout (pzd_ieee (f k)) ZDO_TIMEOUT)))]\<rparr>"
    using Cons.prems(2) by (simp add: expire_zdo_def tk_reply_def hm_remove_filter)
  have "list_all (\<lambda>k'. hm_get (tk_pending_zdo (expire_zdo k t)) k' = Some (f k')) ks"
    using Cons.prems by (auto simp: u list_all_iff intro!: trans [OF hm_get_filter])
  from Cons.IH [OF _ this] Cons.prems(1) show ?case by (simp add: u conj_commute)
qed simp

lemma fold_expire_zcl:
  assumes "distinct ks" "list_all (\<lambda>k. hm_get (tk_pending_zcl t) k = Some (f k)) ks"
  shows "fold expire_zcl ks t = t
    \<lparr>tk_pending_zcl := filter (\<lambda>e. fst e \<notin> set ks) (tk_pending_zcl t),
     tk_replies := tk_replies t @ map (\<lambda>k. (pzc_reply (f k), RpRead (Inl (ReZclTimeout (pzc_ieee (f k)) ZDO_TIMEOUT)))) ks\<rparr>"
  using assms
proof (induction ks arbitrary: t)
  case (Cons k ks)
  have u: "expire_zcl k t = t\<lparr>tk_pending_zcl := filter (\<lambda>e. fst e \<noteq> k) (tk_pending_zcl t),
      tk_replies := tk_replies t @ [(pzc_reply (f k), RpRead (Inl (ReZclTimeout (pzc_ieee (f k)) ZDO_TIMEOUT)))]\<rparr>"
    using Cons.prems(2) by (simp add: expire_zcl_def tk_reply_def hm_remove_filter)
  have "list_all (\<lambda>k'. hm_get (tk_pending_zcl (expire_zcl k t)) k' = Some (f k')) ks"
    using Cons.prems by (auto simp: u list_all_iff intro!: trans [OF hm_get_filter])
  from Cons.IH [OF _ this] Cons.prems(1) show ?case by (simp add: u conj_commute)
qed simp

text \<open>The keys that a pass over a table selects.\<close>

lemma selected_keys:
  assumes "hm_wf m"
  shows "distinct (map fst (filter Q m))"
    "list_all (\<lambda>k. hm_get m k = Some (the (hm_get m k))) (map fst (filter Q m))"
    "filter (\<lambda>e. fst e \<notin> set (map fst (filter Q m))) m = filter (\<lambda>e. \<not> Q e) m"
    "map (\<lambda>k. g (the (hm_get m k))) (map fst (filter Q m)) = map (\<lambda>e. g (snd e)) (filter Q m)"
proof -
  have get: "hm_get m (fst e) = Some (snd e)" if "e \<in> set m" for e
    using assms that by (simp add: hm_wf_def)
  show "distinct (map fst (filter Q m))"
    using assms by (simp add: hm_wf_def distinct_map_filter)
  show "list_all (\<lambda>k. hm_get m k = Some (the (hm_get m k))) (map fst (filter Q m))"
    using get by (auto simp: list_all_iff)
  have same: "e = x" if "e \<in> set m" "x \<in> set m" "fst e = fst x" for e x
    using get [OF that(1)] get [OF that(2)] that(3) by (simp add: prod_eq_iff)
  have "fst e \<in> set (map fst (filter Q m)) \<longleftrightarrow> Q e" if "e \<in> set m" for e
  proof
    assume "fst e \<in> set (map fst (filter Q m))"
    then obtain x where "x \<in> set m" "Q x" "fst e = fst x" by auto
    with same [OF that] show "Q e" by blast
  qed (use that in auto)
  then show "filter (\<lambda>e. fst e \<notin> set (map fst (filter Q m))) m = filter (\<lambda>e. \<not> Q e) m"
    by (intro filter_cong refl) blast
  show "map (\<lambda>k. g (the (hm_get m k))) (map fst (filter Q m)) = map (\<lambda>e. g (snd e)) (filter Q m)"
    using get by simp
qed

abbreviation zdo_timeout :: "pending_zdo \<Rightarrow> sender \<times> reply" where
  "zdo_timeout p \<equiv> (pzd_reply p, RpZdo (Inl (ReZdoTimeout (pzd_ieee p) ZDO_TIMEOUT)))"

abbreviation zcl_timeout :: "pending_zcl \<Rightarrow> sender \<times> reply" where
  "zcl_timeout p \<equiv> (pzc_reply p, RpRead (Inl (ReZclTimeout (pzc_ieee p) ZDO_TIMEOUT)))"

lemma expire_zdo_all:
  assumes "hm_wf (tk_pending_zdo t)"
  shows "fold expire_zdo (map fst (filter Q (tk_pending_zdo t))) t = t
    \<lparr>tk_pending_zdo := filter (\<lambda>e. \<not> Q e) (tk_pending_zdo t),
     tk_replies := tk_replies t @ map (\<lambda>e. zdo_timeout (snd e)) (filter Q (tk_pending_zdo t))\<rparr>"
  by (simp only: fold_expire_zdo [OF selected_keys(1,2) [OF assms]] selected_keys(3) [OF assms]
      selected_keys(4) [OF assms, where g = zdo_timeout])

lemma expire_zcl_all:
  assumes "hm_wf (tk_pending_zcl t)"
  shows "fold expire_zcl (map fst (filter Q (tk_pending_zcl t))) t = t
    \<lparr>tk_pending_zcl := filter (\<lambda>e. \<not> Q e) (tk_pending_zcl t),
     tk_replies := tk_replies t @ map (\<lambda>e. zcl_timeout (snd e)) (filter Q (tk_pending_zcl t))\<rparr>"
  by (simp only: fold_expire_zcl [OF selected_keys(1,2) [OF assms]] selected_keys(3) [OF assms]
      selected_keys(4) [OF assms, where g = zcl_timeout])

lemma expire_pending_exact:
  assumes "tk_wf t" and now_def: "now = cf_now c (tk_ticks t)"
  shows "tk_expire_pending c gone t = t
    \<lparr>tk_ticks := Suc (tk_ticks t),
     tk_pending_zdo := filter (\<lambda>e. \<not> expired_zdo gone now (snd e)) (tk_pending_zdo t),
     tk_pending_zcl := filter (\<lambda>e. \<not> expired_zcl gone now (snd e)) (tk_pending_zcl t),
     tk_replies := tk_replies t
       @ map (\<lambda>e. zdo_timeout (snd e)) (filter (\<lambda>e. expired_zdo gone now (snd e)) (tk_pending_zdo t))
       @ map (\<lambda>e. zcl_timeout (snd e)) (filter (\<lambda>e. expired_zcl gone now (snd e)) (tk_pending_zcl t))\<rparr>"
proof -
  let ?u = "t\<lparr>tk_ticks := Suc (tk_ticks t)\<rparr>"
  have zdo: "hm_wf (tk_pending_zdo ?u)" and zcl: "hm_wf (tk_pending_zcl t)"
    using assms(1) by (simp_all add: tk_wf_def)
  note u = expire_zdo_all [OF zdo, of "\<lambda>e. expired_zdo gone now (snd e)", simplified]
  show ?thesis
    using expire_zcl_all [of "fold expire_zdo (map fst (filter (\<lambda>e. expired_zdo gone now (snd e))
        (tk_pending_zdo t))) ?u" "\<lambda>e. expired_zcl gone now (snd e)"] zcl
    by (simp add: tk_expire_pending_def Let_def tk_now_def u flip: now_def)
qed

lemma distinct_submset:
  assumes "mset ys \<subseteq># mset xs" "distinct xs"
  shows "distinct ys"
proof -
  have "count (mset ys) a = (if a \<in> set ys then 1 else 0)" for a
  proof (cases "a \<in> set ys")
    case True
    with set_mset_mono [OF assms(1)] have "a \<in> set xs" by auto
    with assms(2) have "count (mset xs) a = 1" by (simp add: distinct_count_atmost_1)
    moreover have "0 < count (mset ys) a" using True by (simp only: count_greater_zero_iff set_mset_mset)
    moreover note mset_subset_eq_count [OF assms(1), of a]
    ultimately have "count (mset ys) a = 1" by linarith
    with True show ?thesis by simp
  qed simp
  then show ?thesis by (simp add: distinct_count_atmost_1)
qed

section \<open>An example runtime\<close>

text \<open>A coordinator that accepts every frame and says nothing, and a runtime over it.\<close>

definition silent_adapter :: "unit adapter_ops" where
  "silent_adapter = \<lparr>ad_start = (\<lambda>_ _ a. (Inr Resumed, a)), ad_stop = (\<lambda>a. (Inr (), a)),
     ad_coordinator_ieee = (\<lambda>a. (Inr (Ieee 1), a)), ad_network_info = (\<lambda>a. (Inl NotConnected, a)),
     ad_network_key = (\<lambda>a. (Inr None, a)), ad_permit_join = (\<lambda>_ _ a. (Inr (), a)),
     ad_send_zcl = (\<lambda>_ a. (Inr None, a)), ad_send_zdo = (\<lambda>_ a. (Inr None, a))\<rparr>"

definition example_config :: "unit config" where
  "example_config = \<lparr>cf_adapter = silent_adapter, cf_now = (\<lambda>n. secs n), cf_wall = (\<lambda>n. int (secs n)),
     cf_policy = sp_assess sp_default, cf_interview_on_join = False, cf_coordinator = Ieee 1,
     cf_behaviors = bhr_new, cf_definitions = ix_new, cf_lower = id,
     cf_debug = \<lparr>dbg_value = (\<lambda>_. []), dbg_command = (\<lambda>_. [])\<rparr>\<rparr>"

definition example_task :: "unit task" where
  "example_task = tk_initial () ms_new False cr_new []"

text \<open>With a read outstanding.\<close>

definition waiting_task :: "unit task" where
  "waiting_task = example_task\<lparr>tk_ticks := 9, tk_pending_zcl :=
     [((ClusterId 6, 1), \<lparr>pzc_reply = 7, pzc_ieee = Ieee 2, pzc_deadline = secs 5\<rparr>),
      ((ClusterId 6, 2), \<lparr>pzc_reply = 8, pzc_ieee = Ieee 2, pzc_deadline = secs 10\<rparr>)]\<rparr>"

lemma waiting_task_wf: "tk_wf waiting_task"
  using tk_initial_wf [of ms_new "()" False cr_new "[]"]
  by (simp add: waiting_task_def example_task_def tk_wf_def hm_wf_def ms_filed_def ms_new_def bt_wf_def)

section \<open>Properties\<close>

text \<open>
  C2: Whatever requests, events and ticks the runtime is given, in whatever order, and whatever the
  adapter and the store answer, no caller is ever answered twice, and nobody is answered who did not
  ask.
\<close>

theorem callers_answered_once:
  assumes "distinct (concat (map input_senders xs))"
  shows "let t = fst (run_loop c xs (tk_prologue c outcome (tk_initial a s known registry stored)))
    in distinct (map fst (tk_replies t)) \<and> set (map fst (tk_replies t)) \<subseteq> set (concat (map input_senders xs))"
proof -
  define t where "t = fst (run_loop c xs (tk_prologue c outcome (tk_initial a s known registry stored)))"
  have "tk_callers t \<subseteq># mset (concat (map input_senders xs))"
    using serves_run [of xs "tk_prologue c outcome (tk_initial a s known registry stored)" c]
    by (simp add: serves_def t_def callers_initial)
  then have answered: "mset (map fst (tk_replies t)) \<subseteq># mset (concat (map input_senders xs))"
    unfolding tk_callers_def tk_answered_def by (meson mset_subset_eq_add_left subset_mset.order_trans)
  from distinct_submset [OF this assms] set_mset_mono [OF this] show ?thesis by (simp add: t_def)
qed

theorem callers_answered_once_witness:
  "let t = fst (run_loop example_config [InRequest (RqDevices 1), InRequest (RqStop 2)]
       (tk_prologue example_config Resumed (tk_initial () ms_new False cr_new [])))
   in distinct (map fst (tk_replies t)) \<and> set (map fst (tk_replies t)) \<subseteq> {1, 2}"
  using callers_answered_once [of "[InRequest (RqDevices 1), InRequest (RqStop 2)]" example_config Resumed
      "()" ms_new False cr_new "[]"]
  by simp



text \<open>
  C23: Stopping answers every outstanding request with \<open>Stopped\<close> and leaves none outstanding,
  whatever the store and the adapter answer; the adapter's error is the one reported.
\<close>

theorem shutdown_answers_everyone:
  "let t' = snd (tk_shutdown c t) in
     tk_pending_zdo t' = [] \<and> tk_pending_zcl t' = []
     \<and> tk_replies t' = tk_replies t
        @ map (\<lambda>e. (pzd_reply (snd e), RpZdo (Inl ReStopped))) (tk_pending_zdo t)
        @ map (\<lambda>e. (pzc_reply (snd e), RpRead (Inl ReStopped))) (tk_pending_zcl t)
     \<and> fst (tk_shutdown c t) =
        (case fst (ad_stop (cf_adapter c) (tk_adapter (tk_refresh_frame_counter c
           (tk_stop_pending (tk_emit EvStopping t))))) of Inl e \<Rightarrow> Inl (ReAdapter e) | Inr _ \<Rightarrow> Inr ())"
proof -
  have "tk_calls (snd (tk_shutdown c t)) = tk_calls (tk_stop_pending (tk_emit EvStopping t))"
    by (simp add: tk_shutdown_def Let_def split_beta calls.on_adapter calls.refresh)
  then show ?thesis
    by (simp add: stop_pending_exact tk_calls_def tk_emit_def)
      (simp add: tk_shutdown_def Let_def split_beta stop_pending_exact tk_emit_def ms_flush_def split: sum.split)
qed

text \<open>What ends the loop: a request to stop, or one of the channels closing.\<close>

fun ends_loop :: "run_input \<Rightarrow> bool" where
  "ends_loop (InRequest (RqStop _)) \<longleftrightarrow> True"
| "ends_loop InHandlesDropped \<longleftrightarrow> True"
| "ends_loop InAdapterClosed \<longleftrightarrow> True"
| "ends_loop _ \<longleftrightarrow> False"

lemma turn_goes_on: "snd (run_turn c x t) \<longleftrightarrow> \<not> ends_loop x"
  by (induction c x t rule: run_turn.induct) (simp_all add: split_beta)

lemma loop_splits:
  "run_loop c xs t = (u, True, []) \<Longrightarrow> run_loop c (xs @ ys) t = run_loop c ys u"
  by (induction xs arbitrary: t) (auto simp: split_beta split: if_splits)

text \<open>What a turn leaves that ends the loop, whichever way it does.\<close>

definition shut_down :: "'a config \<Rightarrow> 'a task \<Rightarrow> bool" where
  "shut_down c t \<longleftrightarrow> tk_pending_zdo t = [] \<and> tk_pending_zcl t = [] \<and> (\<exists>es. tk_events t = es @ [EvStopping])
     \<and> (\<exists>a. tk_adapter t = snd (ad_stop (cf_adapter c) a))"

lemma events_refresh: "tk_events (tk_refresh_frame_counter c t) = tk_events t"
  by (auto simp: tk_refresh_frame_counter_def tk_network_info_def Let_def split: prod.split sum.split option.split)

lemma shutdown_shuts: "shut_down c (snd (tk_shutdown c t))"
proof -
  have "tk_calls (snd (tk_shutdown c t)) = tk_calls (tk_stop_pending (tk_emit EvStopping t))"
    by (simp add: tk_shutdown_def Let_def split_beta calls.on_adapter calls.refresh)
  moreover have "tk_events (snd (tk_shutdown c t)) = tk_events t @ [EvStopping]"
    by (simp add: tk_shutdown_def Let_def split_beta events_refresh stop_pending_exact) (simp add: tk_emit_def)
  ultimately show ?thesis
    by (auto simp: shut_down_def tk_calls_def stop_pending_exact)
      (auto simp: tk_shutdown_def Let_def split_beta)
qed

lemma turn_shuts: "ends_loop x \<Longrightarrow> shut_down c (fst (run_turn c x t))"
  using shutdown_shuts [of c t]
  by (cases x rule: ends_loop.cases) (simp_all add: split_beta, simp add: shut_down_def tk_reply_def)

text \<open>
  C24: The loop ends at the first request to stop or closed channel and at nothing else, leaving what
  comes after unread; and whichever way it ends, it has shut down: no request is outstanding, the
  last event says that the runtime stops, and the coordinator was stopped.
\<close>

theorem ended_loop_has_shut_down:
  "case run_loop c xs t of
     (t', True, rest) \<Rightarrow> rest = [] \<and> list_all (\<lambda>x. \<not> ends_loop x) xs
   | (t', False, rest) \<Rightarrow>
       (\<exists>before x. xs = before @ x # rest \<and> ends_loop x \<and> list_all (\<lambda>x. \<not> ends_loop x) before)
       \<and> tk_pending_zdo t' = [] \<and> tk_pending_zcl t' = [] \<and> (\<exists>es. tk_events t' = es @ [EvStopping])
       \<and> (\<exists>a. tk_adapter t' = snd (ad_stop (cf_adapter c) a))"
proof (induction xs arbitrary: t)
  case (Cons x xs)
  obtain u go where u: "run_turn c x t = (u, go)" by fastforce
  have go: "go \<longleftrightarrow> \<not> ends_loop x" using turn_goes_on [of c x t] u by simp
  show ?case
  proof (cases "ends_loop x")
    case True
    with turn_shuts [OF True, of c t] u go show ?thesis
      by (auto simp: shut_down_def intro!: exI [of _ "[]"])
  next
    case False
    obtain t' going rest where r: "run_loop c xs u = (t', going, rest)" by (metis prod_cases3)
    have front: "\<exists>before y. x # xs = before @ y # rest \<and> ends_loop y \<and> list_all (\<lambda>x. \<not> ends_loop x) before"
      if "xs = before @ y # rest" "ends_loop y" "list_all (\<lambda>x. \<not> ends_loop x) before" for before y
      using that False by (intro exI [of _ "x # before"] exI [of _ y]) simp
    from Cons.IH [of u] u go False r show ?thesis
      by (cases going) (auto dest: front)
  qed
qed simp

section \<open>From a read to its answer\<close>

text \<open>The frame a device answers a read with: the attributes it has, or a status that refuses the read.\<close>

definition answer_frame :: "u8 \<Rightarrow> u8 + reading list \<Rightarrow> zcl_frame" where
  "answer_frame tsn answer =
     (case answer of
        Inl status \<Rightarrow> \<lparr>zf_header = zh_with_direction ServerToClient (zh_new_global tsn (CommandId 0x0b)),
          zf_payload = [0, status]\<rparr>
      | Inr xs \<Rightarrow> \<lparr>zf_header = zh_with_direction ServerToClient (zh_new_global tsn (CommandId 0x01)),
          zf_payload = concat (map (reading_bytes True) xs)\<rparr>)"

definition answer_ok :: "u8 + reading list \<Rightarrow> bool" where
  "answer_ok answer \<longleftrightarrow> (case answer of Inl status \<Rightarrow> status \<noteq> 0 | Inr xs \<Rightarrow> list_all (reading_ok True) xs)"

lemma answer_header [simp]:
  "zh_direction (zf_header (answer_frame tsn answer)) = ServerToClient"
  "zh_frame_type (zf_header (answer_frame tsn answer)) = Global"
  "zh_tsn (zf_header (answer_frame tsn answer)) = tsn"
  "zh_wf (zf_header (answer_frame tsn answer))"
  by (simp_all add: answer_frame_def zh_with_direction_def zh_new_global_def zh_wf_def split: sum.split)

lemma answer_frame_decodes:
  "length (zf_encode (answer_frame tsn answer)) \<le> usize_max \<Longrightarrow>
     zf_decode (zf_encode (answer_frame tsn answer)) = Inr (answer_frame tsn answer)"
  by (rule zf_decode_encode) simp

lemma answer_frame_read:
  "answer_ok answer \<Longrightarrow> read_answer_of (answer_frame tsn answer)
     = Some (case answer of Inl status \<Rightarrow> RaRefused status | Inr xs \<Rightarrow> RaAttributes)"
  by (cases answer)
    (simp_all add: read_answer_of_def, simp_all add: answer_frame_def answer_ok_def zh_with_direction_def
      zh_new_global_def RA_READ_RESPONSE_def RA_DEFAULT_RESPONSE_def)

lemma payload_le_frame: "length (zf_payload f) \<le> length (zf_encode f)"
  by (simp add: zf_encode_def wire_simps)

lemma answer_frame_values:
  assumes "list_all (reading_ok True) xs" "length (zf_encode (answer_frame tsn (Inr xs))) \<le> usize_max"
    and "zrx_frame rx = zf_encode (answer_frame tsn (Inr xs))"
  shows "attributes_of registry i rx = List.map_filter reading_value xs"
proof -
  have pay: "zf_payload (answer_frame tsn (Inr xs)) = concat (map (reading_bytes True) xs)"
    "zh_command (zf_header (answer_frame tsn (Inr xs))) = CommandId 0x01"
    by (simp_all add: answer_frame_def zh_with_direction_def zh_new_global_def)
  have "rd_fits [] (concat (map (reading_bytes True) xs))"
    using payload_le_frame [of "answer_frame tsn (Inr xs)"] assms(2) by (simp add: rd_fits_def pay)
  with dec_attributes_readings [OF assms(1)] show ?thesis
    by (simp add: attributes_of_def dec_zcl_message_def answer_frame_decodes [OF assms(2)] assms(3) pay Let_def
        dec_global_def reader_new_at READ_ATTRIBUTES_RESPONSE_def)
qed

text \<open>What a turn does with a read that the adapter takes and does not answer at once.\<close>

definition read_tx :: "ieee \<Rightarrow> nwk \<Rightarrow> endpoint_id \<Rightarrow> cluster_id \<Rightarrow> attr_id list \<Rightarrow> u8 \<Rightarrow> zcl_tx" where
  "read_tx i n ep cl attributes tsn =
     \<lparr>ztx_dest = Unicast i n, ztx_endpoint = ep, ztx_source_endpoint = EndpointId 1, ztx_profile = profile_HA,
      ztx_cluster = cl, ztx_frame = enc_read_attributes tsn attributes,
      ztx_options = txo_default\<lparr>txo_expect_response := True\<rparr>\<rparr>"

lemma read_turn:
  assumes "iv_get i (tk_devices t) = Some e"
    and "fst (ad_send_zcl (cf_adapter c) (read_tx i (en_nwk e) ep cl attributes (tk_zcl_sequence t + 1))
        (tk_adapter t)) = Inr None"
    and t1: "t1 = fst (run_turn c (InRequest (RqZclRead i ep cl attributes s)) t)"
  shows "tk_sent_zcl t1 = tk_sent_zcl t @ [read_tx i (en_nwk e) ep cl attributes (tk_zcl_sequence t + 1)]"
    "tk_replies t1 = tk_replies t"
    "tk_pending_zcl t1 = hm_insert (cl, tk_zcl_sequence t + 1)
       \<lparr>pzc_reply = s, pzc_ieee = i, pzc_deadline = cf_now c (tk_ticks t) + ZDO_TIMEOUT\<rparr> (tk_pending_zcl t)"
  using assms
  by (simp_all add: tk_zcl_read_def Let_def split_beta tk_send_zcl_def tk_now_def read_tx_def)

lemma answer_turn:
  assumes "hm_get (tk_pending_zcl u) (zrx_cluster rx, tsn) = Some p"
    and "or_else (zrx_ieee rx) (iv_resolve (zrx_nwk rx) (tk_devices u)) = Some i"
    and "answer_ok answer" "zrx_frame rx = zf_encode (answer_frame tsn answer)"
    and "length (zf_encode (answer_frame tsn answer)) \<le> usize_max"
    and t2: "t2 = fst (run_turn c (InAdapterEvent (AeZcl rx)) u)"
  shows "tk_replies t2 = tk_replies u @ [(pzc_reply p, RpRead (case answer of
       Inl status \<Rightarrow> Inl (ReReadRefused i status) | Inr xs \<Rightarrow> Inr (List.map_filter reading_value xs)))]"
    "tk_pending_zcl t2 = hm_remove (zrx_cluster rx, tsn) (tk_pending_zcl u)"
proof -
  let ?key = "(zrx_cluster rx, tsn)" and ?a = "case answer of Inl status \<Rightarrow> RaRefused status | Inr xs \<Rightarrow> RaAttributes"
  let ?u = "tk_modify i (\<lambda>e. e\<lparr>en_info := (en_info e)\<lparr>di_link_quality :=
    or_else (zrx_link_quality rx) (di_link_quality (en_info e))\<rparr>\<rparr>) (tk_readdress i (zrx_nwk rx) u)"
  have same: "tk_calls ?u = tk_calls u"
    by (rule calls.modify [OF calls.readdress [OF refl]]) (simp add: keeps_entry_def)
  then have "answered_read rx ?u = Some (?key, p, ?a)"
    using assms(1) by (simp add: answered_read_def assms(4) answer_frame_decodes [OF assms(5)]
        answer_frame_read [OF assms(3)] tk_calls_def)
  then have "t2 = tk_resolve_read c i rx (?key, p, ?a) ?u"
    using assms(2) by (simp add: t2 tk_on_zcl_def)
  moreover have "attributes_of (tk_registry v) i rx = List.map_filter reading_value xs" if "answer = Inr xs" for v :: "'a task" and xs
    using answer_frame_values assms(3-5) that by (simp add: answer_ok_def)
  ultimately have "tk_calls t2 = tk_calls (tk_reply (pzc_reply p) (RpRead (case answer of
       Inl status \<Rightarrow> Inl (ReReadRefused i status) | Inr xs \<Rightarrow> Inr (List.map_filter reading_value xs)))
      (?u\<lparr>tk_pending_zcl := hm_remove ?key (tk_pending_zcl ?u)\<rparr>))"
    by (simp add: tk_resolve_read_def Let_def split_beta calls.touch [OF calls.wall [OF refl]] split: sum.split)
  then show "tk_replies t2 = tk_replies u @ [(pzc_reply p, RpRead (case answer of
       Inl status \<Rightarrow> Inl (ReReadRefused i status) | Inr xs \<Rightarrow> Inr (List.map_filter reading_value xs)))]"
    "tk_pending_zcl t2 = hm_remove ?key (tk_pending_zcl u)"
    using same by (simp_all add: tk_calls_def tk_reply_def)
qed

text \<open>
  C30: A read gets the answer of its device. The request sends one frame, to the device, under the
  next sequence number, and answers nobody yet; whatever the loop does then, as long as the read is
  still outstanding, a response of the device on that cluster and under that number answers the
  caller that asked, and only that one: with the values in the response, records without one left out,
  or with the status that refuses the read. Then the read is outstanding no more, and every other is.
\<close>

theorem read_answered_by_response:
  assumes "iv_get i (tk_devices t) = Some e"
    and "fst (ad_send_zcl (cf_adapter c) (read_tx i (en_nwk e) ep cl attributes (tk_zcl_sequence t + 1))
        (tk_adapter t)) = Inr None"
    and "t1 = fst (run_turn c (InRequest (RqZclRead i ep cl attributes s)) t)"
    and "run_loop c ys t1 = (u, True, [])"
    and "hm_get (tk_pending_zcl u) (cl, tk_zcl_sequence t + 1) = hm_get (tk_pending_zcl t1) (cl, tk_zcl_sequence t + 1)"
    and "or_else (zrx_ieee rx) (iv_resolve (zrx_nwk rx) (tk_devices u)) = Some i"
    and "zrx_cluster rx = cl" "zrx_frame rx = zf_encode (answer_frame (tk_zcl_sequence t + 1) answer)"
    and "answer_ok answer" "length (zf_encode (answer_frame (tk_zcl_sequence t + 1) answer)) \<le> usize_max"
  shows "tk_sent_zcl t1 = tk_sent_zcl t @ [read_tx i (en_nwk e) ep cl attributes (tk_zcl_sequence t + 1)]
     \<and> tk_replies t1 = tk_replies t
     \<and> (case run_loop c (InRequest (RqZclRead i ep cl attributes s) # ys @ [InAdapterEvent (AeZcl rx)]) t of
          (t2, going, unread) \<Rightarrow> going \<and> unread = []
            \<and> tk_replies t2 = tk_replies u @ [(s, RpRead (case answer of
                Inl status \<Rightarrow> Inl (ReReadRefused i status)
              | Inr xs \<Rightarrow> Inr (List.map_filter reading_value xs)))]
            \<and> tk_pending_zcl t2 = hm_remove (cl, tk_zcl_sequence t + 1) (tk_pending_zcl u))"
proof -
  note first = read_turn [OF assms(1,2,3)]
  have here: "hm_get (tk_pending_zcl u) (zrx_cluster rx, tk_zcl_sequence t + 1)
      = Some \<lparr>pzc_reply = s, pzc_ieee = i, pzc_deadline = cf_now c (tk_ticks t) + ZDO_TIMEOUT\<rparr>"
    using assms(5,7) by (simp add: first(3) map_simps)
  have t1: "t1 = tk_zcl_read c i ep cl attributes s t" using assms(3) by simp
  note last = answer_turn [OF here assms(6,9,8,10) refl, of c]
  have "run_loop c (InRequest (RqZclRead i ep cl attributes s) # ys @ [InAdapterEvent (AeZcl rx)]) t
      = (fst (run_turn c (InAdapterEvent (AeZcl rx)) u), True, [])"
    using assms(3) by (simp add: loop_splits [OF assms(4)] del: tk_handle_adapter_event.simps flip: t1)
  then show ?thesis
    using first last assms(7) by (simp del: run_turn.simps)
qed

text \<open>A device at address 5 is read; a list is asked for before it answers with the level 3.\<close>

definition reading_task :: "unit task" where
  "reading_task = example_task\<lparr>tk_devices := iv_insert (new_entry (Ieee 2) (Nwk 5) 0) iv_new\<rparr>"

definition reading_rx :: zcl_rx where
  "reading_rx = \<lparr>zrx_ieee = None, zrx_nwk = Nwk 5, zrx_endpoint = EndpointId 1,
     zrx_destination_endpoint = EndpointId 1, zrx_cluster = ClusterId 8, zrx_group = None,
     zrx_was_broadcast = False, zrx_link_quality = None,
     zrx_frame = zf_encode (answer_frame 1 (Inr [Reading 0 0x20 (VUint 3)]))\<rparr>"

theorem read_answered_by_response_witness:
  "let t2 = fst (run_loop example_config [InRequest (RqZclRead (Ieee 2) (EndpointId 1) (ClusterId 8) [AttrId 0] 7),
       InRequest (RqDevices 9), InAdapterEvent (AeZcl reading_rx)] reading_task)
   in map fst (tk_replies t2) = [9, 7] \<and> last (tk_replies t2) = (7, RpRead (Inr [(0, VUint 3)]))
     \<and> tk_pending_zcl t2 = []"
proof -
  let ?e = "new_entry (Ieee 2) (Nwk 5) 0" and ?r = "InRequest (RqZclRead (Ieee 2) (EndpointId 1) (ClusterId 8) [AttrId 0] 7)"
  let ?t1 = "fst (run_turn example_config ?r reading_task)" and ?answer = "Inr [Reading 0 0x20 (VUint 3)]"
  let ?u = "tk_handle_request example_config (RqDevices 9) ?t1"
  have e: "iv_get (Ieee 2) (tk_devices reading_task) = Some ?e"
    by (simp add: reading_task_def iv_get_insert new_entry_def di_new_def)
  have none: "fst (ad_send_zcl (cf_adapter example_config) tx a) = Inr None" for tx a
    by (simp add: example_config_def silent_adapter_def)
  have seq: "tk_zcl_sequence reading_task + 1 = 1"
    by (simp add: reading_task_def example_task_def tk_initial_def)
  note first = read_turn [OF e none refl, of "EndpointId 1" "ClusterId 8" "[AttrId 0]" 7]
  have devices: "tk_devices ?t1 = tk_devices reading_task"
    using e none by (simp add: tk_zcl_read_def Let_def split_beta tk_send_zcl_def tk_now_def)
  have loop: "run_loop example_config [InRequest (RqDevices 9)] ?t1 = (?u, True, [])" by simp
  have kept: "hm_get (tk_pending_zcl ?u) k = hm_get (tk_pending_zcl ?t1) k" for k by (simp add: tk_reply_def)
  have dev: "or_else (zrx_ieee reading_rx) (iv_resolve (zrx_nwk reading_rx) (tk_devices ?u)) = Some (Ieee 2)"
    by (simp add: tk_reply_def devices del: run_turn.simps)
      (simp add: reading_task_def reading_rx_def or_else_def iv_resolve_insert new_entry_def di_new_def)
  have ty: "zt_from_u8 0x20 = TUint 1" by (simp add: zt_from_u8_def)
  have ok: "answer_ok ?answer" by (simp add: answer_ok_def ty value_ok_def is_invalid_uint_def)
  have len: "length (zf_encode (answer_frame (tk_zcl_sequence reading_task + 1) ?answer)) \<le> usize_max"
    by (simp add: seq answer_frame_def ty value_bytes_def write_uint_bytes_def zf_encode_def wire_simps le_bytes_2
      write_uint_def w_bytes_def writer_new_def
      zh_with_direction_def zh_new_global_def zh_wire_def)
  have rx: "zrx_cluster reading_rx = ClusterId 8"
    "zrx_frame reading_rx = zf_encode (answer_frame (tk_zcl_sequence reading_task + 1) ?answer)"
    by (simp_all add: reading_rx_def seq)
  from read_answered_by_response [OF e none refl loop kept dev rx ok len] first(2,3)
  show ?thesis
    by (simp add: split_beta seq tk_reply_def map_filter_simps hm_insert_def hm_remove_def del: run_turn.simps run_loop.simps)
      (simp add: reading_task_def example_task_def tk_initial_def)
qed

text \<open>So an answer from one device is taken for another's.\<close>

lemma read_answered_by_any_device:
  "answered_read (rx\<lparr>zrx_ieee := i, zrx_nwk := n\<rparr>) t = answered_read rx t"
  by (cases "zf_decode (zrx_frame rx)") (simp_all add: answered_read_def)

text \<open>
  A read under a sequence number that is still outstanding on its cluster takes the place of the
  earlier one, whose caller is then neither waiting nor answered.
\<close>

lemma mset_hm_displace:
  "hm_get m k = Some old \<Longrightarrow>
     add_mset (f (k, old)) (mset (map f (hm_insert k v m))) = add_mset (f (k, v)) (mset (map f m))"
  by (induction m) (auto simp: hm_insert_def)

lemma read_displaces_caller:
  assumes "iv_get i (tk_devices t) = Some e" "hm_get (tk_pending_zcl t) (cl, tk_zcl_sequence t + 1) = Some old"
    and "\<And>tx a. fst (ad_send_zcl (cf_adapter c) tx a) = Inr None"
  shows "add_mset (pzc_reply old) (tk_callers (tk_zcl_read c i ep cl attributes s t)) = add_mset s (tk_callers t)"
  using assms(1,3) mset_hm_displace [OF assms(2), of "\<lambda>e. pzc_reply (snd e)"]
  by (simp add: tk_zcl_read_def Let_def split_beta tk_send_zcl_def tk_now_def tk_callers_def tk_answered_def
      tk_waiting_def flip: add_mset_add_single)

end
