(* ===== verification/Task_Observers.thy ===== *)
theory Task_Observers
  imports Task_Calls
begin

text \<open>
  What those outside the runtime task can rely on: a subscriber who follows the events knows exactly
  which devices the runtime knows and what it holds of their reachability; the tables stay well
  formed; a refused command sends nothing; what the store holds of the network.
\<close>

section \<open>Following the events\<close>

text \<open>
  A subscriber's picture of a device: nothing while it is not known, else the verdict on it. This is
  the abstract state the device table refines.
\<close>

fun observe :: "ieee \<Rightarrow> reachability option \<Rightarrow> event \<Rightarrow> reachability option" where
  "observe i p (EvDeviceJoined j _) = (if j = i then Some RUnknown else p)"
| "observe i p (EvDeviceLeft j _) = (if j = i then None else p)"
| "observe i p (EvReachabilityChanged j _ v _) = (if j = i then Some v else p)"
| "observe i p _ = p"

definition observed :: "ieee \<Rightarrow> reachability option \<Rightarrow> event list \<Rightarrow> reachability option" where
  "observed i p es = foldl (observe i) p es"

text \<open>Every change of a verdict is told with the verdict the subscriber has.\<close>

fun told_by :: "ieee \<Rightarrow> reachability option \<Rightarrow> event \<Rightarrow> bool" where
  "told_by i p (EvReachabilityChanged j old new _) \<longleftrightarrow> (if j = i then p = Some old \<and> old \<noteq> new else True)"
| "told_by i p _ \<longleftrightarrow> True"

fun told_truly :: "ieee \<Rightarrow> reachability option \<Rightarrow> event list \<Rightarrow> bool" where
  "told_truly i p [] \<longleftrightarrow> True"
| "told_truly i p (e # es) \<longleftrightarrow>
     told_by i p e \<and> told_truly i (observe i p e) es"

definition verdict_of :: "ieee \<Rightarrow> inventory \<Rightarrow> reachability option" where
  "verdict_of i v = map_option (\<lambda>e. ri_state (en_reachability e)) (iv_get i v)"

definition follows :: "(ieee \<Rightarrow> reachability option) \<Rightarrow> 'a task \<Rightarrow> bool" where
  "follows start t \<longleftrightarrow> (\<forall>i. verdict_of i (tk_devices t) = observed i (start i) (tk_events t)
     \<and> told_truly i (start i) (tk_events t))"

lemma observed_snoc [simp]: "observed i p (es @ [e]) = observe i (observed i p es) e"
  by (simp add: observed_def)

lemma observed_Nil [simp]: "observed i p [] = p"
  by (simp add: observed_def)

lemma told_truly_snoc [simp]:
  "told_truly i p (es @ [e]) \<longleftrightarrow> told_truly i p es \<and> told_by i (observed i p es) e"
  by (induction es arbitrary: p) (simp_all add: observed_def)

lemma observe_neutral: "neutral e \<Longrightarrow> observe i p e = p"
  by (cases e) simp_all

lemma told_neutral: "neutral e \<Longrightarrow> told_by i p e"
  by (cases e) simp_all

lemma verdict_modify:
  "keeps_entry f \<Longrightarrow> verdict_of i (iv_modify j f v) = verdict_of i v"
  by (cases "iv_get j v") (simp_all add: verdict_of_def iv_modify_get keeps_entry_def)

lemma verdict_set_nwk: "verdict_of i (snd (iv_set_nwk j n v)) = verdict_of i v"
  by (cases rule: iv_set_nwk_cases [of j v n])
    (auto simp: verdict_of_def iv_get_def map_simps)

lemma verdict_remove: "verdict_of i (snd (iv_remove j v)) = (if i = j then None else verdict_of i v)"
  by (cases "iv_get j v") (simp_all add: verdict_of_def iv_remove_none iv_remove_some)

lemma verdict_insert:
  "verdict_of i (iv_insert e v) =
     (if i = di_ieee (en_info e) then Some (ri_state (en_reachability e)) else verdict_of i v)"
  by (simp add: verdict_of_def iv_get_insert)

lemma new_entry_simps [simp]:
  "di_ieee (en_info (new_entry i n w)) = i" "ri_state (en_reachability (new_entry i n w)) = RUnknown"
  by (simp_all add: new_entry_def di_new_def ri_default_def)

lemma follows_assess:
  assumes "follows start t"
  shows "follows start (tk_assess c i ev t)"
proof (cases "iv_get i (tk_devices t)")
  case (Some e)
  have v: "verdict_of j (iv_modify i (\<lambda>e. e\<lparr>en_reachability := (en_reachability e)\<lparr>ri_state := s\<rparr>, en_next_check := x\<rparr>)
      (tk_devices t)) = (if j = i then Some s else verdict_of j (tk_devices t))" for j s x
    using Some by (simp add: verdict_of_def iv_modify_get)
  from assms have "verdict_of i (tk_devices t) = observed i (start i) (tk_events t)"
    by (simp add: follows_def)
  with Some have "observed i (start i) (tk_events t) = Some (ri_state (en_reachability e))"
    by (simp add: verdict_of_def)
  with assms Some show ?thesis
    by (auto simp: tk_assess_def Let_def split_beta tk_now_def tk_wall_def tk_modify_def tk_emit_def
        follows_def v)
qed (simp add: tk_assess_def assms)

interpretation follows: call_invariant "follows start" "\<lambda>_. True" for start
  by unfold_locales
    (simp_all add: follows_assess,
     simp_all add: follows_def tk_emit_def observe_neutral told_neutral verdict_modify verdict_set_nwk
       verdict_remove verdict_insert)

text \<open>At the start the stored devices and the coordinator are known, and nothing is known about them.\<close>

definition known_at_start :: "'a config \<Rightarrow> persisted_device list \<Rightarrow> ieee \<Rightarrow> reachability option" where
  "known_at_start c stored i =
     (if i = cf_coordinator c \<or> i \<in> set (map pdv_ieee stored) then Some RUnknown else None)"

lemma restored_simps [simp]:
  "di_ieee (en_info (entry_from_persisted p)) = pdv_ieee p"
  "ri_state (en_reachability (entry_from_persisted p)) = RUnknown"
  by (simp_all add: entry_from_persisted_def Let_def di_new_def ri_default_def)

lemma verdict_restored:
  "verdict_of i (fold (\<lambda>p. iv_insert (entry_from_persisted p)) ds v) =
     (if i \<in> set (map pdv_ieee ds) then Some RUnknown else verdict_of i v)"
  by (induction ds arbitrary: v) (simp_all add: verdict_insert)

lemma verdict_coordinator:
  "verdict_of i (tk_devices (tk_register_coordinator c t)) =
     (if i = cf_coordinator c \<and> iv_get i (tk_devices t) = None then Some RUnknown
      else verdict_of i (tk_devices t))"
  by (auto simp: tk_register_coordinator_def Let_def tk_wall_def verdict_insert)

lemma follows_start:
  "follows (known_at_start c stored) (tk_register_coordinator c (tk_initial a s known registry stored))"
proof -
  let ?t = "tk_initial a s known registry stored"
  have new: "verdict_of i (tk_devices ?t) = (if i \<in> set (map pdv_ieee stored) then Some RUnknown else None)" for i
    by (simp add: tk_initial_def verdict_restored) (simp add: verdict_of_def iv_new_def iv_get_def)
  then have none: "iv_get i (tk_devices ?t) = None \<longleftrightarrow> i \<notin> set (map pdv_ieee stored)" for i
    by (metis map_option_is_None option.distinct(1) verdict_of_def)
  have "tk_events (tk_register_coordinator c ?t) = []"
    by (simp add: tk_register_coordinator_def Let_def tk_wall_def tk_initial_def)
  then show ?thesis
    by (simp add: follows_def verdict_coordinator new none known_at_start_def)
qed

text \<open>
  C1: A subscriber who reads the event stream from the start knows, after any requests, frames and
  ticks whatever, exactly which devices the runtime knows and the verdict it holds on each, and
  every change of a verdict it is told starts from the verdict it already has.
\<close>

theorem observers_know_the_table:
  "let t = fst (run_loop c xs (tk_prologue c outcome (tk_initial a s known registry stored)));
       start = known_at_start c stored i
   in map_option (\<lambda>e. ri_state (en_reachability e)) (iv_get i (tk_devices t)) = observed i start (tk_events t)
     \<and> told_truly i start (tk_events t)"
proof -
  have "follows (known_at_start c stored) (tk_prologue c outcome (tk_initial a s known registry stored))"
    by (rule follows.prologue [OF follows_start]) (simp add: follows_def)
  from follows.run [OF this concerns_only_all, of c xs] show ?thesis by (simp add: follows_def verdict_of_def)
qed

text \<open>
  C12: Over any run, the device table files every device under its own address and its index only
  names devices that have the short address (not every device need be in the index: one whose
  address was taken over, \<open>inventory_stolen_address\<close>, is not), no two outstanding requests share a
  key, and the store files every device under its own address.
\<close>

theorem run_keeps_tables:
  assumes "ms_filed s"
  shows "tk_wf (fst (run_loop c xs (tk_prologue c outcome (tk_initial a s known registry stored))))"
  by (rule wf.run [OF wf.prologue [OF tk_wf_coordinator [OF tk_initial_wf [OF assms]] tk_wf_save] concerns_only_all])

theorem run_keeps_tables_witness:
  "tk_wf (fst (run_loop example_config [InAdapterEvent (AeDeviceJoined (Some (Ieee 2)) (Nwk 5)),
     InRequest (RqZclRead (Ieee 2) (EndpointId 1) (ClusterId 6) [] 1), InTick (\<lambda>_. False)]
     (tk_prologue example_config Resumed (tk_initial () ms_new False cr_new []))))"
  by (rule run_keeps_tables) (simp add: ms_filed_def ms_new_def bt_wf_def)

section \<open>Commands and the radio\<close>

text \<open>The errors of a command that was sent.\<close>

fun was_sent :: "command_error \<Rightarrow> bool" where
  "was_sent (CeDelivery _) \<longleftrightarrow> True"
| "was_sent (CeTimeout _) \<longleftrightarrow> True"
| "was_sent _ \<longleftrightarrow> False"

text \<open>Planning fails with none of them.\<close>

definition refuses :: "command_error + 'b \<Rightarrow> bool" where
  "refuses r \<longleftrightarrow> (case r of Inl e \<Rightarrow> \<not> was_sent e | Inr _ \<Rightarrow> True)"

lemma refuses_simps [simp]:
  "refuses (Inr x)" "refuses (Inl e) = (\<not> was_sent e)" "refuses (map_sum id f r) = refuses r"
  "refuses (map_sum (\<lambda>x. CeInvalidValue cap (g x)) f q)"
  by (auto simp: refuses_def split: sum.split) (cases q; auto)+

lemma refuses_bind: "refuses r \<Longrightarrow> (\<And>x. refuses (f x)) \<Longrightarrow> refuses (result_bind r f)"
  by (cases r) (auto simp: result_bind_def)

lemma refuses_ok_or: "\<not> was_sent e \<Longrightarrow> refuses (ok_or e x)"
  by (cases x) (auto simp: ok_or_def)

lemma refuses_if: "refuses x \<Longrightarrow> refuses y \<Longrightarrow> refuses (if b then x else y)"
  by simp

lemmas refuses_intros = refuses_bind refuses_ok_or refuses_if

lemma plan_specific_refuses: "refuses (plan_specific dbg d info c)"
  by (cases c)
    (auto simp: plan_specific_def plan_on_off_def plan_cover_def plan_lock_def unimplemented_command_def Let_def
      intro!: refuses_intros)

lemma plan_command_refuses: "refuses (plan_command dbg d info c)"
proof -
  have "refuses (lower_set dbg cap v)" for cap v
    unfolding lower_set_def Let_def by (intro refuses_intros) simp_all
  then have "refuses (plan_set dbg d info changes)" for changes
    by (auto simp: plan_set_def plan_specific_refuses intro!: refuses_bind split: list.split)
  then show ?thesis
    by (cases c) (simp_all add: plan_command_def plan_specific_refuses)
qed

lemma plan_frame_refuses: "refuses (fst (tk_plan_frame c i command tsn t))"
proof -
  have "refuses (fst (tk_plan_capability_command c i command tsn t))" for command
    by (simp add: tk_plan_capability_command_def plan_command_refuses split: option.split list.split)
  then show ?thesis by (cases command) (simp_all add: tk_plan_frame_def)
qed

lemma frame_endpoint_refuses: "refuses (frame_endpoint eps requested cl)"
  by (simp add: frame_endpoint_def split: option.split)

text \<open>What has gone to the radio.\<close>

definition radio :: "'a task \<Rightarrow> zcl_tx list \<times> zdo_tx list \<times> 'a" where
  "radio t = (tk_sent_zcl t, tk_sent_zdo t, tk_adapter t)"

lemma radio_assess: "radio (tk_assess c i ev t) = radio t"
  by (simp add: tk_assess_def Let_def split_beta tk_now_def tk_wall_def tk_modify_def tk_emit_def radio_def
      split: option.split)

interpretation radio: local_invariant "\<lambda>t. radio t = k" "\<lambda>_. True" for k
  by unfold_locales (simp_all add: radio_assess, simp_all add: radio_def tk_emit_def)

definition sent_to :: "ieee \<Rightarrow> nwk \<Rightarrow> 'a task \<Rightarrow> 'a task \<Rightarrow> bool" where
  "sent_to i n t t' \<longleftrightarrow> (\<exists>tx. ztx_dest tx = Unicast i n \<and> tk_sent_zcl t' = tk_sent_zcl t @ [tx]
     \<and> tk_sent_zdo t' = tk_sent_zdo t)"

lemma deliver_sends:
  assumes "ztx_dest tx = Unicast i n"
  shows "sent_to i n t (snd (tk_deliver c i started tx t))"
    and "case fst (tk_deliver c i started tx t) of Inl e \<Rightarrow> was_sent e | Inr _ \<Rightarrow> True"
proof -
  obtain r a where r: "ad_send_zcl (cf_adapter c) tx (tk_adapter t) = (r, a)" by fastforce
  let ?u = "snd (tk_now c (t\<lparr>tk_adapter := a, tk_sent_zcl := tk_sent_zcl t @ [tx]\<rparr>))"
  have sent: "radio v = radio ?u \<Longrightarrow> sent_to i n t v" for v
    using assms by (auto simp: sent_to_def radio_def tk_now_def)
  have kept: "radio (tk_record_tx c i s x ?u) = radio ?u"
    "radio (tk_emit (event.EvCommandFailed i None f) (tk_record_tx c i s x ?u)) = radio ?u" for s x f
    by (simp_all add: radio.record_tx radio.emit)
  show "sent_to i n t (snd (tk_deliver c i started tx t))"
    by (simp add: tk_deliver_def tk_send_zcl_def r Let_def split_beta sent kept
        split: sum.split adapter_error.split)
  show "case fst (tk_deliver c i started tx t) of Inl e \<Rightarrow> was_sent e | Inr _ \<Rightarrow> True"
    by (simp add: tk_deliver_def tk_send_zcl_def r Let_def split_beta split: sum.split adapter_error.split)
qed

text \<open>
  C7: A command that is refused - for an unknown device, without a definition, for a capability the
  definition does not give, a bad value or an unknown endpoint - sends nothing; any other command
  sends exactly one frame, to its device, under the short address the device has.
\<close>

theorem refused_command_sends_nothing:
  "let r = tk_run_command c i command t in
   case fst r of
     Inl e \<Rightarrow> (if was_sent e
       then (case iv_get i (tk_devices t) of None \<Rightarrow> False | Some entry \<Rightarrow> sent_to i (en_nwk entry) t (snd r))
       else radio (snd r) = radio t)
   | Inr _ \<Rightarrow> (case iv_get i (tk_devices t) of None \<Rightarrow> False | Some entry \<Rightarrow> sent_to i (en_nwk entry) t (snd r))"
proof (cases "iv_get i (tk_devices t)")
  case (Some entry)
  define u where "u = (snd (tk_now c t))\<lparr>tk_zcl_sequence := tk_zcl_sequence t + 1\<rparr>"
  obtain plan v where v: "tk_plan_frame c i command (tk_zcl_sequence t + 1) u = (plan, v)" by fastforce
  have u: "radio u = radio t" by (simp add: u_def tk_now_def radio_def)
  with radio.plan_frame [OF refl, of c i command "tk_zcl_sequence t + 1" u] v have rv: "radio v = radio t" by simp
  have ref: "refuses plan" using plan_frame_refuses [of c i command "tk_zcl_sequence t + 1" u] v by simp
  have run: "tk_run_command c i command t = (case plan of Inl e \<Rightarrow> (Inl e, v)
      | Inr (requested, cluster, frame) \<Rightarrow>
          (case frame_endpoint (di_endpoints (en_info entry)) requested cluster of Inl e \<Rightarrow> (Inl e, v)
           | Inr ep \<Rightarrow> tk_deliver c i (cf_now c (tk_ticks t)) \<lparr>ztx_dest = Unicast i (en_nwk entry),
               ztx_endpoint = ep, ztx_source_endpoint = EndpointId 1, ztx_profile = profile_HA,
               ztx_cluster = cluster, ztx_frame = frame, ztx_options = txo_default\<rparr> v))"
    using Some v by (simp add: tk_run_command_def Let_def tk_now_def u_def)
  have moved: "sent_to i n v w \<Longrightarrow> sent_to i n t w" for n w
    using rv by (auto simp: sent_to_def radio_def)
  have refused: ?thesis if "tk_run_command c i command t = (Inl e, v)" "\<not> was_sent e" for e
    using that rv by simp
  show ?thesis
  proof (cases plan)
    case (Inl e)
    with ref refused show ?thesis by (simp add: run)
  next
    case (Inr p)
    obtain requested cluster frame where p: "p = (requested, cluster, frame)" by (cases p)
    show ?thesis
    proof (cases "frame_endpoint (di_endpoints (en_info entry)) requested cluster")
      case (Inl e)
      with frame_endpoint_refuses [of "di_endpoints (en_info entry)" requested cluster] Inr p
      show ?thesis by (intro refused [of e]) (simp_all add: run)
    next
      case ep: (Inr ep)
      define tx where "tx = \<lparr>ztx_dest = Unicast i (en_nwk entry),
               ztx_endpoint = ep, ztx_source_endpoint = EndpointId 1, ztx_profile = profile_HA,
               ztx_cluster = cluster, ztx_frame = frame, ztx_options = txo_default\<rparr>"
      have tx: "ztx_dest tx = Unicast i (en_nwk entry)" by (simp add: tx_def)
      have "tk_run_command c i command t = tk_deliver c i (cf_now c (tk_ticks t)) tx v"
        by (simp add: run Inr p ep tx_def)
      with deliver_sends [OF tx, where t = v and c = c and started = "cf_now c (tk_ticks t)"] moved Some show ?thesis
        by (simp split: sum.splits)
    qed
  qed
qed (simp add: tk_run_command_def)

end
