(* ===== verification/Task_Network.thy ===== *)
theory Task_Network
  imports Task_Observers
begin

text \<open>
  What the runtime task keeps beyond its own life: the stored network record and its frame counter,
  devices that leave, and devices that were stored and have not been heard since.
\<close>

section \<open>The stored frame counter\<close>

definition stored_counter :: "'a task \<Rightarrow> u32 option" where
  "stored_counter t =
     (case ms_load_network (tk_store t) of Inr r \<Rightarrow> map_option pnw_frame_counter r | Inl _ \<Rightarrow> None)"

lemma saturating_add_ge: "a \<le> u32_saturating_add a b"
proof (cases "unat a + unat b < 2 ^ 32")
  case True
  then have "unat (a + b) = unat a + unat b" by (simp add: unat_word_ariths)
  with True show ?thesis by (simp add: u32_saturating_add_def word_le_nat_alt)
qed (simp add: u32_saturating_add_def)

lemma load_network_Inr:
  "ms_load_network s = Inr r \<longleftrightarrow> \<not> ms_poisoned s \<and> r = mi_network (ms_inner s)"
  by (auto simp: ms_load_network_def ms_get_def ms_with_def)

lemma save_network_Inr:
  "ms_save_network r s = Inr s' \<longleftrightarrow>
     \<not> ms_poisoned s \<and> s' = s\<lparr>ms_inner := (ms_inner s)\<lparr>mi_network := Some r\<rparr>\<rparr>"
  by (simp add: ms_save_network_def ms_update_Inr)

text \<open>
  C25: Once the task has written the counter itself, refreshing it never lowers what is stored, even
  when the live counter is near its end, and the task still knows what is stored.
\<close>

theorem refresh_never_rolls_back:
  assumes "stored_counter t = Some (tk_persisted_frame_counter t)"
  shows "let t' = tk_refresh_frame_counter c t in
     stored_counter t' = Some (tk_persisted_frame_counter t')
     \<and> tk_persisted_frame_counter t \<le> tk_persisted_frame_counter t'"
proof -
  obtain r t1 where r: "tk_network_info c t = (r, t1)" by fastforce
  then have same: "tk_store t1 = tk_store t" "tk_persisted_frame_counter t1 = tk_persisted_frame_counter t"
    by (auto simp: tk_network_info_def split: prod.splits)
  obtain rec where rec: "\<not> ms_poisoned (tk_store t)" "mi_network (ms_inner (tk_store t)) = Some rec"
      "pnw_frame_counter rec = tk_persisted_frame_counter t"
    using assms by (auto simp: stored_counter_def load_network_Inr split: sum.splits)
  have load: "ms_load_network (tk_store t) = Inr (Some rec)" using rec by (simp add: load_network_Inr)
  have save: "ms_save_network n (tk_store t)
      = Inr ((tk_store t)\<lparr>ms_inner := (ms_inner (tk_store t))\<lparr>mi_network := Some n\<rparr>\<rparr>)" for n
    using rec(1) by (simp add: save_network_Inr)
  have get: "ms_load_network ((tk_store t)\<lparr>ms_inner := (ms_inner (tk_store t))\<lparr>mi_network := Some n\<rparr>\<rparr>) = Inr (Some n)" for n
    using rec(1) by (simp add: load_network_Inr)
  show ?thesis
  proof (cases r)
    case (Inl e)
    with r assms same show ?thesis by (simp add: tk_refresh_frame_counter_def stored_counter_def)
  next
    case (Inr info)
    have "tk_persisted_frame_counter t \<le> u32_saturating_add (ni_frame_counter info) b"
      if "\<not> ni_frame_counter info < tk_persisted_frame_counter t" for b
      using that saturating_add_ge [of "ni_frame_counter info" b] by (simp add: order_trans)
    with r Inr assms same show ?thesis
      by (simp add: tk_refresh_frame_counter_def load save get Let_def stored_counter_def)
  qed
qed

text \<open>A coordinator that counts from 10, over a network that was stored with a counter of 5000.\<close>

definition example_network :: persisted_network where
  "example_network = \<lparr>pnw_pan_id = 1, pnw_extended_pan_id = 2, pnw_channel = 11, pnw_nwk_update_id = 0,
     pnw_coordinator_ieee = Ieee 1, pnw_key_sequence = 0, pnw_frame_counter = 5000, pnw_network_key = Some (replicate 16 0)\<rparr>"

definition counting_config :: "unit config" where
  "counting_config = example_config\<lparr>cf_adapter := silent_adapter\<lparr>ad_network_info := (\<lambda>a.
     (Inr \<lparr>ni_pan_id = 1, ni_extended_pan_id = 2, ni_channel = 11, ni_nwk_update_id = 0, ni_key_sequence = 0,
           ni_frame_counter = 10\<rparr>, a))\<rparr>\<rparr>"

definition stored_task :: "unit task" where
  "stored_task = tk_initial () (ms_new\<lparr>ms_inner := (ms_inner ms_new)\<lparr>mi_network := Some example_network\<rparr>\<rparr>)
     True cr_new []"

theorem refresh_never_rolls_back_witness:
  "let t' = tk_refresh_frame_counter counting_config (stored_task\<lparr>tk_persisted_frame_counter := 5000\<rparr>)
   in stored_counter t' = Some (tk_persisted_frame_counter t') \<and> 5000 \<le> tk_persisted_frame_counter t'"
proof -
  have "stored_counter (stored_task\<lparr>tk_persisted_frame_counter := 5000\<rparr>) = Some 5000"
    by (simp add: stored_counter_def stored_task_def tk_initial_def load_network_Inr ms_new_def example_network_def
        ms_load_network_def ms_get_def ms_with_def)
  with refresh_never_rolls_back [of "stored_task\<lparr>tk_persisted_frame_counter := 5000\<rparr>" counting_config]
  show ?thesis by simp
qed

text \<open>
  The first refresh after a start is different: the task takes the stored counter to be zero, and a
  live counter below the stored one then lowers it.
\<close>

lemma first_refresh_rolls_back:
  "stored_counter stored_task = Some 5000"
  "stored_counter (tk_refresh_frame_counter counting_config stored_task) = Some 1034"
  by (simp_all add: stored_counter_def stored_task_def tk_initial_def example_network_def ms_new_def
      tk_refresh_frame_counter_def tk_network_info_def counting_config_def ms_load_network_def ms_get_def
      ms_with_def ms_save_network_def ms_update_def Let_def u32_saturating_add_def FRAME_COUNTER_MARGIN_def)

section \<open>Leaving\<close>

text \<open>
  C33: A device that leaves, named by its identity or by the short address that leads to it, is
  forgotten, and only it: its entry is gone and every other entry is as it was; the address it had
  leads nowhere any more and every other address leads where it did, so none leads to it; its stored
  record is gone and everything else in the store is as it was, unless the store fails, which leaves
  the store alone; and its leaving is the one thing reported.
\<close>

theorem left_device_is_forgotten:
  assumes "tk_wf t" "or_else ieee (Option.bind nwk (\<lambda>n. iv_resolve n (tk_devices t))) = Some i"
    and "iv_get i (tk_devices t) = Some e"
  shows "let t' = tk_on_left ieee nwk t in
     iv_get j (tk_devices t') = (if j = i then None else iv_get j (tk_devices t))
     \<and> iv_resolve m (tk_devices t') = (if m = en_nwk e then None else iv_resolve m (tk_devices t))
     \<and> iv_resolve m (tk_devices t') \<noteq> Some i
     \<and> (if ms_poisoned (tk_store t) then tk_store t' = tk_store t
        else bt_get (mi_devices (ms_inner (tk_store t'))) j
              = (if j = i then None else bt_get (mi_devices (ms_inner (tk_store t))) j)
          \<and> mi_network (ms_inner (tk_store t')) = mi_network (ms_inner (tk_store t))
          \<and> mi_groups (ms_inner (tk_store t')) = mi_groups (ms_inner (tk_store t))
          \<and> mi_backups (ms_inner (tk_store t')) = mi_backups (ms_inner (tk_store t)))
     \<and> tk_events t' = tk_events t @ [EvDeviceLeft i LrUnknown]"
proof -
  let ?v = "snd (iv_remove i (tk_devices t))" and ?t = "tk_on_left ieee nwk t"
  have left: "?t = tk_on_left (Some i) None t"
    using assms(2) by (simp add: tk_on_left_def or_else_def)
  have sound: "iv_sound ?v" using assms(1) by (simp add: tk_wf_def iv_remove_sound)
  have res: "iv_resolve m ?v \<noteq> Some i"
    using iv_sound_resolve [OF sound, of m i] by (auto simp: iv_remove_some [OF assms(3)])
  have dev: "tk_devices ?t = ?v"
    by (simp add: left) (simp add: tk_on_left_def or_else_def Let_def tk_emit_def split: sum.split)
  have ev: "tk_events ?t = tk_events t @ [EvDeviceLeft i LrUnknown]"
    by (simp add: left) (simp add: tk_on_left_def or_else_def Let_def tk_emit_def split: sum.split)
  have store: "tk_store ?t = (if ms_poisoned (tk_store t) then tk_store t
      else (tk_store t)\<lparr>ms_inner := (ms_inner (tk_store t))
        \<lparr>mi_devices := bt_remove i (mi_devices (ms_inner (tk_store t)))\<rparr>\<rparr>)"
    by (simp add: left) (simp add: tk_on_left_def or_else_def Let_def tk_emit_def ms_delete_device_def
        ms_update_def ms_with_def)
  show ?thesis using res by (simp add: dev ev store iv_remove_some [OF assms(3)] map_simps)
qed

text \<open>Two devices in the table and in the store; the one at address 5 leaves.\<close>

definition leaving_task :: "unit task" where
  "leaving_task = example_task
     \<lparr>tk_devices := iv_insert (new_entry (Ieee 2) (Nwk 5) 0) (iv_insert (new_entry (Ieee 3) (Nwk 6) 0) iv_new),
      tk_store := ms_new\<lparr>ms_inner := (ms_inner ms_new)\<lparr>mi_devices :=
        [(Ieee 2, persisted_from_entry (new_entry (Ieee 2) (Nwk 5) 0)),
         (Ieee 3, persisted_from_entry (new_entry (Ieee 3) (Nwk 6) 0))]\<rparr>\<rparr>\<rparr>"

lemma new_entry_parts [simp]:
  "en_nwk (new_entry i n w) = n" "pdv_ieee (persisted_from_entry e) = di_ieee (en_info e)"
  by (simp_all add: new_entry_def di_new_def persisted_from_entry_def Let_def)

lemma leaving_task_wf: "tk_wf leaving_task"
proof -
  have "iv_sound (iv_insert e (iv_insert e' iv_new))" for e e'
    using iv_new_exact by (simp add: iv_exact_def iv_insert_sound)
  then show ?thesis
    by (simp add: leaving_task_def example_task_def tk_initial_def tk_wf_def ms_filed_def ms_new_def bt_wf_def
        hm.wf_empty less_ieee_def)
qed

theorem left_device_is_forgotten_witness:
  "let t' = tk_on_left None (Some (Nwk 5)) leaving_task in
     iv_get (Ieee 2) (tk_devices t') = None \<and> iv_resolve (Nwk 5) (tk_devices t') = None
     \<and> bt_get (mi_devices (ms_inner (tk_store t'))) (Ieee 2) = None
     \<and> tk_events t' = [EvDeviceLeft (Ieee 2) LrUnknown]"
proof -
  have here: "iv_get (Ieee 2) (tk_devices leaving_task) = Some (new_entry (Ieee 2) (Nwk 5) 0)"
    "or_else None (Option.bind (Some (Nwk 5)) (\<lambda>n. iv_resolve n (tk_devices leaving_task))) = Some (Ieee 2)"
    by (simp_all add: leaving_task_def iv_get_insert iv_resolve_insert or_else_def)
  have "\<not> ms_poisoned (tk_store leaving_task)" "tk_events leaving_task = []"
    by (simp_all add: leaving_task_def example_task_def tk_initial_def ms_new_def)
  with left_device_is_forgotten [OF leaving_task_wf here(2,1), of "Ieee 2" "Nwk 5"] show ?thesis
    by (simp add: Let_def)
qed

section \<open>Devices that were stored\<close>

text \<open>Nobody has looked at this entry: nothing is known of the device and no check of it is scheduled.\<close>

definition waits :: "inv_entry \<Rightarrow> bool" where
  "waits e \<longleftrightarrow> ri_state (en_reachability e) = RUnknown \<and> en_next_check e = NcAwaitTraffic"

fun verdict_told :: "ieee \<Rightarrow> event \<Rightarrow> bool" where
  "verdict_told i (EvReachabilityChanged j _ _ _) \<longleftrightarrow> j = i"
| "verdict_told i _ \<longleftrightarrow> False"

text \<open>A known device that nobody has looked at, unless it has been told to have left.\<close>

fun unseen :: "ieee \<Rightarrow> inv_entry option \<Rightarrow> event list \<Rightarrow> bool" where
  "unseen i None es \<longleftrightarrow> EvDeviceLeft i LrUnknown \<in> set es"
| "unseen i (Some e) es \<longleftrightarrow> waits e"

definition unheard :: "ieee \<Rightarrow> 'a task \<Rightarrow> bool" where
  "unheard i t \<longleftrightarrow> tk_wf t \<and> unseen i (iv_get i (tk_devices t)) (tk_events t)
     \<and> list_all (\<lambda>e. \<not> verdict_told i e) (tk_events t)"

lemma unseen_told: "unseen i x es \<Longrightarrow> unseen i x (es @ es')"
  by (cases x) simp_all

lemma unheard_emit:
  "unheard i t \<Longrightarrow> \<not> verdict_told i e \<Longrightarrow> unheard i (t\<lparr>tk_events := tk_events t @ [e]\<rparr>)"
  by (simp add: unheard_def unseen_told)

lemma not_told_neutral: "neutral e \<Longrightarrow> \<not> verdict_told i e"
  by (cases e) simp_all

lemma iv_get_set_nwk:
  "iv_get j (snd (iv_set_nwk i n v)) =
     (if j = i then map_option (\<lambda>e. e\<lparr>en_info := (en_info e)\<lparr>di_nwk := n\<rparr>\<rparr>) (iv_get i v) else iv_get j v)"
  by (cases rule: iv_set_nwk_cases [of i v n]) (auto simp: iv_get_def map_simps)

lemma waits_simps [simp]:
  "waits (new_entry i n w)" "waits (entry_from_persisted p)"
  "waits (e\<lparr>en_info := d\<rparr>) = waits e" "keeps_entry f \<Longrightarrow> waits (f e) = waits e"
  by (simp_all add: waits_def new_entry_def entry_from_persisted_def Let_def ri_default_def keeps_entry_def)

lemma unseen_map: "unseen i x es \<Longrightarrow> (\<And>e. waits (f e) = waits e) \<Longrightarrow> unseen i (map_option f x) es"
  by (cases x) simp_all

lemma unheard_modify:
  assumes "unheard i t" "keeps_entry f"
  shows "unheard i (t\<lparr>tk_devices := iv_modify j f (tk_devices t)\<rparr>)"
  using assms unseen_map [of i _ _ f] by (auto simp: unheard_def tk_wf_modify iv_modify_get)

lemma unheard_set_nwk:
  assumes "unheard i t"
  shows "unheard i (t\<lparr>tk_devices := snd (iv_set_nwk j n (tk_devices t))\<rparr>)"
  using assms wf.on_set_nwk [of t j n] unseen_map [of i _ _ "\<lambda>e. e\<lparr>en_info := (en_info e)\<lparr>di_nwk := n\<rparr>\<rparr>"]
  by (auto simp: unheard_def iv_get_set_nwk)

lemma unheard_depart:
  assumes "unheard i t"
  shows "unheard i (tk_emit (EvDeviceLeft j LrUnknown) (t\<lparr>tk_devices := snd (iv_remove j (tk_devices t))\<rparr>))"
  using assms wf.on_depart [of t j]
  by (cases "iv_get j (tk_devices t)")
    (simp_all add: unheard_def tk_emit_def iv_remove_none iv_remove_some unseen_told)

lemma unheard_join:
  assumes "unheard i t"
  shows "unheard i (tk_emit (EvDeviceJoined j n) (t\<lparr>tk_devices := iv_insert (new_entry j n wall) (tk_devices t)\<rparr>))"
  using assms by (simp add: unheard_def tk_emit_def iv_get_insert tk_wf_insert unseen_told)

lemma unheard_assess:
  assumes "unheard i t" "j \<noteq> i"
  shows "unheard i (tk_assess c j ev t)"
proof -
  have "tk_wf (tk_assess c j ev t)" using assms(1) by (simp add: unheard_def tk_wf_assess)
  with assms show ?thesis
    by (simp add: unheard_def tk_assess_def Let_def split_beta tk_now_def tk_wall_def tk_modify_def tk_emit_def
        iv_modify_get unseen_told split: option.splits)
qed

text \<open>The table files every entry under its own address.\<close>

lemma iv_all_get: "iv_sound v \<Longrightarrow> e \<in> set (iv_all v) \<Longrightarrow> iv_get (di_ieee (en_info e)) v = Some e"
  using iv_sound_wf [of v] bt_wf_distinct [of "iv_devices v"] iv_sound_key [of v]
  by (force simp: iv_all_def iv_get_def)

lemma unheard_due:
  assumes "unheard i t" "e \<in> set (iv_all (tk_devices t))" "due_check now e = Some x"
  shows "fst x \<noteq> i"
  using assms iv_all_get [of "tk_devices t" e]
  by (auto simp: unheard_def tk_wf_def waits_def due_check_def split: next_check.splits if_splits)

lemmas wf_kept = wf.on_ticks wf.on_zcl_sequence wf.on_tuya_sequence wf.on_registry wf.on_upsert wf.on_delete
  wf.on_adapter wf.on_zcl wf.on_zdo wf.on_zdo_sequence wf.on_known wf.on_counter wf.on_recount wf.on_replies
  wf.on_interview wf.on_zdo_insert wf.on_zdo_remove wf.on_zdo_clear wf.on_zcl_insert wf.on_zcl_remove
  wf.on_zcl_clear

interpretation unheard: call_invariant "unheard i" "\<lambda>j. j \<noteq> i" for i
  by unfold_locales
    (simp_all add: unheard_emit not_told_neutral unheard_depart unheard_join unheard_assess unheard_modify
      unheard_set_nwk,
     (erule unheard_due, assumption, assumption | simp add: unheard_def wf_kept)+)

text \<open>At the start every stored device is one that nobody has looked at.\<close>

lemma restored_waits:
  "iv_get i (fold (\<lambda>p. iv_insert (entry_from_persisted p)) ds v) = Some e \<Longrightarrow>
     (\<And>e. iv_get i v = Some e \<Longrightarrow> waits e) \<Longrightarrow> waits e"
proof (induction ds arbitrary: v)
  case (Cons p ds)
  show ?case
    by (rule Cons.IH [of "iv_insert (entry_from_persisted p) v"])
      (use Cons.prems in \<open>auto simp: iv_get_insert split: if_splits\<close>)
qed simp

lemma unheard_start:
  assumes "ms_filed s" "i \<in> set (map pdv_ieee stored)"
  shows "unheard i (tk_prologue c outcome (tk_initial a s known registry stored))"
proof (rule unheard.prologue)
  let ?t = "tk_initial a s known registry stored"
  have "verdict_of i (tk_devices ?t) = Some RUnknown"
    using assms(2) by (simp add: tk_initial_def verdict_restored)
  then obtain e where e: "iv_get i (tk_devices ?t) = Some e" by (auto simp: verdict_of_def)
  have "waits e"
    by (rule restored_waits [of i stored iv_new])
      (use e in \<open>simp_all add: tk_initial_def iv_new_def iv_get_def\<close>)
  with e tk_wf_coordinator [OF tk_initial_wf [OF assms(1)], of c a known registry stored]
  show "unheard i (tk_register_coordinator c ?t)"
    by (auto simp: unheard_def tk_register_coordinator_def Let_def tk_wall_def iv_get_insert)
      (simp_all add: tk_initial_def)
qed (simp add: unheard_def tk_wf_save)

text \<open>
  C36: A stored device that is silent is never looked at: over any run from the start in which it is
  not heard and no command is sent to it, whatever else is asked, heard and passes, its verdict stays
  unknown, no check of it is scheduled or due at any time, and no change of its reachability is told;
  it stays in the table unless it is told to have left.
\<close>

theorem stored_devices_wait_to_be_heard:
  assumes "ms_filed s" "i \<in> set (map pdv_ieee stored)"
    and "concerns_only (\<lambda>j. j \<noteq> i) c xs (tk_prologue c outcome (tk_initial a s known registry stored))"
  shows "let t = fst (run_loop c xs (tk_prologue c outcome (tk_initial a s known registry stored))) in
     (case iv_get i (tk_devices t) of
        None \<Rightarrow> EvDeviceLeft i LrUnknown \<in> set (tk_events t)
      | Some e \<Rightarrow> ri_state (en_reachability e) = RUnknown \<and> en_next_check e = NcAwaitTraffic)
     \<and> list_all (\<lambda>x. fst x \<noteq> i) (List.map_filter (due_check now) (iv_all (tk_devices t)))
     \<and> list_all (\<lambda>e. \<not> verdict_told i e) (tk_events t)"
proof -
  define t where "t = fst (run_loop c xs (tk_prologue c outcome (tk_initial a s known registry stored)))"
  have t: "unheard i t"
    unfolding t_def by (rule unheard.run [OF unheard_start [OF assms(1,2)] assms(3)])
  have "list_all (\<lambda>x. fst x \<noteq> i) (List.map_filter (due_check now) (iv_all (tk_devices t)))"
    using unheard_due [OF t, of _ now] by (force simp: list_all_iff List.map_filter_def)
  with t show ?thesis by (auto simp: t_def [symmetric] unheard_def waits_def split: option.split)
qed

text \<open>A stored device while another joins, a list is asked for and time passes.\<close>

definition stored_device :: persisted_device where
  "stored_device = persisted_from_entry (new_entry (Ieee 2) (Nwk 5) 0)"

definition busy_run :: "run_input list" where
  "busy_run = [InTick (\<lambda>_. False), InAdapterEvent (AeDeviceJoined (Some (Ieee 3)) (Nwk 9)), InRequest (RqDevices 1),
     InRequest (RqCommand (Ieee 3) DcToggle 2), InTick (\<lambda>_. False)]"

theorem stored_devices_wait_to_be_heard_witness:
  "let t = fst (run_loop example_config busy_run
       (tk_prologue example_config Resumed (tk_initial () ms_new False cr_new [stored_device]))) in
   list_all (\<lambda>x. fst x \<noteq> Ieee 2) (List.map_filter (due_check (secs 90000)) (iv_all (tk_devices t)))
     \<and> list_all (\<lambda>e. \<not> verdict_told (Ieee 2) e) (tk_events t)"
proof -
  have filed: "ms_filed ms_new" by (simp add: ms_filed_def ms_new_def bt_wf_def)
  have stored: "Ieee 2 \<in> set (map pdv_ieee [stored_device])" by (simp add: stored_device_def)
  have silent: "concerns_only (\<lambda>j. j \<noteq> Ieee 2) example_config busy_run t" for t
    by (simp add: busy_run_def split_beta or_else_def turn_goes_on del: run_turn.simps)
  show ?thesis
    using stored_devices_wait_to_be_heard [OF filed stored silent, where now = "secs 90000"]
    by (simp only: Let_def)
qed

end
