(* ===== verification/Runtime.thy ===== *)
theory Runtime
  imports Task_Network Tuya_Schedule "HOL-Library.Sublist"
begin

text \<open>
  The runtime as its users see it, \<open>rszigbee-core/src/runtime.rs\<close>: the builder and how it starts,
  handles on the running task, and the task together with its two channels as a system of steps that
  interleave. The tables the builder starts with are generated and are arguments.
\<close>

section \<open>The builder\<close>

record 'a builder =
  zb_adapter :: 'a
  zb_store :: memory_store
  zb_network :: network_config
  zb_backup :: "u8 list option"
  zb_reachability :: "reach_context \<Rightarrow> assessment"
  zb_event_capacity :: nat
  zb_interview_on_join :: bool
  zb_registry :: cluster_registry
  zb_behaviors :: behavior_registry
  zb_definitions :: def_index

definition DEFAULT_CHANNEL :: u8 where "DEFAULT_CHANNEL = 11"
definition DEFAULT_EVENT_CAPACITY :: nat where "DEFAULT_EVENT_CAPACITY = 1024"

definition zg_builder ::
  "cluster_registry \<Rightarrow> def_index \<Rightarrow> 'a \<Rightarrow> memory_store \<Rightarrow> 'a builder" where
  "zg_builder builtin_clusters default_definitions a store =
     \<lparr>zb_adapter = a, zb_store = store,
      zb_network = \<lparr>nc_pan_id = None, nc_extended_pan_id = None, nc_channel = DEFAULT_CHANNEL,
        nc_network_key = None, nc_on_mismatch = MmFail\<rparr>,
      zb_backup = None, zb_reachability = sp_assess sp_default,
      zb_event_capacity = DEFAULT_EVENT_CAPACITY, zb_interview_on_join = True,
      zb_registry = builtin_clusters, zb_behaviors = bhr_with_builtins, zb_definitions = default_definitions\<rparr>"

definition zb_set_network :: "network_config \<Rightarrow> 'a builder \<Rightarrow> 'a builder" where
  "zb_set_network n b = b\<lparr>zb_network := n\<rparr>"
definition zb_restore :: "u8 list \<Rightarrow> 'a builder \<Rightarrow> 'a builder" where
  "zb_restore backup b = b\<lparr>zb_backup := Some backup\<rparr>"
definition zb_reachability_policy :: "(reach_context \<Rightarrow> assessment) \<Rightarrow> 'a builder \<Rightarrow> 'a builder" where
  "zb_reachability_policy policy b = b\<lparr>zb_reachability := policy\<rparr>"
definition zb_set_event_capacity :: "nat \<Rightarrow> 'a builder \<Rightarrow> 'a builder" where
  "zb_set_event_capacity events b = b\<lparr>zb_event_capacity := max events 1\<rparr>"
definition zb_behavior :: "behavior \<Rightarrow> 'a builder \<Rightarrow> 'a builder" where
  "zb_behavior behavior b = b\<lparr>zb_behaviors := bhr_insert behavior (zb_behaviors b)\<rparr>"
definition zb_set_definitions :: "def_index \<Rightarrow> 'a builder \<Rightarrow> 'a builder" where
  "zb_set_definitions definitions b = b\<lparr>zb_definitions := definitions\<rparr>"
definition zb_set_registry :: "cluster_registry \<Rightarrow> 'a builder \<Rightarrow> 'a builder" where
  "zb_set_registry registry b = b\<lparr>zb_registry := registry\<rparr>"
definition zb_set_interview_on_join :: "bool \<Rightarrow> 'a builder \<Rightarrow> 'a builder" where
  "zb_set_interview_on_join yes b = b\<lparr>zb_interview_on_join := yes\<rparr>"

text \<open>
  What the environment of a runtime is: the adapter's methods, the clocks, and the two texts that
  come from outside.
\<close>

record 'a environment =
  ev_adapter :: "'a adapter_ops"
  ev_now :: "nat \<Rightarrow> instant"
  ev_wall :: "nat \<Rightarrow> system_time"
  ev_lower :: "string \<Rightarrow> string"
  ev_debug :: debug_text

definition zb_config :: "'a environment \<Rightarrow> ieee \<Rightarrow> 'a builder \<Rightarrow> 'a config" where
  "zb_config env coordinator b =
     \<lparr>cf_adapter = ev_adapter env, cf_now = ev_now env, cf_wall = ev_wall env,
      cf_policy = zb_reachability b, cf_interview_on_join = zb_interview_on_join b,
      cf_coordinator = coordinator, cf_behaviors = zb_behaviors b, cf_definitions = zb_definitions b,
      cf_lower = ev_lower env, cf_debug = ev_debug env\<rparr>"

text \<open>What \<open>start\<close> hands to the task: its configuration, its first state, and how the network came up.\<close>

record 'a started =
  st_config :: "'a config"
  st_task :: "'a task"
  st_outcome :: start_outcome

definition zb_check_store :: "ieee \<Rightarrow> memory_store \<Rightarrow> runtime_error + persisted_network option" where
  "zb_check_store coordinator store =
     (case ms_load_network store of
        Inl e \<Rightarrow> Inl (ReStore e)
      | Inr (Some network) \<Rightarrow>
          (if pnw_coordinator_ieee network \<noteq> coordinator
           then Inl (ReCoordinatorMismatch (pnw_coordinator_ieee network) coordinator)
           else Inr (Some network))
      | Inr None \<Rightarrow> Inr None)"

definition zb_start :: "'a environment \<Rightarrow> 'a builder \<Rightarrow> runtime_error + 'a started" where
  "zb_start env b =
     (case ad_start (ev_adapter env) (zb_network b) (zb_backup b) (zb_adapter b) of
        (Inl e, _) \<Rightarrow> Inl (ReAdapter e)
      | (Inr outcome, a) \<Rightarrow>
     (case ad_coordinator_ieee (ev_adapter env) a of
        (Inl e, _) \<Rightarrow> Inl (ReAdapter e)
      | (Inr coordinator, a) \<Rightarrow>
     (case zb_check_store coordinator (zb_store b) of
        Inl e \<Rightarrow> Inl e
      | Inr stored \<Rightarrow>
     (case ms_load_devices (zb_store b) of
        Inl e \<Rightarrow> Inl (ReStore e)
      | Inr devices \<Rightarrow>
          Inr \<lparr>st_config = zb_config env coordinator b,
               st_task = tk_initial a (zb_store b)
                 (case stored of None \<Rightarrow> False | Some n \<Rightarrow> \<not> pnw_needs_completing n) (zb_registry b) devices,
               st_outcome = outcome\<rparr>))))"

section \<open>The task and its channels\<close>

definition REQUEST_QUEUE :: nat where "REQUEST_QUEUE = 64"

text \<open>
  The running system: the task; what has been sent on the two channels and not yet received; the
  handles the program holds; the interviews that run, each with a clone of the handle of the task, and
  what they answered; and how many senders the request channel counts, which every clone of a handle
  raises and every drop lowers. \<open>sy_ended\<close> is what the loop returned on.
\<close>

record 'a system =
  sy_task :: "'a task"
  sy_requests :: "request list"
  sy_adapter_events :: "adapter_event list"
  sy_adapter_open :: bool
  sy_handles :: nat
  sy_senders :: nat
  sy_interviewing :: "(ieee \<times> sender option) list"
  sy_finished :: "(sender \<times> (runtime_error + interview_outcome)) list"
  sy_ended :: "run_input option"

text \<open>\<open>start\<close> makes one handle with the channel, gives the task a clone of it and returns it.\<close>

definition sy_initial :: "'a started \<Rightarrow> 'a system" where
  "sy_initial x = \<lparr>sy_task = tk_prologue (st_config x) (st_outcome x) (st_task x), sy_requests = [],
     sy_adapter_events = [], sy_adapter_open = True, sy_handles = 1, sy_senders = Suc 1, sy_interviewing = [],
     sy_finished = [], sy_ended = None\<rparr>"

text \<open>
  One turn of the loop. The interviews it starts hold a clone of the handle each; when the loop returns
  the task goes, and its own handle with it.
\<close>

definition sy_turn :: "'a config \<Rightarrow> run_input \<Rightarrow> 'a system \<Rightarrow> 'a system" where
  "sy_turn c x s =
     (case run_turn c x (sy_task s) of
        (t, go) \<Rightarrow>
          (let spawned = drop (length (tk_interviews (sy_task s))) (tk_interviews t) in
           s\<lparr>sy_task := t, sy_interviewing := sy_interviewing s @ spawned,
             sy_senders := (if go then id else (\<lambda>n. n - 1)) (sy_senders s + length spawned),
             sy_ended := (if go then None else Some x)\<rparr>))"

text \<open>
  What can happen. A send waits while the queue is full, and fails once the loop has returned, as the
  channel then has no receiver; so does an event of the adapter.
\<close>

datatype sy_label =
    LClone
  | LDrop
  | LInterviewEnds nat "runtime_error + interview_outcome"
  | LSend request
  | LEvent adapter_event
  | LAdapterClosed
  | LTurn run_input

inductive sy_step :: "'a config \<Rightarrow> sy_label \<Rightarrow> 'a system \<Rightarrow> 'a system \<Rightarrow> bool" for c where
  clone: "0 < sy_handles s \<Longrightarrow>
    sy_step c LClone s (s\<lparr>sy_handles := Suc (sy_handles s), sy_senders := Suc (sy_senders s)\<rparr>)"
| drop_handle: "0 < sy_handles s \<Longrightarrow>
    sy_step c LDrop s (s\<lparr>sy_handles := sy_handles s - 1, sy_senders := sy_senders s - 1\<rparr>)"
| interview_ends: "k < length (sy_interviewing s) \<Longrightarrow> sy_interviewing s ! k = (i, reply) \<Longrightarrow>
    sy_step c (LInterviewEnds k result) s
      (s\<lparr>sy_interviewing := take k (sy_interviewing s) @ drop (Suc k) (sy_interviewing s),
         sy_finished := sy_finished s @ (case reply of None \<Rightarrow> [] | Some r \<Rightarrow> [(r, result)]),
         sy_senders := sy_senders s - 1\<rparr>)"
| send: "0 < sy_handles s + length (sy_interviewing s) \<Longrightarrow> sy_ended s = None \<Longrightarrow>
    length (sy_requests s) < REQUEST_QUEUE \<Longrightarrow>
    sy_step c (LSend rq) s (s\<lparr>sy_requests := sy_requests s @ [rq]\<rparr>)"
| adapter: "sy_adapter_open s \<Longrightarrow> sy_ended s = None \<Longrightarrow>
    sy_step c (LEvent e) s (s\<lparr>sy_adapter_events := sy_adapter_events s @ [e]\<rparr>)"
| close: "sy_adapter_open s \<Longrightarrow> sy_step c LAdapterClosed s (s\<lparr>sy_adapter_open := False\<rparr>)"
| request: "sy_ended s = None \<Longrightarrow> sy_requests s = rq # rqs \<Longrightarrow>
    sy_step c (LTurn (InRequest rq)) s (sy_turn c (InRequest rq) (s\<lparr>sy_requests := rqs\<rparr>))"
| dropped: "sy_ended s = None \<Longrightarrow> sy_requests s = [] \<Longrightarrow> sy_senders s = 0 \<Longrightarrow>
    sy_step c (LTurn InHandlesDropped) s (sy_turn c InHandlesDropped s)"
| event: "sy_ended s = None \<Longrightarrow> sy_adapter_events s = e # es \<Longrightarrow>
    sy_step c (LTurn (InAdapterEvent e)) s (sy_turn c (InAdapterEvent e) (s\<lparr>sy_adapter_events := es\<rparr>))"
| closed: "sy_ended s = None \<Longrightarrow> sy_adapter_events s = [] \<Longrightarrow> \<not> sy_adapter_open s \<Longrightarrow>
    sy_step c (LTurn InAdapterClosed) s (sy_turn c InAdapterClosed s)"
| tick: "sy_ended s = None \<Longrightarrow> sy_step c (LTurn (InTick gone)) s (sy_turn c (InTick gone) s)"

inductive_cases sy_step_cases: "sy_step c l s s'"

text \<open>The runs of a system, with what happened in them.\<close>

inductive sy_run :: "'a started \<Rightarrow> sy_label list \<Rightarrow> 'a system \<Rightarrow> bool" for x where
  start: "sy_run x [] (sy_initial x)"
| step: "sy_run x ls s \<Longrightarrow> sy_step (st_config x) l s s' \<Longrightarrow> sy_run x (ls @ [l]) s'"

section \<open>Handles\<close>

text \<open>
  What a caller is told: its answer; that the runtime has stopped, when nothing holds its end of the
  channel any more; or nothing yet.
\<close>

definition still_held :: "sender \<Rightarrow> 'a system \<Rightarrow> bool" where
  "still_held i s \<longleftrightarrow>
     list_ex (\<lambda>e. snd e = Some i) (sy_interviewing s)
     \<or> sy_ended s = None \<and>
        (list_ex (\<lambda>e. pzd_reply (snd e) = i) (tk_pending_zdo (sy_task s))
         \<or> list_ex (\<lambda>e. pzc_reply (snd e) = i) (tk_pending_zcl (sy_task s))
         \<or> list_ex (\<lambda>rq. i \<in> set (request_senders rq)) (sy_requests s))"

definition zg_ask :: "sender \<Rightarrow> 'a system \<Rightarrow> (runtime_error + reply) option" where
  "zg_ask i s =
     (case map_of (tk_replies (sy_task s) @ map (apsnd RpInterview) (sy_finished s)) i of
        Some r \<Rightarrow> Some (Inr r)
      | None \<Rightarrow> if still_held i s then None else Some (Inl ReStopped))"

definition zg_request :: "request \<Rightarrow> 'a system \<Rightarrow> runtime_error + unit" where
  "zg_request rq s = (if sy_ended s = None then Inr () else Inl ReStopped)"

text \<open>\<open>send\<close> reports a stopped runtime as shutting down.\<close>

definition zg_send :: "(runtime_error + reply) \<Rightarrow> (command_error + command_outcome) option" where
  "zg_send answer =
     (case answer of
        Inl _ \<Rightarrow> Some (Inl CeShuttingDown)
      | Inr (RpCommand r) \<Rightarrow> Some r
      | Inr _ \<Rightarrow> None)"

section \<open>Runs of the system\<close>

text \<open>What a run sent, what its adapter told, and what its loop took.\<close>

definition requests_sent :: "sy_label list \<Rightarrow> request list" where
  "requests_sent ls = List.map_filter (\<lambda>l. case l of LSend rq \<Rightarrow> Some rq | _ \<Rightarrow> None) ls"

definition events_told :: "sy_label list \<Rightarrow> adapter_event list" where
  "events_told ls = List.map_filter (\<lambda>l. case l of LEvent e \<Rightarrow> Some e | _ \<Rightarrow> None) ls"

definition turns :: "sy_label list \<Rightarrow> run_input list" where
  "turns ls = List.map_filter (\<lambda>l. case l of LTurn x \<Rightarrow> Some x | _ \<Rightarrow> None) ls"

definition requests_in :: "run_input list \<Rightarrow> request list" where
  "requests_in xs = List.map_filter (\<lambda>x. case x of InRequest rq \<Rightarrow> Some rq | _ \<Rightarrow> None) xs"

definition events_in :: "run_input list \<Rightarrow> adapter_event list" where
  "events_in xs = List.map_filter (\<lambda>x. case x of InAdapterEvent e \<Rightarrow> Some e | _ \<Rightarrow> None) xs"

lemma map_filter_snoc: "List.map_filter f (xs @ [x]) = List.map_filter f xs @ (case f x of None \<Rightarrow> [] | Some y \<Rightarrow> [y])"
  by (simp add: List.map_filter_def split: option.split)

lemmas trace_simps = requests_sent_def events_told_def turns_def requests_in_def events_in_def map_filter_snoc

text \<open>The task of a system is a loop over the inputs it took, in the order it took them.\<close>

lemma run_loop_snoc:
  "run_loop c xs t = (u, True, []) \<Longrightarrow>
     run_loop c (xs @ [x]) t = (fst (run_turn c x u), snd (run_turn c x u), [])"
  by (simp add: loop_splits split_beta)

lemma turn_fields [simp]:
  "sy_task (sy_turn c x s) = fst (run_turn c x (sy_task s))"
  "sy_ended (sy_turn c x s) = (if snd (run_turn c x (sy_task s)) then None else Some x)"
  "sy_requests (sy_turn c x s) = sy_requests s" "sy_adapter_events (sy_turn c x s) = sy_adapter_events s"
  "sy_handles (sy_turn c x s) = sy_handles s" "sy_finished (sy_turn c x s) = sy_finished s"
  "sy_adapter_open (sy_turn c x s) = sy_adapter_open s"
  "sy_interviewing (sy_turn c x s) = sy_interviewing s
     @ drop (length (tk_interviews (sy_task s))) (tk_interviews (fst (run_turn c x (sy_task s))))"
  by (simp_all add: sy_turn_def split_beta Let_def)

definition sy_traced :: "'a started \<Rightarrow> sy_label list \<Rightarrow> 'a system \<Rightarrow> bool" where
  "sy_traced x ls s \<longleftrightarrow>
     run_loop (st_config x) (turns ls) (tk_prologue (st_config x) (st_outcome x) (st_task x))
       = (sy_task s, sy_ended s = None, [])
     \<and> requests_in (turns ls) @ sy_requests s = requests_sent ls
     \<and> events_in (turns ls) @ sy_adapter_events s = events_told ls"

lemma sy_traced_step:
  assumes "sy_step (st_config x) l s s'" "sy_traced x ls s"
  shows "sy_traced x (ls @ [l]) s'"
  using assms(1,2)
  by (cases rule: sy_step.cases)
    (auto simp: sy_traced_def trace_simps run_loop_snoc simp del: run_turn.simps)

lemma sy_traced: "sy_run x ls s \<Longrightarrow> sy_traced x ls s"
  by (induction rule: sy_run.induct)
    (simp_all add: sy_traced_step, simp add: sy_traced_def trace_simps sy_initial_def map_filter_simps)

text \<open>The channel counts the handles of the program, of the interviews and of the task.\<close>

lemma sy_step_counts:
  assumes "sy_step c l s s'"
    and "sy_senders s = sy_handles s + length (sy_interviewing s) + (if sy_ended s = None then 1 else 0)"
  shows "sy_senders s' = sy_handles s' + length (sy_interviewing s') + (if sy_ended s' = None then 1 else 0)"
  using assms
  by (cases rule: sy_step.cases) (auto simp: sy_turn_def split_beta Let_def)

lemma sy_senders_counted:
  "sy_run x ls s \<Longrightarrow>
     sy_senders s = sy_handles s + length (sy_interviewing s) + (if sy_ended s = None then 1 else 0)"
  by (induction rule: sy_run.induct) (simp add: sy_initial_def, rule sy_step_counts)

text \<open>The task only ever adds to the interviews it has started.\<close>

lemma interviews_assess: "tk_interviews (tk_assess c i ev t) = tk_interviews t"
  using calls_assess [of c i ev t] by (simp add: tk_calls_def)

interpretation spawned: call_invariant "\<lambda>t. prefix k (tk_interviews t)" "\<lambda>_. True" for k
  by unfold_locales (simp_all add: interviews_assess tk_emit_def prefix_prefix)

lemma turn_interviews:
  "tk_interviews (fst (run_turn c x t))
     = tk_interviews t @ drop (length (tk_interviews t)) (tk_interviews (fst (run_turn c x t)))"
proof -
  have "prefix (tk_interviews t) (tk_interviews (fst (run_turn c x t)))"
    by (rule spawned.turn) (simp_all add: option.pred_True)
  then show ?thesis by (auto elim: prefixE)
qed

text \<open>Every interview that was started is running or has answered its caller, when it has one.\<close>

definition sy_interviews_kept :: "'a system \<Rightarrow> bool" where
  "sy_interviews_kept s \<longleftrightarrow>
     mset (map fst (sy_finished s)) + mset (List.map_filter snd (sy_interviewing s))
       = mset (List.map_filter snd (tk_interviews (sy_task s)))"

lemma interviews_queues [simp]:
  "sy_interviews_kept (s\<lparr>sy_requests := rqs\<rparr>) = sy_interviews_kept s"
  "sy_interviews_kept (s\<lparr>sy_adapter_events := es\<rparr>) = sy_interviews_kept s"
  "sy_interviews_kept (s\<lparr>sy_adapter_open := b\<rparr>) = sy_interviews_kept s"
  "sy_interviews_kept (s\<lparr>sy_handles := m, sy_senders := n\<rparr>) = sy_interviews_kept s"
  by (simp_all add: sy_interviews_kept_def)

lemma map_filter_append: "List.map_filter f (xs @ ys) = List.map_filter f xs @ List.map_filter f ys"
  by (simp add: List.map_filter_def)

lemma interviews_turn: "sy_interviews_kept s \<Longrightarrow> sy_interviews_kept (sy_turn c x s)"
  unfolding sy_interviews_kept_def turn_fields
  by (subst turn_interviews) (simp add: map_filter_append)

lemma interview_taken:
  "k < length xs \<Longrightarrow> xs ! k = (i, reply) \<Longrightarrow>
     mset (List.map_filter snd xs) = mset (List.map_filter snd (take k xs @ drop (Suc k) xs))
       + mset (case reply of None \<Rightarrow> [] | Some r \<Rightarrow> [r])"
proof -
  assume "k < length xs" "xs ! k = (i, reply)"
  then have "xs = take k xs @ (i, reply) # drop (Suc k) xs" by (metis id_take_nth_drop)
  then have "List.map_filter snd xs = List.map_filter snd (take k xs @ (i, reply) # drop (Suc k) xs)" by simp
  then show ?thesis by (cases reply) (simp_all add: map_filter_append map_filter_simps)
qed

lemma interviews_step:
  assumes "sy_step c l s s'" "sy_interviews_kept s"
  shows "sy_interviews_kept s'"
  using assms(1)
proof (cases rule: sy_step.cases)
  case (interview_ends k i reply result)
  with assms(2) interview_taken [of k "sy_interviewing s" i reply] show ?thesis
    by (cases reply) (simp_all add: sy_interviews_kept_def)
qed (use assms(2) in \<open>simp_all add: interviews_turn\<close>)

lemma interviews_kept: "sy_run x ls s \<Longrightarrow> tk_interviews (st_task x) = [] \<Longrightarrow> sy_interviews_kept s"
proof (induction rule: sy_run.induct)
  case start
  with calls_prologue [of "st_config x" "st_outcome x" "st_task x"] show ?case
    by (simp add: sy_interviews_kept_def sy_initial_def tk_calls_def map_filter_simps)
qed (simp add: interviews_step)

lemma senders_in: "concat (map input_senders xs) = concat (map request_senders (requests_in xs))"
proof (induction xs)
  case (Cons y xs)
  then show ?case by (cases y) (simp_all add: requests_in_def map_filter_simps)
qed (simp add: requests_in_def map_filter_simps)

text \<open>What \<open>start\<close> hands over.\<close>

lemma zb_start_task:
  assumes "zb_start env b = Inr x"
  obtains a known devices where "st_task x = tk_initial a (zb_store b) known (zb_registry b) devices"
    "ms_load_devices (zb_store b) = Inr devices"
  using assms by (auto simp: zb_start_def split: prod.splits sum.splits)

lemma started_calls:
  assumes "zb_start env b = Inr x"
  shows "tk_interviews (st_task x) = []" "tk_callers (st_task x) = {#}"
  by (rule zb_start_task [OF assms]; simp add: callers_initial; simp add: tk_initial_def)+

text \<open>The store can be read, and the network in it, if there is one, was formed by this coordinator.\<close>

definition owned_by :: "ieee \<Rightarrow> 'a task \<Rightarrow> bool" where
  "owned_by k t \<longleftrightarrow> \<not> ms_poisoned (tk_store t)
     \<and> pred_option (\<lambda>n. pnw_coordinator_ieee n = k) (mi_network (ms_inner (tk_store t)))"

lemma owned_assess: "owned_by k (tk_assess c i ev t) = owned_by k t"
  by (simp add: tk_assess_def Let_def split_beta tk_now_def tk_wall_def tk_modify_def tk_emit_def owned_by_def
      split: option.split)

interpretation owned: call_invariant "owned_by k" "\<lambda>_. True" for k
  by unfold_locales
    (simp_all add: owned_assess, auto simp: owned_by_def tk_emit_def ms_upsert_device_def ms_delete_device_def
      ms_save_network_def ms_update_Inr ms_load_network_def ms_get_def ms_with_def)

lemma owned_save:
  "owned_by k t \<Longrightarrow> pnw_coordinator_ieee net = k \<Longrightarrow> ms_save_network net (tk_store t) = Inr s \<Longrightarrow>
     owned_by k (t\<lparr>tk_store := s\<rparr>)"
  by (simp add: owned_by_def ms_save_network_def ms_update_Inr)

lemma owned_start:
  assumes "zb_start env b = Inr x"
  shows "owned_by (cf_coordinator (st_config x)) (tk_register_coordinator (st_config x) (st_task x))"
  using assms
  by (auto simp: zb_start_def zb_check_store_def zb_config_def tk_initial_def ms_load_network_def
      ms_load_devices_def ms_get_def ms_with_def owned_by_def tk_register_coordinator_def Let_def tk_wall_def
      split: prod.splits sum.splits option.splits if_splits)

lemma owned_run:
  assumes "zb_start env b = Inr x"
  shows "owned_by (cf_coordinator (st_config x))
    (fst (run_loop (st_config x) xs (tk_prologue (st_config x) (st_outcome x) (st_task x))))"
  by (rule owned.run [OF owned.prologue [OF owned_start [OF assms] owned_save] concerns_only_all])

lemma filed_run:
  assumes "zb_start env b = Inr x" "ms_filed (zb_store b)"
  shows "ms_filed (tk_store (fst (run_loop (st_config x) xs (tk_prologue (st_config x) (st_outcome x) (st_task x)))))"
proof -
  have "tk_wf (st_task x)"
    by (rule zb_start_task [OF assms(1)]) (simp add: tk_initial_wf assms(2))
  from wf.run [OF wf.prologue [OF tk_wf_coordinator [OF this] tk_wf_save] concerns_only_all] show ?thesis
    by (simp add: tk_wf_def)
qed

text \<open>A table that is built from the store has an entry for every record, and no other.\<close>

lemma iv_get_restored:
  "distinct (map pdv_ieee ds) \<Longrightarrow>
     iv_get i (fold (\<lambda>p. iv_insert (entry_from_persisted p)) ds v)
       = (case map_of (map (\<lambda>p. (pdv_ieee p, p)) ds) i of None \<Rightarrow> iv_get i v | Some p \<Rightarrow> Some (entry_from_persisted p))"
proof (induction ds arbitrary: v)
  case (Cons p ds)
  have "map_of (map (\<lambda>p. (pdv_ieee p, p)) ds) i = None" if "pdv_ieee p = i"
    using Cons.prems that by (auto simp: map_of_eq_None_iff)
  with Cons.IH [of "iv_insert (entry_from_persisted p) v"] Cons.prems show ?case
    by (cases "pdv_ieee p = i") (simp_all add: iv_get_insert split: option.split)
qed simp

lemma filed_records:
  assumes "ms_filed s"
  shows "map (\<lambda>p. (pdv_ieee p, p)) (bt_values (mi_devices (ms_inner s))) = mi_devices (ms_inner s)"
    "distinct (map pdv_ieee (bt_values (mi_devices (ms_inner s))))"
proof -
  have keys: "\<forall>e \<in> set (mi_devices (ms_inner s)). pdv_ieee (snd e) = fst e"
    using assms by (simp add: ms_filed_def list_all_iff)
  then show "map (\<lambda>p. (pdv_ieee p, p)) (bt_values (mi_devices (ms_inner s))) = mi_devices (ms_inner s)"
    by (simp add: comp_def map_idI prod_eq_iff)
  from keys have same: "map pdv_ieee (bt_values (mi_devices (ms_inner s))) = map fst (mi_devices (ms_inner s))" by simp
  show "distinct (map pdv_ieee (bt_values (mi_devices (ms_inner s))))"
    unfolding same using assms by (simp add: ms_filed_def bt_wf_distinct)
qed

lemma restored_table:
  assumes "ms_filed s"
  shows "iv_get i (fold (\<lambda>p. iv_insert (entry_from_persisted p)) (bt_values (mi_devices (ms_inner s))) iv_new)
    = map_option entry_from_persisted (bt_get (mi_devices (ms_inner s)) i)"
proof -
  have "iv_get i iv_new = None" by (simp add: iv_get_def iv_new_def)
  then show ?thesis
    unfolding iv_get_restored [OF filed_records(2) [OF assms]] filed_records(1) [OF assms]
    by (simp split: option.split)
qed

section \<open>Properties\<close>

text \<open>
  C6: However handles, interviews, the adapter and the loop interleave, the task of a running system
  is what the loop makes of the inputs it took, in that order, and has ended exactly when the loop
  has. Those inputs are what was sent: the requests taken, followed by those that still wait, are the
  requests sent, in the order they were sent, none lost, repeated or made up, and so are the events
  of the adapter. And no caller is answered, by the task or by an interview, more often than it is
  named in the requests taken.
\<close>

theorem system_refines_loop:
  assumes "zb_start env b = Inr x" "sy_run x ls s"
  shows "run_loop (st_config x) (turns ls) (tk_prologue (st_config x) (st_outcome x) (st_task x))
      = (sy_task s, sy_ended s = None, [])
    \<and> requests_in (turns ls) @ sy_requests s = requests_sent ls
    \<and> events_in (turns ls) @ sy_adapter_events s = events_told ls
    \<and> mset (map fst (tk_replies (sy_task s)) @ map fst (sy_finished s))
        \<subseteq># mset (concat (map request_senders (requests_in (turns ls))))"
proof -
  have traced: "sy_traced x ls s" by (rule sy_traced [OF assms(2)])
  have "mset (map fst (sy_finished s)) \<subseteq># tk_waiting (sy_task s)"
  proof -
    have "mset (map fst (sy_finished s)) \<subseteq># mset (List.map_filter snd (tk_interviews (sy_task s)))"
      by (simp only: mset_subset_eq_add_left
          flip: interviews_kept [OF assms(2) started_calls(1) [OF assms(1)], unfolded sy_interviews_kept_def])
    from subset_mset.order_trans [OF this mset_subset_eq_add_right] show ?thesis
      by (simp only: tk_waiting_def)
  qed
  then have "mset (map fst (tk_replies (sy_task s)) @ map fst (sy_finished s)) \<subseteq># tk_callers (sy_task s)"
    unfolding tk_callers_def tk_answered_def mset_append by (rule subset_mset.add_left_mono)
  moreover have "tk_callers (sy_task s) \<subseteq># mset (concat (map request_senders (requests_in (turns ls))))"
    using serves_run [of "turns ls" "tk_prologue (st_config x) (st_outcome x) (st_task x)" "st_config x"] traced
    by (simp add: serves_def sy_traced_def started_calls(2) [OF assms(1)] senders_in)
  ultimately show ?thesis
    using traced unfolding sy_traced_def by (blast intro: subset_mset.order_trans)
qed

text \<open>A runtime over the silent adapter, asked for its devices and told of one that joins.\<close>

definition example_env :: "unit environment" where
  "example_env = \<lparr>ev_adapter = silent_adapter, ev_now = (\<lambda>n. secs n), ev_wall = (\<lambda>n. int (secs n)),
     ev_lower = id, ev_debug = \<lparr>dbg_value = (\<lambda>_. []), dbg_command = (\<lambda>_. [])\<rparr>\<rparr>"

definition example_builder :: "unit builder" where
  "example_builder = zg_builder cr_new ix_new () ms_new"

definition example_started :: "unit started" where
  "example_started = \<lparr>st_config = zb_config example_env (Ieee 1) example_builder,
     st_task = tk_initial () ms_new False cr_new [], st_outcome = Resumed\<rparr>"

lemma example_starts: "zb_start example_env example_builder = Inr example_started"
  by (simp add: zb_start_def zb_check_store_def example_env_def example_builder_def example_started_def
      zg_builder_def silent_adapter_def ms_load_network_def ms_load_devices_def ms_get_def ms_with_def ms_new_def)

definition example_trace :: "sy_label list" where
  "example_trace = [LSend (RqDevices 7), LDrop, LEvent (AeDeviceLeft None None), LTurn (InRequest (RqDevices 7))]"

definition example_system :: "unit system" where
  "example_system = sy_turn (st_config example_started) (InRequest (RqDevices 7)) ((sy_initial example_started)
     \<lparr>sy_handles := 0, sy_senders := 1, sy_adapter_events := [AeDeviceLeft None None]\<rparr>)"

lemma example_run: "sy_run example_started example_trace example_system"
proof -
  let ?s = "sy_initial example_started" and ?c = "st_config example_started"
  let ?s1 = "?s\<lparr>sy_requests := [RqDevices 7]\<rparr>"
  let ?s2 = "?s1\<lparr>sy_handles := 0, sy_senders := 1\<rparr>"
  let ?s3 = "?s2\<lparr>sy_adapter_events := [AeDeviceLeft None None]\<rparr>"
  have 1: "sy_step ?c (LSend (RqDevices 7)) ?s ?s1"
    using sy_step.send [of ?s ?c "RqDevices 7"] by (simp add: sy_initial_def REQUEST_QUEUE_def)
  have 2: "sy_step ?c LDrop ?s1 ?s2"
    using sy_step.drop_handle [of ?s1 ?c] by (simp add: sy_initial_def)
  have 3: "sy_step ?c (LEvent (AeDeviceLeft None None)) ?s2 ?s3"
    using sy_step.adapter [of ?s2 ?c "AeDeviceLeft None None"] by (simp add: sy_initial_def)
  have "?s3\<lparr>sy_requests := []\<rparr> = ?s\<lparr>sy_handles := 0, sy_senders := 1, sy_adapter_events := [AeDeviceLeft None None]\<rparr>"
    by (simp add: sy_initial_def)
  then have "example_system = sy_turn ?c (InRequest (RqDevices 7)) (?s3\<lparr>sy_requests := []\<rparr>)"
    by (simp only: example_system_def)
  then have 4: "sy_step ?c (LTurn (InRequest (RqDevices 7))) ?s3 example_system"
    using sy_step.request [of ?s3 "RqDevices 7" "[]" ?c] by (simp add: sy_initial_def del: run_turn.simps)
  from sy_run.step [OF sy_run.step [OF sy_run.step [OF sy_run.step [OF sy_run.start 1] 2] 3] 4]
  show ?thesis by (simp add: example_trace_def)
qed

lemma example_system_fields:
  "sy_ended example_system = None" "sy_handles example_system = 0"
  "sy_adapter_events example_system = [AeDeviceLeft None None]"
  "map fst (tk_replies (sy_task example_system)) = [7]"
proof -
  have "tk_calls (tk_prologue (st_config example_started) (st_outcome example_started) (st_task example_started))
      = tk_calls (st_task example_started)" by (rule calls_prologue)
  then show "map fst (tk_replies (sy_task example_system)) = [7]"
    by (simp add: example_system_def sy_initial_def tk_reply_def tk_calls_def)
      (simp add: example_started_def tk_initial_def)
qed (simp_all add: example_system_def sy_initial_def)

theorem system_refines_loop_witness:
  "run_loop (st_config example_started) [InRequest (RqDevices 7)]
      (tk_prologue (st_config example_started) (st_outcome example_started) (st_task example_started))
     = (sy_task example_system, True, [])
   \<and> sy_requests example_system = [] \<and> map fst (tk_replies (sy_task example_system)) = [7]"
proof -
  have "turns example_trace = [InRequest (RqDevices 7)]" "requests_sent example_trace = [RqDevices 7]"
    by (simp_all add: example_trace_def turns_def requests_sent_def map_filter_simps)
  with system_refines_loop [OF example_starts example_run] example_system_fields show ?thesis
    by (simp add: requests_in_def map_filter_simps del: run_loop.simps)
qed

text \<open>
  C34: The runtime never notices that every handle on it has been dropped. The request channel counts
  one sender for each handle of the program and each running interview, and one more as long as the
  loop runs, which is the handle the task was given; so the channel is never closed while the loop
  runs, no turn of any run is taken for that reason, and no loop returns for it.
\<close>

theorem dropped_handles_unnoticed:
  assumes "sy_run x ls s"
  shows "sy_senders s = sy_handles s + length (sy_interviewing s) + (if sy_ended s = None then 1 else 0)
    \<and> LTurn InHandlesDropped \<notin> set ls \<and> sy_ended s \<noteq> Some InHandlesDropped"
proof -
  have "LTurn InHandlesDropped \<notin> set ls \<and> sy_ended s \<noteq> Some InHandlesDropped"
    using assms
  proof (induction rule: sy_run.induct)
    case (step ls s l s')
    from step.hyps(2) step.IH sy_senders_counted [OF step.hyps(1)] show ?case
      by (cases rule: sy_step.cases) (auto split: if_splits simp del: run_turn.simps)
  qed (simp add: sy_initial_def)
  with sy_senders_counted [OF assms] show ?thesis by simp
qed

theorem dropped_handles_unnoticed_witness:
  "sy_handles example_system = 0 \<and> sy_senders example_system = Suc (length (sy_interviewing example_system))
   \<and> LTurn InHandlesDropped \<notin> set example_trace"
  using dropped_handles_unnoticed [OF example_run] example_system_fields by simp


text \<open>
  C37: A store belongs to the coordinator that used it. After a runtime has started and done anything
  whatever, the next start on its store fails with what the adapter reports when the adapter does not
  start or tell its address; it refuses any other coordinator, naming both, once a network is stored;
  and otherwise it starts, as the coordinator that was found and with what starting the adapter told,
  on the same store, and knows exactly the devices stored, each as its record says.
\<close>

theorem restart_needs_same_coordinator:
  assumes "zb_start env b = Inr x" "ms_filed (zb_store b)"
    and "t = fst (run_loop (st_config x) xs (tk_prologue (st_config x) (st_outcome x) (st_task x)))"
    and "zb_store b' = tk_store t"
  shows "case ad_start (ev_adapter env') (zb_network b') (zb_backup b') (zb_adapter b') of
      (Inl e, _) \<Rightarrow> zb_start env' b' = Inl (ReAdapter e)
    | (Inr outcome, a) \<Rightarrow>
   (case ad_coordinator_ieee (ev_adapter env') a of
      (Inl e, _) \<Rightarrow> zb_start env' b' = Inl (ReAdapter e)
    | (Inr found, a) \<Rightarrow>
        (if mi_network (ms_inner (tk_store t)) \<noteq> None \<and> found \<noteq> cf_coordinator (st_config x)
         then zb_start env' b' = Inl (ReCoordinatorMismatch (cf_coordinator (st_config x)) found)
         else (case zb_start env' b' of
                 Inl _ \<Rightarrow> False
               | Inr y \<Rightarrow> cf_coordinator (st_config y) = found \<and> st_outcome y = outcome
                   \<and> tk_adapter (st_task y) = a \<and> tk_store (st_task y) = tk_store t
                   \<and> iv_get i (tk_devices (st_task y))
                       = map_option entry_from_persisted (bt_get (mi_devices (ms_inner (tk_store t))) i))))"
proof -
  have own: "owned_by (cf_coordinator (st_config x)) t"
    unfolding assms(3) by (rule owned_run [OF assms(1)])
  have filed: "ms_filed (tk_store t)"
    unfolding assms(3) by (rule filed_run [OF assms(1,2)])
  have devices: "ms_load_devices (tk_store t) = Inr (bt_values (mi_devices (ms_inner (tk_store t))))"
    using own by (simp add: owned_by_def ms_load_devices_def ms_get_def ms_with_def)
  have check: "zb_check_store found (tk_store t) =
      (if mi_network (ms_inner (tk_store t)) \<noteq> None \<and> found \<noteq> cf_coordinator (st_config x)
       then Inl (ReCoordinatorMismatch (cf_coordinator (st_config x)) found)
       else Inr (mi_network (ms_inner (tk_store t))))" for found
    using own by (cases "mi_network (ms_inner (tk_store t))")
      (auto simp: zb_check_store_def owned_by_def ms_load_network_def ms_get_def ms_with_def)
  show ?thesis
    by (simp add: zb_start_def assms(4) check devices zb_config_def tk_initial_def restored_table [OF filed]
        split: prod.split sum.split)
qed

lemma prologue_forms_network:
  assumes "\<not> tk_network_known t" "\<not> ms_poisoned (tk_store t)"
    and "fst (ad_network_info (cf_adapter c) (tk_adapter t)) = Inr info"
  shows "mi_network (ms_inner (tk_store (tk_prologue c outcome t))) \<noteq> None"
proof -
  let ?view = "\<lambda>t. (tk_network_known t, tk_store t, tk_adapter t)"
  have fold: "?view (fold (tk_register_custom_clusters c) is u) = ?view u" for "is" u
    by (induction "is" arbitrary: u) (simp_all add: tk_register_custom_clusters_def split: option.split)
  have reg: "?view (tk_register_coordinator c t) = ?view t"
    by (simp add: tk_register_coordinator_def Let_def tk_wall_def)
  have "mi_network (ms_inner (tk_store (tk_persist_network c u))) \<noteq> None" if "?view u = ?view t" for u
    using that assms
    by (auto simp: tk_persist_network_def tk_network_info_def Let_def ms_save_network_def ms_update_def ms_with_def
        split: prod.splits sum.splits)
  from this [OF trans [OF fold reg]] show ?thesis by (simp add: tk_prologue_def Let_def tk_emit_def)
qed

text \<open>A network is formed at the first start; a coordinator with another address is then refused.\<close>

definition forming_env :: "unit environment" where
  "forming_env = example_env\<lparr>ev_adapter := cf_adapter counting_config\<rparr>"

definition forming_started :: "unit started" where
  "forming_started = \<lparr>st_config = zb_config forming_env (Ieee 1) example_builder,
     st_task = tk_initial () ms_new False cr_new [], st_outcome = Resumed\<rparr>"

lemma forming_starts: "zb_start forming_env example_builder = Inr forming_started"
  by (simp add: zb_start_def zb_check_store_def forming_env_def counting_config_def example_config_def example_env_def
      example_builder_def forming_started_def zg_builder_def silent_adapter_def ms_load_network_def
      ms_load_devices_def ms_get_def ms_with_def ms_new_def)

definition forming_task :: "unit task" where
  "forming_task = fst (run_loop (st_config forming_started) []
     (tk_prologue (st_config forming_started) (st_outcome forming_started) (st_task forming_started)))"

theorem restart_needs_same_coordinator_witness:
  "zb_start (example_env\<lparr>ev_adapter := silent_adapter\<lparr>ad_coordinator_ieee := (\<lambda>a. (Inr (Ieee 9), a))\<rparr>\<rparr>)
     (example_builder\<lparr>zb_store := tk_store forming_task\<rparr>) = Inl (ReCoordinatorMismatch (Ieee 1) (Ieee 9))"
proof -
  have filed: "ms_filed (zb_store example_builder)"
    by (simp add: example_builder_def zg_builder_def ms_filed_def ms_new_def bt_wf_def)
  have formed: "mi_network (ms_inner (tk_store forming_task)) \<noteq> None"
    unfolding forming_task_def run_loop.simps fst_conv
    by (rule prologue_forms_network)
      (simp_all add: forming_started_def zb_config_def forming_env_def counting_config_def tk_initial_def ms_new_def)
  have store: "zb_store (example_builder\<lparr>zb_store := tk_store forming_task\<rparr>) = tk_store forming_task" by simp
  have own: "cf_coordinator (st_config forming_started) = Ieee 1" by (simp add: forming_started_def zb_config_def)
  show ?thesis
    using restart_needs_same_coordinator [OF forming_starts filed forming_task_def store,
        of "example_env\<lparr>ev_adapter := silent_adapter\<lparr>ad_coordinator_ieee := (\<lambda>a. (Inr (Ieee 9), a))\<rparr>\<rparr>"] formed own
    by (simp add: silent_adapter_def)
qed

end
