(* ===== verification/Spec2Isabelle.thy ===== *)
theory Spec2Isabelle
  imports Rz_Prelude Std_Maps Utf8 Ids Codec Zcl_Types Zcl_Frame Zcl_Registry Zdo Tuya
    Correlator Adapter_Tx Device Reachability Decimal Store File_System File_Store Inventory Definition Def_Index Zcl_Messages
    State_Values Events Mqtt F64 Dev_Sources Dev_Configure Dev_Commands Tuya_Engine Tuya_Schedule
    Interview
    Task_State Task_Transport Task_Devices Task_Inbound Task_Commands Task_Loop Task_Invariant
    Task_Calls Task_Observers Task_Network Runtime
begin

text \<open>
  A verification library for rszigbee, a Zigbee runtime in Rust. Paths are under
  \<open>src/crates/\<close>.

  The program. A coordinator (a radio on a serial port) is driven through an adapter trait. One
  runtime task owns the adapter, the table of devices and the store; callers hold handles and send
  it requests over a channel, the adapter sends it events over another, and what happens is reported
  on an event stream. A device that joins is interviewed with ZDO and ZCL requests; the model it
  reports selects a definition from an index; the definition says how its attributes and datapoints
  become state, how commands become frames and which reports are configured. An MQTT layer turns
  events into publications and messages into commands.

  The wire (\<open>rszigbee-spec\<close>). \<open>Codec\<close> is \<open>codec.rs\<close>: a reader with a cursor that never leaves its
  buffer and a writer. \<open>Ids\<close> is \<open>ids.rs\<close>, \<open>Zcl_Types\<close> the types and values of \<open>zcl/types.rs\<close>,
  \<open>Zcl_Frame\<close> the frames of \<open>zcl/frame.rs\<close>, \<open>Zcl_Registry\<close> the cluster tables of \<open>zcl/registry.rs\<close>,
  \<open>Zdo\<close> is \<open>zdo.rs\<close> and \<open>zdo/codec.rs\<close>, \<open>Tuya\<close> is \<open>tuya.rs\<close>. Their theorems say exactly which
  bytes decode and to what, and that what is written is read back. Integers are words of their
  width; lengths that the code keeps in \<open>usize\<close> are naturals.

  The adapter (\<open>rszigbee-adapter\<close>). \<open>Adapter_Tx\<close> and \<open>Events\<close> hold the types of its boundary, and
  \<open>Correlator\<close> the correlation of responses with waiters: one-shot channels are an explicit store of
  channel states, so dropping an end is a step, and the invariants hold over every interleaving.

  Devices and persistence (\<open>rszigbee-core\<close>). \<open>Device\<close>, \<open>Reachability\<close> (the facts, and the policy
  that concludes from silence), \<open>Store\<close> (records, the JSON form of the network key, the in-memory
  store, the identifiers of backups) and \<open>Inventory\<close> (the device table with its index by short
  address; what a restart keeps).

  The store on disk (\<open>store/file.rs\<close>). \<open>File_System\<close> is the part of the standard library it works
  on: names of files, their contents, and the calls, each of which can fail; the power can fail
  before any of them, and a write to an asynchronous file can fall short without being reported,
  since the code never flushes. What a directory holds after a power failure is one of its states since it was
  last synchronised; a synchronised file keeps its contents, any other may hold anything. Directories
  are taken to last once made. \<open>File_Store\<close> has every operation of the store on it, the replacement
  of a file by a synchronised temporary one, and what is moved aside. It is proved that any run with
  any reported failures leaves every record whole and the network's identity in place; that with
  failures nobody is told of, the records no operation is about are still untouched, and a network
  file that was cut short is reported as corrupt and not as absent; and, by the locale
  \<open>zigbee_store\<close>, that the file store and the in-memory store implement the same table.

  Definitions (\<open>rszigbee-devices\<close> and \<open>runtime/definitions/\<close>). \<open>Definition\<close> and \<open>Def_Index\<close> match
  devices; the index is proved to find what a search of all definitions finds. \<open>Dev_Sources\<close>,
  \<open>Dev_Configure\<close> and \<open>Dev_Commands\<close> are reports to state, the configuration plan and the planning
  of commands; \<open>Tuya_Engine\<close> is the datapoint table of \<open>runtime/tuya.rs\<close> with named behaviours, and
  \<open>Tuya_Schedule\<close> the behaviour of \<open>runtime/behaviors.rs\<close>, the weekly schedule of a thermostat with
  the parser of its temperatures.
  \<open>F64\<close> gives 64-bit floats their rational values for the scalings, by their bits, and bounds the
  error of rounding. \<open>State_Values\<close>
  and \<open>Zcl_Messages\<close> are the values, commands and ZCL requests these exchange.

  The runtime task (\<open>rszigbee-core/src/runtime/task/\<close>). \<open>Task_State\<close> is its state, a record, with
  its requests and replies, the adapter as a record of functions over a state of its own, and
  availability; \<open>Task_Transport\<close>, \<open>Task_Devices\<close>, \<open>Task_Inbound\<close>, \<open>Task_Commands\<close> are the
  operations of the files of those names (\<open>provisioning.rs\<close> is in \<open>Task_Devices\<close>), each a function
  from state to state; \<open>Task_Loop\<close> is one turn of the loop for each input, the loop, and the
  shutdown. What the task sends outside is logged in its state: events, replies, frames. The clocks
  answer the n-th reading of a run, so nothing is assumed of time. \<open>Interview\<close> is the interview, a
  client of the task, as a function of the answers it gets. \<open>Runtime\<close> is the builder, starting, and
  the task with its two channels, its handles and its interviews as an inductive step relation with
  labels, whose runs carry the trace of what was sent, told and taken; the channel counts its senders
  as every clone and drop of a handle changes them.

  How the task is proved correct. \<open>Task_Invariant\<close> has three locales, each extending the last: a
  property that survives the primitive updates of the state survives every operation; a second
  parameter says which devices may be assessed, so that a property of a silent device is an invariant
  of the runs that do not concern it. They are interpreted with the well-formedness of the tables,
  with what callers see, with the interviews started, with what has gone to the radio, with what a
  subscriber can know, with a device that is silent, and with whose network is stored. From these
  \<open>Task_Calls\<close> proves that no caller is answered twice, that a read gets the answer of its device, that
  timeouts and stopping answer everybody, where the loop ends and that it has then shut down;
  \<open>Task_Observers\<close> that the event stream tells a subscriber exactly which devices are known and the
  verdict on each, and that refused commands send nothing; \<open>Task_Network\<close> what is kept of the frame
  counter and of devices that leave or stay silent; \<open>Runtime\<close> that every interleaving of the system
  is a run of the loop over what was sent, in order, so all of this holds of it, that the request
  channel never closes under the loop, and what a restart on the same store does.

  The MQTT layer (\<open>rszigbee-mqtt\<close>). \<open>Mqtt\<close> has topics, incoming messages and publications with the
  state accumulated for each device.

  Shared theories. \<open>Rz_Prelude\<close> (machine integers, bytes, results), \<open>Std_Maps\<close> (the two maps of
  the standard library, with the locale \<open>key_map\<close> of what both promise), \<open>Utf8\<close> and \<open>Decimal\<close>
  (texts). Strings are lists of bytes that hold UTF-8.

  Totality. Every definition is a total function: the recursions are structural or have a
  termination proof, and the code's own bounds are the only ones; there is no fuel. The loop of the
  task is a recursion over the inputs it is given, and it is proved where it ends. Errors are values
  of sums and options, one branch for each return of the code.

  Arguments of the model. The generated tables of clusters and of devices; the lower-casing of model
  names; the derived debug text in two error messages; the JSON reader and the rendering of floats;
  the adapter, whose methods may answer anything; the clocks. No law is assumed of these. Of the JSON
  library the file store uses, its theorems assume that it reads back what it wrote, and, where a
  file may be cut short, that no proper beginning of what it wrote reads.

  Not modelled, and why. The Ember adapter drives a serial protocol library that is not in the
  repository. The generated tables are data. The mock adapter and the store conformance suite are
  tests; the contract the latter checks is the locale \<open>zigbee_store\<close>. The descriptions of
  capabilities in \<open>capability.rs\<close> are read by nothing in the repository. The gateway's broker client
  and command line and the importer are input and output. In the task the store is the in-memory
  one; logging is left out. Instants and durations are unbounded: the additions in \<open>permit_join\<close> and
  in the silence policy, which panic in the code when the sum does not fit, do not. A mutex is taken
  as never poisoned except in the in-memory store, and removing an entry of the correlator and sending
  to its waiter are taken as one step. The system has no
  bound on the queue of the adapter, which the caller of the builder chooses.
\<close>

end
